(* ===== verification/Prelude.thy ===== *)
theory Prelude
  imports Complex_Main "HOL-Library.Word" "HOL-Library.Multiset" "HOL-Library.Char_ord"
    "HOL-Library.List_Lexorder" "HOL-Library.Product_Lexorder"
begin

text \<open>
  Shared vocabulary of the development: the exceptions of the program and a result type for
  code that raises, Python string helpers (strings are their UTF-8 bytes, a \<open>char\<close> is one
  byte), decimal printing, and generic lemmas on results and lists. The collection
  \<open>res_simps\<close> reduces a statement \<open>code = Inr y\<close> to the conjunction of its guards.
\<close>

named_theorems res_simps \<open>how a result is Inr: one fact per combinator\<close>

section \<open>Exceptions and results\<close>

text \<open>
  One constructor per exception class the modelled code raises. The argument is the literal
  text of the message, with interpolated values left out, and for \<open>BudgetExhaustedError\<close> the
  metric; a \<open>CompositeRuntimeError\<close> carries its kind as well.
\<close>

datatype exn =
    ValueError string
  | ValidationError string
  | KeyError string
  | StopIteration
  | AssertionError string
  | CompositeCompilationError string
  | InertProtocolError string
  | SemanticMutationError string
  | TransactionApplicabilityError string
  | BudgetExpansionError string
  | DependencyInvalidTransactionError string
  | TransactionReversionError string
  | BudgetExhaustedError string
  | PromotionRefusal string
  | PairingError string
  | PatchApplyError string
  | OverflowError string
  | ZeroDivisionError string
  | ArtifactStoreError string
  | RepairToolError string
  | CompositeRuntimeError string string
  | ProviderInvocationError string
  | PairedSearchIntegrityError string
  | SearchConfigurationError string

type_synonym 'a res = "exn + 'a"

definition bindE :: "'a res \<Rightarrow> ('a \<Rightarrow> 'b res) \<Rightarrow> 'b res" where
  "bindE m f = (case m of Inl e \<Rightarrow> Inl e | Inr x \<Rightarrow> f x)"

definition raise_if :: "bool \<Rightarrow> exn \<Rightarrow> unit res" where
  "raise_if b e = (if b then Inl e else Inr ())"

text \<open>A statement that only raises or falls through, followed by the rest of the body.\<close>

definition thenE :: "unit res \<Rightarrow> 'b res \<Rightarrow> 'b res" where
  "thenE m n = (case m of Inl e \<Rightarrow> Inl e | Inr _ \<Rightarrow> n)"

fun mapE :: "('a \<Rightarrow> 'b res) \<Rightarrow> 'a list \<Rightarrow> 'b list res" where
  "mapE f [] = Inr []"
| "mapE f (x # xs) = bindE (f x) (\<lambda>y. bindE (mapE f xs) (\<lambda>ys. Inr (y # ys)))"

fun forE :: "('a \<Rightarrow> unit res) \<Rightarrow> 'a list \<Rightarrow> unit res" where
  "forE f [] = Inr ()"
| "forE f (x # xs) = thenE (f x) (forE f xs)"

definition optE :: "('a \<Rightarrow> 'b res) \<Rightarrow> 'a option \<Rightarrow> 'b option res" where
  "optE f x = (case x of None \<Rightarrow> Inr None | Some a \<Rightarrow> bindE (f a) (\<lambda>b. Inr (Some b)))"

text \<open>\<open>try: m except p: raise h\<close>\<close>

definition catchE :: "(exn \<Rightarrow> bool) \<Rightarrow> (exn \<Rightarrow> exn) \<Rightarrow> 'a res \<Rightarrow> 'a res" where
  "catchE p h m = (case m of Inl e \<Rightarrow> if p e then Inl (h e) else Inl e | Inr x \<Rightarrow> Inr x)"

text \<open>Pydantic reports a \<open>ValueError\<close> or an \<open>AssertionError\<close> of a validator as a
  \<open>ValidationError\<close>.\<close>

fun to_validation :: "exn \<Rightarrow> exn" where
  "to_validation (ValueError m) = ValidationError m"
| "to_validation (AssertionError m) = ValidationError m"
| "to_validation e = e"

definition validated :: "'a res \<Rightarrow> 'a res" where
  "validated m = catchE (\<lambda>_. True) to_validation m"

text \<open>\<open>isinstance(e, ValueError)\<close>: the classes declared below \<open>ValueError\<close>.\<close>

fun is_value_error :: "exn \<Rightarrow> bool" where
  "is_value_error (KeyError _) = False"
| "is_value_error StopIteration = False"
| "is_value_error (AssertionError _) = False"
| "is_value_error (BudgetExhaustedError _) = False"
| "is_value_error (PatchApplyError _) = False"
| "is_value_error (OverflowError _) = False"
| "is_value_error (ZeroDivisionError _) = False"
| "is_value_error (ArtifactStoreError _) = False"
| "is_value_error (RepairToolError _) = False"
| "is_value_error (CompositeRuntimeError _ _) = False"
| "is_value_error (ProviderInvocationError _) = False"
| "is_value_error _ = True"

text \<open>\<open>isinstance(e, (CompositeCompilationError, ValidationError))\<close>; an
  \<open>InertProtocolError\<close> is a \<open>CompositeCompilationError\<close>.\<close>

fun is_compilation_error :: "exn \<Rightarrow> bool" where
  "is_compilation_error (CompositeCompilationError _) = True"
| "is_compilation_error (InertProtocolError _) = True"
| "is_compilation_error (ValidationError _) = True"
| "is_compilation_error _ = False"

fun is_inert_error :: "exn \<Rightarrow> bool" where
  "is_inert_error (InertProtocolError _) = True"
| "is_inert_error _ = False"

lemma bindE_Inr [res_simps]: "bindE m f = Inr y \<longleftrightarrow> (\<exists>x. m = Inr x \<and> f x = Inr y)"
  by (auto simp: bindE_def split: sum.splits)

lemma thenE_Inr [res_simps]: "thenE m n = Inr y \<longleftrightarrow> m = Inr () \<and> n = Inr y"
  by (auto simp: thenE_def split: sum.splits)

lemma raise_if_Inr [res_simps]: "raise_if b e = Inr u \<longleftrightarrow> \<not> b"
  by (simp add: raise_if_def)

lemma catchE_Inr [res_simps]: "catchE p h m = Inr y \<longleftrightarrow> m = Inr y"
  by (auto simp: catchE_def split: sum.splits)

lemma validated_Inr [res_simps]: "validated m = Inr y \<longleftrightarrow> m = Inr y"
  by (simp add: validated_def res_simps)

lemma mapE_Inr [res_simps]: "mapE f xs = Inr ys \<longleftrightarrow> list_all2 (\<lambda>x y. f x = Inr y) xs ys"
  by (induction xs arbitrary: ys) (auto simp: res_simps list_all2_Cons1)

lemma forE_Inr [res_simps]: "forE f xs = Inr u \<longleftrightarrow> (\<forall>x\<in>set xs. f x = Inr ())"
  by (induction xs) (auto simp: res_simps)

lemma optE_Inr [res_simps]:
  "optE f x = Inr y \<longleftrightarrow> (case x of None \<Rightarrow> y = None | Some a \<Rightarrow> (\<exists>b. f a = Inr b \<and> y = Some b))"
  by (auto simp: optE_def res_simps split: option.splits)

lemma bindE_simps [simp]:
  "bindE (Inl e) f = Inl e" "bindE (Inr x) f = f x"
  by (simp_all add: bindE_def)

lemma thenE_simps [simp]:
  "thenE (Inl e) n = Inl e" "thenE (Inr u) n = n"
  by (simp_all add: thenE_def)

lemma raise_if_simps [simp]:
  "raise_if True e = Inl e" "raise_if False e = Inr ()"
  by (simp_all add: raise_if_def)

lemma catchE_simps [simp]:
  "catchE p h (Inl e) = (if p e then Inl (h e) else Inl e)" "catchE p h (Inr x) = Inr x"
  by (simp_all add: catchE_def)

lemma validated_simps [simp]:
  "validated (Inl e) = Inl (to_validation e)" "validated (Inr x) = Inr x"
  by (simp_all add: validated_def)

lemma optE_simps [simp]:
  "optE f None = Inr None" "optE f (Some a) = bindE (f a) (\<lambda>b. Inr (Some b))"
  by (simp_all add: optE_def)

lemma mapE_fixpoint: "mapE f xs = Inr xs \<longleftrightarrow> (\<forall>x\<in>set xs. f x = Inr x)"
  by (induction xs) (auto simp: res_simps)

lemma mapE_idem:
  assumes "\<And>x y. f x = Inr y \<Longrightarrow> f y = Inr y" and "mapE f xs = Inr ys"
  shows "mapE f ys = Inr ys"
  using assms(2) unfolding mapE_fixpoint mapE_Inr
  by (auto simp: list_all2_conv_all_nth in_set_conv_nth) (metis assms(1))

section \<open>Python strings\<close>

text \<open>
  \<open>str.strip()\<close> on ASCII text removes bytes 9-13, 28-31 and 32; the trimming that Pydantic's
  \<open>str_strip_whitespace\<close> does removes the ASCII members of Unicode \<open>White_Space\<close>, bytes
  9-13 and 32. White space outside ASCII is not modelled.
\<close>

definition is_py_space :: "char \<Rightarrow> bool" where
  "is_py_space c = (let n = (of_char c :: nat) in 9 \<le> n \<and> n \<le> 13 \<or> 28 \<le> n \<and> n \<le> 32)"

definition is_trim_space :: "char \<Rightarrow> bool" where
  "is_trim_space c = (let n = (of_char c :: nat) in 9 \<le> n \<and> n \<le> 13 \<or> n = 32)"

definition strip_with :: "(char \<Rightarrow> bool) \<Rightarrow> string \<Rightarrow> string" where
  "strip_with p s = rev (dropWhile p (rev (dropWhile p s)))"

abbreviation py_strip :: "string \<Rightarrow> string" where
  "py_strip \<equiv> strip_with is_py_space"

abbreviation py_trim :: "string \<Rightarrow> string" where
  "py_trim \<equiv> strip_with is_trim_space"

lemma dropWhile_idem [simp]: "dropWhile p (dropWhile p s) = dropWhile p s"
  by (induction s) auto

lemma dropWhile_id_iff: "dropWhile p s = s \<longleftrightarrow> s = [] \<or> \<not> p (hd s)"
  by (simp add: dropWhile_eq_self_iff)

lemma last_dropWhile: "dropWhile p s \<noteq> [] \<Longrightarrow> last (dropWhile p s) = last s"
  by (induction s) (auto split: if_splits)

lemma strip_with_idem [simp]: "strip_with p (strip_with p s) = strip_with p s"
proof -
  let ?d = "dropWhile p s" and ?r = "dropWhile p (rev (dropWhile p s))"
  have "dropWhile p (rev ?r) = rev ?r"
  proof (cases "?r = []")
    case True
    then show ?thesis by (simp only: True dropWhile.simps rev.simps)
  next
    case False
    then have "?d \<noteq> []" by (metis dropWhile.simps(1) rev.simps(1))
    have "last ?r = last (rev ?d)" by (rule last_dropWhile [OF False])
    then have "hd (rev ?r) = hd ?d" using False \<open>?d \<noteq> []\<close> by (simp add: hd_rev last_rev)
    moreover have "\<not> p (hd ?d)" using \<open>?d \<noteq> []\<close> by (rule hd_dropWhile)
    ultimately show ?thesis by (simp add: dropWhile_id_iff)
  qed
  then show ?thesis by (simp add: strip_with_def)
qed

lemma strip_with_ends:
  assumes "strip_with p s \<noteq> []"
  shows "\<not> p (hd (strip_with p s))" and "\<not> p (last (strip_with p s))"
proof -
  let ?t = "strip_with p s"
  have "dropWhile p (rev (dropWhile p s)) = rev ?t" by (simp add: strip_with_def)
  then have "\<not> p (hd (rev ?t))" using assms hd_dropWhile [of p "rev (dropWhile p s)"] by (simp add: strip_with_def)
  then show "\<not> p (last ?t)" using assms by (simp add: hd_rev)
  have "strip_with p ?t = ?t" by simp
  then have "length (dropWhile p ?t) = length ?t"
    using length_dropWhile_le [of p ?t] length_dropWhile_le [of p "rev (dropWhile p ?t)"]
    by (metis length_rev le_antisym strip_with_def)
  then have "dropWhile p ?t = ?t"
    by (metis append_self_conv2 length_0_conv takeWhile_dropWhile_id add_cancel_left_left length_append)
  then show "\<not> p (hd ?t)" using assms by (metis hd_dropWhile)
qed

lemma strip_with_absorb:
  assumes "\<And>c. q c \<Longrightarrow> p c"
  shows "strip_with q (strip_with p s) = strip_with p s"
proof (cases "strip_with p s = []")
  case True
  show ?thesis unfolding True by (simp add: strip_with_def)
next
  case False
  then have "dropWhile q (strip_with p s) = strip_with p s"
    "dropWhile q (rev (strip_with p s)) = rev (strip_with p s)"
    using strip_with_ends [OF False] assms by (auto simp: dropWhile_eq_self_iff hd_rev)
  then show ?thesis by (simp add: strip_with_def)
qed

lemma py_trim_strip [simp]: "py_trim (py_strip s) = py_strip s"
  by (rule strip_with_absorb) (auto simp: is_trim_space_def is_py_space_def Let_def)

lemma strip_with_id: "\<forall>c\<in>set s. \<not> p c \<Longrightarrow> strip_with p s = s"
proof -
  assume a: "\<forall>c\<in>set s. \<not> p c"
  then have "dropWhile p s = s" and "dropWhile p (rev s) = rev s"
    by (auto simp only: dropWhile_eq_self_iff hd_rev dest: hd_in_set last_in_set)
  then show ?thesis by (simp add: strip_with_def)
qed

lemma set_strip_with: "set (strip_with p s) \<subseteq> set s"
  unfolding strip_with_def by (auto dest!: set_dropWhileD)

definition is_lower :: "char \<Rightarrow> bool" where
  "is_lower c = (let n = (of_char c :: nat) in 97 \<le> n \<and> n \<le> 122)"

definition is_upper :: "char \<Rightarrow> bool" where
  "is_upper c = (let n = (of_char c :: nat) in 65 \<le> n \<and> n \<le> 90)"

definition is_digit :: "char \<Rightarrow> bool" where
  "is_digit c = (let n = (of_char c :: nat) in 48 \<le> n \<and> n \<le> 57)"

definition lower_char :: "char \<Rightarrow> char" where
  "lower_char c = (if is_upper c then char_of ((of_char c :: nat) + 32) else c)"

definition py_lower :: "string \<Rightarrow> string" where
  "py_lower s = map lower_char s"

definition starts_with :: "string \<Rightarrow> string \<Rightarrow> bool" where
  "starts_with s p = (take (length p) s = p)"

section \<open>Decimal printing\<close>

definition digit_char :: "nat \<Rightarrow> char" where
  "digit_char d = char_of (48 + d)"

fun show_nat :: "nat \<Rightarrow> string" where
  "show_nat n = (if n < 10 then [digit_char n] else show_nat (n div 10) @ [digit_char (n mod 10)])"

declare show_nat.simps [simp del]

definition show_int :: "int \<Rightarrow> string" where
  "show_int i = (if i < 0 then CHR ''-'' # show_nat (nat (- i)) else show_nat (nat i))"

text \<open>Reading back, used to show that printing loses nothing.\<close>

definition read_nat :: "string \<Rightarrow> nat" where
  "read_nat s = foldl (\<lambda>n c. 10 * n + (of_char c - 48)) 0 s"

lemma of_char_digit [simp]: "d < 10 \<Longrightarrow> (of_char (digit_char d) :: nat) = 48 + d"
  by (simp add: digit_char_def)

lemma read_nat_snoc: "read_nat (s @ [c]) = 10 * read_nat s + (of_char c - 48)"
  by (simp add: read_nat_def)

lemma read_show_nat [simp]: "read_nat (show_nat n) = n"
proof (induction n rule: show_nat.induct)
  case (1 n)
  show ?case
  proof (cases "n < 10")
    case True
    then show ?thesis by (subst show_nat.simps) (simp add: read_nat_def)
  next
    case False
    then have "read_nat (show_nat n) = 10 * (n div 10) + n mod 10"
      using "1.IH" by (subst show_nat.simps) (simp add: read_nat_snoc)
    then show ?thesis by simp
  qed
qed

lemma show_nat_inject [simp]: "show_nat a = show_nat b \<longleftrightarrow> a = b"
  by (metis read_show_nat)

lemma show_nat_digits: "c \<in> set (show_nat n) \<Longrightarrow> is_digit c"
proof (induction n rule: show_nat.induct)
  case (1 n)
  then show ?case
    by (subst (asm) show_nat.simps) (auto simp: is_digit_def split: if_splits)
qed

lemma show_nat_nonempty [simp]: "show_nat n \<noteq> []"
  by (subst show_nat.simps) simp

lemma show_nat_no_minus: "show_nat n \<noteq> CHR ''-'' # s"
proof
  assume "show_nat n = CHR ''-'' # s"
  then have "is_digit (CHR ''-'')" using show_nat_digits [of "CHR ''-''" n] by simp
  then show False by (simp add: is_digit_def)
qed

lemma show_int_inject [simp]: "show_int a = show_int b \<longleftrightarrow> a = b"
  by (auto simp: show_int_def show_nat_no_minus show_nat_no_minus [symmetric] split: if_splits)

text \<open>\<open>f"{n:06d}"\<close> for a nonnegative \<open>n\<close>.\<close>

definition pad6 :: "nat \<Rightarrow> string" where
  "pad6 n = (let s = show_nat n in replicate (6 - length s) (CHR ''0'') @ s)"

lemma read_nat_zeros: "read_nat (replicate k (CHR ''0'') @ s) = read_nat s"
proof -
  have "foldl (\<lambda>n c. 10 * n + (of_char c - 48)) 0 (replicate k (CHR ''0'')) = (0 :: nat)"
    by (induction k) simp_all
  then show ?thesis by (simp add: read_nat_def)
qed

lemma pad6_inject [simp]: "pad6 a = pad6 b \<longleftrightarrow> a = b"
  by (metis pad6_def read_nat_zeros read_show_nat)

section \<open>Lists\<close>

definition subset_list :: "'a list \<Rightarrow> 'a list \<Rightarrow> bool" where
  "subset_list xs ys = list_all (\<lambda>x. x \<in> set ys) xs"

lemma subset_list_iff [simp]: "subset_list xs ys \<longleftrightarrow> set xs \<subseteq> set ys"
  by (auto simp: subset_list_def list_all_iff)

definition disjoint_list :: "'a list \<Rightarrow> 'a list \<Rightarrow> bool" where
  "disjoint_list xs ys = list_all (\<lambda>x. x \<notin> set ys) xs"

lemma disjoint_list_iff [simp]: "disjoint_list xs ys \<longleftrightarrow> set xs \<inter> set ys = {}"
  by (auto simp: disjoint_list_def list_all_iff)

lemma find_Some_unique:
  assumes "distinct (map f xs)" and "x \<in> set xs"
  shows "find (\<lambda>y. f y = f x) xs = Some x"
  using assms by (induction xs) auto

lemma filter_single: "distinct xs \<Longrightarrow> x \<in> set xs \<Longrightarrow> filter (\<lambda>y. y = x) xs = [x]"
  by (induction xs) (auto simp: filter_empty_conv)

lemma find_key_Some: "find (\<lambda>y. f y = k) xs = Some x \<Longrightarrow> x \<in> set xs \<and> f x = k"
  by (auto simp: find_Some_iff in_set_conv_nth)

lemma find_key_None: "find (\<lambda>y. f y = k) xs = None \<longleftrightarrow> k \<notin> f ` set xs"
  by (auto simp: find_None_iff)

lemma distinct_map_eq: "distinct (map f xs) \<Longrightarrow> x \<in> set xs \<Longrightarrow> y \<in> set xs \<Longrightarrow> f x = f y \<Longrightarrow> x = y"
  by (auto simp: distinct_map dest: inj_onD)

lemma list_all2_right: "list_all2 P xs ys \<Longrightarrow> y \<in> set ys \<Longrightarrow> \<exists>x\<in>set xs. P x y"
  by (induction rule: list_all2_induct) auto

lemma list_all2_left: "list_all2 P xs ys \<Longrightarrow> x \<in> set xs \<Longrightarrow> \<exists>y\<in>set ys. P x y"
  by (induction rule: list_all2_induct) auto

lemma mapE_all: "mapE f xs = Inr ys \<Longrightarrow> (\<And>x y. f x = Inr y \<Longrightarrow> P y) \<Longrightarrow> \<forall>y\<in>set ys. P y"
  by (auto simp: mapE_Inr dest: list_all2_right)

lemma mapE_Nil_iff: "mapE f xs = Inr ys \<Longrightarrow> ys = [] \<longleftrightarrow> xs = []"
  by (auto simp: mapE_Inr)

lemma sort_key_Nil_iff [simp]: "sort_key f xs = [] \<longleftrightarrow> xs = []"
  by (metis length_0_conv length_sort)

lemma append_delim_eq:
  "c \<notin> set xs \<Longrightarrow> c \<notin> set ys \<Longrightarrow> xs @ c # s = ys @ c # t \<longleftrightarrow> xs = ys \<and> s = t"
  by (induction xs ys rule: list_induct2') (auto simp: Cons_eq_append_conv)


section \<open>Validators\<close>

text \<open>The contract of every model validator of the program: what it accepts is well-formed, and it
  leaves a well-formed value alone, so validating twice is validating once.\<close>

locale validator =
  fixes check :: "'a \<Rightarrow> 'a res" and ok :: "'a \<Rightarrow> bool"
  assumes sound: "check x = Inr y \<Longrightarrow> ok y"
    and stable: "ok x \<Longrightarrow> check x = Inr x"
begin

lemma fixpoint: "check x = Inr y \<Longrightarrow> check y = Inr y"
  by (rule stable) (rule sound)

lemma ok_iff: "ok x \<longleftrightarrow> check x = Inr x"
  using sound stable by blast

lemma list_sound: "mapE check xs = Inr ys \<Longrightarrow> list_all ok ys"
  by (drule mapE_all [where P = ok]) (auto simp: list_all_iff intro: sound)

lemma list_stable: "list_all ok xs \<Longrightarrow> mapE check xs = Inr xs"
  by (simp add: mapE_fixpoint list_all_iff stable)

lemma option_sound: "optE check v = Inr w \<Longrightarrow> pred_option ok w"
  by (auto simp: optE_Inr pred_option_def split: option.splits intro: sound)

lemma option_stable: "pred_option ok v \<Longrightarrow> optE check v = Inr v"
  by (cases v) (simp_all add: stable)

end

end
