(* ===== verification/Identity.thy ===== *)
theory Identity
  imports Prelude
begin

text \<open>
  Canonical identities (\<open>core/identity.py\<close>): every value is written as a frame of a one-byte
  type tag, an eight-byte length and the payload, containers hold their framed elements, and a
  digest is SHA-256 of the framed domain and value. A Pydantic model or a dataclass enters as the
  \<open>PDict\<close> of its dumped fields, which is what \<open>_encode\<close> recurses on. SHA-256 is a parameter
  \<open>sha\<close> of every digest. The main results: frames are prefix-free, and two values have the
  same bytes exactly when they agree up to the order of dict entries and set elements.

  The \<open>OverflowError\<close> of \<open>to_bytes(8)\<close> needs a payload of \<open>2^64\<close> bytes, more than
  CPython's \<open>len\<close> can return; the injectivity results carry that bound as a hypothesis.
  HOL values are finite trees, so the cycle check never fires.
\<close>

section \<open>Values\<close>

text \<open>A Python float is an IEEE 754 double: sign, biased exponent, fraction.\<close>

datatype pyfloat = PyFloat (flt_sign: bool) (flt_exp: "11 word") (flt_frac: "52 word")

definition is_nan :: "pyfloat \<Rightarrow> bool" where
  "is_nan f \<longleftrightarrow> flt_exp f = 2047 \<and> flt_frac f \<noteq> 0"

text \<open>The value of a finite float as a rational.\<close>

definition float_value :: "pyfloat \<Rightarrow> rat" where
  "float_value f =
     (if flt_sign f then - 1 else 1) *
     (if flt_exp f = 0 then of_nat (unat (flt_frac f)) / 2 ^ 1074
      else (2 ^ 52 + of_nat (unat (flt_frac f))) * 2 ^ unat (flt_exp f) / 2 ^ 1075)"

text \<open>Comparison: magnitudes of doubles are ordered as the integers made of their exponent and
  fraction bits, infinity included, and a comparison with NaN is false.\<close>

definition float_key :: "pyfloat \<Rightarrow> int" where
  "float_key f = (if flt_sign f then - 1 else 1) * (uint (flt_exp f) * 2 ^ 52 + uint (flt_frac f))"

definition float_le :: "pyfloat \<Rightarrow> pyfloat \<Rightarrow> bool" where
  "float_le a b \<longleftrightarrow> \<not> is_nan a \<and> \<not> is_nan b \<and> float_key a \<le> float_key b"

definition float_lt :: "pyfloat \<Rightarrow> pyfloat \<Rightarrow> bool" where
  "float_lt a b \<longleftrightarrow> \<not> is_nan a \<and> \<not> is_nan b \<and> float_key a < float_key b"

abbreviation float_zero :: pyfloat where
  "float_zero \<equiv> PyFloat False 0 0"

datatype pyval =
    PNone
  | PEnum string pyval
  | PBool bool
  | PInt int
  | PFloat pyfloat
  | PStr string
  | PBytes string
  | PPath string
  | PDict "(pyval \<times> pyval) list"
  | PList "pyval list"
  | PTuple "pyval list"
  | PSet "pyval list"
  | PFrozenSet "pyval list"

section \<open>Encoding\<close>

definition be_bytes :: "nat \<Rightarrow> nat \<Rightarrow> string" where
  "be_bytes k n = map (\<lambda>i. char_of (n div 256 ^ i mod 256)) (rev [0..<k])"

definition hex_char :: "nat \<Rightarrow> char" where
  "hex_char d = (if d < 10 then char_of (48 + d) else char_of (87 + d))"

definition hex_digits :: "nat \<Rightarrow> nat \<Rightarrow> string" where
  "hex_digits k n = map (\<lambda>i. hex_char (n div 16 ^ i mod 16)) (rev [0..<k])"

text \<open>\<open>float.hex\<close>, with the code's own text for NaN.\<close>

definition float_text :: "pyfloat \<Rightarrow> string" where
  "float_text f =
     (if is_nan f then ''nan''
      else (if flt_sign f then ''-'' else '''') @
        (if flt_exp f = 2047 then ''inf''
         else if flt_exp f = 0 then
           (if flt_frac f = 0 then ''0x0.0p+0''
            else ''0x0.'' @ hex_digits 13 (unat (flt_frac f)) @ ''p-1022'')
         else ''0x1.'' @ hex_digits 13 (unat (flt_frac f)) @ ''p'' @
           (if unat (flt_exp f) < 1023 then ''-'' @ show_nat (1023 - unat (flt_exp f))
            else ''+'' @ show_nat (unat (flt_exp f) - 1023))))"

definition frame :: "char \<Rightarrow> string \<Rightarrow> string" where
  "frame tag payload = tag # be_bytes 8 (length payload) @ payload"

definition encode_sequence :: "char \<Rightarrow> string list \<Rightarrow> string" where
  "encode_sequence tag items = frame tag (be_bytes 8 (length items) @ concat items)"

fun encode :: "pyval \<Rightarrow> string" where
  "encode PNone = frame (CHR ''n'') []"
| "encode (PEnum cls v) = frame (CHR ''e'') (frame (CHR ''c'') cls @ encode v)"
| "encode (PBool b) = frame (CHR ''b'') (if b then ''1'' else ''0'')"
| "encode (PInt i) = frame (CHR ''i'') (show_int i)"
| "encode (PFloat f) = frame (CHR ''f'') (float_text f)"
| "encode (PStr s) = frame (CHR ''s'') s"
| "encode (PBytes s) = frame (CHR ''y'') s"
| "encode (PPath s) = frame (CHR ''p'') s"
| "encode (PDict es) =
     encode_sequence (CHR ''m'')
       (map (\<lambda>kv. fst kv @ snd kv) (sort (map (\<lambda>(k, v). (encode k, encode v)) es)))"
| "encode (PList vs) = encode_sequence (CHR ''l'') (map encode vs)"
| "encode (PTuple vs) = encode_sequence (CHR ''t'') (map encode vs)"
| "encode (PSet vs) = encode_sequence (CHR ''u'') (sort (map encode vs))"
| "encode (PFrozenSet vs) = encode_sequence (CHR ''r'') (sort (map encode vs))"

definition format_prefix :: string where
  "format_prefix = ''agintor.identity.v1'' @ [char_of (0 :: nat)]"

definition canonical_identity_bytes :: "pyval \<Rightarrow> string" where
  "canonical_identity_bytes v = format_prefix @ encode v"

section \<open>Digests\<close>

type_synonym sha256 = "string \<Rightarrow> 256 word"

definition hexdigest :: "256 word \<Rightarrow> string" where
  "hexdigest w = hex_digits 64 (unat w)"

definition domain_payload :: "string \<Rightarrow> pyval \<Rightarrow> string" where
  "domain_payload dmn v = format_prefix @ frame (CHR ''D'') dmn @ encode v"

definition identity_digest :: "sha256 \<Rightarrow> string \<Rightarrow> pyval \<Rightarrow> string" where
  "identity_digest sha dmn v = hexdigest (sha (domain_payload dmn v))"

definition canonical_identity_digest :: "sha256 \<Rightarrow> pyval \<Rightarrow> string \<Rightarrow> string res" where
  "canonical_identity_digest sha v dmn =
     (let normalized = py_strip dmn
      in if normalized = [] then Inl (ValueError ''canonical identity domain may not be empty'')
         else Inr (identity_digest sha normalized v))"

definition task_digest :: "sha256 \<Rightarrow> pyval \<Rightarrow> string" where
  "task_digest sha v = identity_digest sha ''task'' v"

definition protocol_digest :: "sha256 \<Rightarrow> pyval \<Rightarrow> string" where
  "protocol_digest sha v = identity_digest sha ''protocol'' v"

definition composite_plan_digest :: "sha256 \<Rightarrow> pyval \<Rightarrow> string" where
  "composite_plan_digest sha v = identity_digest sha ''composite-plan'' v"

definition environment_digest :: "sha256 \<Rightarrow> pyval \<Rightarrow> string" where
  "environment_digest sha v = identity_digest sha ''environment'' v"

definition provider_config_digest :: "sha256 \<Rightarrow> pyval \<Rightarrow> string" where
  "provider_config_digest sha v = identity_digest sha ''provider-config'' v"

definition transaction_digest :: "sha256 \<Rightarrow> pyval \<Rightarrow> string" where
  "transaction_digest sha v = identity_digest sha ''transaction'' v"

definition evidence_digest :: "sha256 \<Rightarrow> pyval \<Rightarrow> string" where
  "evidence_digest sha v = identity_digest sha ''evidence'' v"


section \<open>Positional digits determine the number\<close>

lemma digits_inject:
  fixes b :: nat
  assumes "0 < b" and "n < b ^ k" and "m < b ^ k"
    and "\<And>i. i < k \<Longrightarrow> n div b ^ i mod b = m div b ^ i mod b"
  shows "n = m"
  using assms(2-4)
proof (induction k arbitrary: n m)
  case 0
  then show ?case by simp
next
  case (Suc k)
  have low: "n mod b = m mod b" using Suc.prems(3) [of 0] by simp
  have "n div b = m div b"
  proof (rule Suc.IH)
    show "n div b < b ^ k" "m div b < b ^ k"
      using Suc.prems(1,2) \<open>0 < b\<close> by (simp_all add: less_mult_imp_div_less mult.commute)
    show "n div b div b ^ i mod b = m div b div b ^ i mod b" if "i < k" for i
      using Suc.prems(3) [of "Suc i"] that by (simp add: div_mult2_eq)
  qed
  with low show ?case by (metis div_mult_mod_eq)
qed

lemma length_be_bytes [simp]: "length (be_bytes k n) = k"
  by (simp add: be_bytes_def)

lemma length_hex_digits [simp]: "length (hex_digits k n) = k"
  by (simp add: hex_digits_def)

lemma be_bytes_inject:
  assumes "n < 256 ^ k" and "m < 256 ^ k" and "be_bytes k n = be_bytes k m"
  shows "n = m"
proof (rule digits_inject [OF _ assms(1,2)])
  fix i assume "i < k"
  with assms(3) have "char_of (n div 256 ^ i mod 256) = (char_of (m div 256 ^ i mod 256) :: char)"
    by (simp add: be_bytes_def)
  then have "(of_char (char_of (n div 256 ^ i mod 256)) :: nat) = of_char (char_of (m div 256 ^ i mod 256))"
    by simp
  then show "n div 256 ^ i mod 256 = m div 256 ^ i mod 256"
    by simp
qed simp

definition hex_value :: "char \<Rightarrow> nat" where
  "hex_value c = (if is_digit c then of_char c - 48 else of_char c - 87)"

lemma hex_value_char [simp]: "d < 16 \<Longrightarrow> hex_value (hex_char d) = d"
  by (simp add: hex_value_def hex_char_def is_digit_def Let_def)

lemma hex_digits_inject:
  assumes "n < 16 ^ k" and "m < 16 ^ k" and "hex_digits k n = hex_digits k m"
  shows "n = m"
proof (rule digits_inject [OF _ assms(1,2)])
  fix i assume "i < k"
  with assms(3) have "hex_char (n div 16 ^ i mod 16) = hex_char (m div 16 ^ i mod 16)"
    by (simp add: hex_digits_def)
  then have "hex_value (hex_char (n div 16 ^ i mod 16)) = hex_value (hex_char (m div 16 ^ i mod 16))"
    by simp
  then show "n div 16 ^ i mod 16 = m div 16 ^ i mod 16" by simp
qed simp

definition is_hex_char :: "char \<Rightarrow> bool" where
  "is_hex_char c \<longleftrightarrow> is_digit c \<or> (let n = (of_char c :: nat) in 97 \<le> n \<and> n \<le> 102)"

lemma hex_char_is_hex: "d < 16 \<Longrightarrow> is_hex_char (hex_char d)"
  by (auto simp: is_hex_char_def hex_char_def is_digit_def Let_def)

lemma hex_digits_are_hex: "c \<in> set (hex_digits k n) \<Longrightarrow> is_hex_char c"
  by (auto simp: hex_digits_def intro: hex_char_is_hex)

lemma hexdigest_inject [simp]: "hexdigest a = hexdigest b \<longleftrightarrow> a = b"
proof
  assume "hexdigest a = hexdigest b"
  moreover have "unat a < 16 ^ 64" "unat b < 16 ^ 64"
    using unsigned_less [of a, where ?'a = nat] unsigned_less [of b, where ?'a = nat] by simp_all
  ultimately have "unat a = unat b"
    using hex_digits_inject [of "unat a" 64 "unat b"] by (simp add: hexdigest_def)
  then show "a = b" by (simp add: word_unat_eq_iff)
qed simp

section \<open>Frames are prefix-free\<close>

lemma frame_prefix:
  assumes "length p < 2 ^ 64" and "length q < 2 ^ 64"
  shows "frame t p @ r = frame u q @ s \<longleftrightarrow> t = u \<and> p = q \<and> r = s"
proof
  assume eq: "frame t p @ r = frame u q @ s"
  then have "be_bytes 8 (length p) @ (p @ r) = be_bytes 8 (length q) @ (q @ s)" and t: "t = u"
    by (simp_all add: frame_def)
  then have len: "be_bytes 8 (length p) = be_bytes 8 (length q)" and rest: "p @ r = q @ s"
    by (simp_all add: append_eq_append_conv)
  have "length p = length q"
    using be_bytes_inject [OF _ _ len] assms by simp
  with rest t show "t = u \<and> p = q \<and> r = s" by simp
qed simp

lemma length_frame [simp]: "length (frame t p) = 9 + length p"
  by (simp add: frame_def)

lemma frame_inject [simp]: "frame t p = frame u q \<longleftrightarrow> t = u \<and> p = q"
  by (auto simp: frame_def append_eq_append_conv)

text \<open>A list of frames is recovered from its concatenation.\<close>

definition framed :: "string \<Rightarrow> bool" where
  "framed s \<longleftrightarrow> (\<exists>t p. s = frame t p \<and> length p < 2 ^ 64)"

lemma framed_prefix: "framed x \<Longrightarrow> framed y \<Longrightarrow> x @ r = y @ s \<longleftrightarrow> x = y \<and> r = s"
  by (auto simp: framed_def frame_prefix)

lemma framed_nonempty: "framed x \<Longrightarrow> x \<noteq> []"
  by (auto simp: framed_def frame_def)

lemma concat_framed_inject:
  assumes "list_all framed xs" and "list_all framed ys" and "concat xs = concat ys"
  shows "xs = ys"
  using assms
proof (induction xs ys rule: list_induct2')
  case (4 x xs y ys)
  from "4.prems" have "x @ concat xs = y @ concat ys" and f: "framed x" "framed y" by simp_all
  then have "x = y" and "concat xs = concat ys" using framed_prefix [OF f] by blast+
  with "4.IH" "4.prems" show ?case by simp
qed (auto dest: framed_nonempty)

lemma concat_pairs_inject:
  assumes "list_all (\<lambda>kv. framed (fst kv) \<and> framed (snd kv)) xs"
    and "list_all (\<lambda>kv. framed (fst kv) \<and> framed (snd kv)) ys"
    and "concat (map (\<lambda>kv. fst kv @ snd kv) xs) = concat (map (\<lambda>kv. fst kv @ snd kv) ys)"
  shows "xs = ys"
  using assms
proof (induction xs ys rule: list_induct2')
  case (4 x xs y ys)
  let ?c = "\<lambda>zs. concat (map (\<lambda>kv. fst kv @ snd kv) zs)"
  from "4.prems" have e: "fst x @ (snd x @ ?c xs) = fst y @ (snd y @ ?c ys)"
    and f: "framed (fst x)" "framed (fst y)" "framed (snd x)" "framed (snd y)" by simp_all
  from e have "fst x = fst y" and "snd x @ ?c xs = snd y @ ?c ys"
    using framed_prefix [OF f(1,2)] by blast+
  moreover from this(2) have "snd x = snd y" and "?c xs = ?c ys"
    using framed_prefix [OF f(3,4)] by blast+
  ultimately show ?case using "4.IH" "4.prems" by (simp add: prod_eq_iff)
qed (auto dest: framed_nonempty)

lemma sort_eq_mset: "sort xs = sort ys \<longleftrightarrow> mset xs = mset ys"
  by (metis mset_sort properties_for_sort sorted_sort)


lemma sort_sort: "sort (sort xs) = sort xs"
  by (simp add: sorted_sort_id)

lemma map_sort_key: "map f (sort_key f xs) = sort (map f xs)"
  by (rule properties_for_sort [symmetric]) simp_all

lemma sort_key_eqI:
  assumes "sort (map f xs) = sort (map f ys)"
    and "\<And>a b. a \<in> set xs \<Longrightarrow> b \<in> set ys \<Longrightarrow> f a = f b \<Longrightarrow> a = b"
  shows "sort_key f xs = sort_key f ys"
proof (rule nth_equalityI)
  from assms(1) have eq: "map f (sort_key f xs) = map f (sort_key f ys)" by (simp add: map_sort_key)
  then show len: "length (sort_key f xs) = length (sort_key f ys)" by (rule map_eq_imp_length_eq)
  fix i assume i: "i < length (sort_key f xs)"
  with eq len have "f (sort_key f xs ! i) = f (sort_key f ys ! i)" by (metis nth_map)
  moreover have "sort_key f xs ! i \<in> set xs" "sort_key f ys ! i \<in> set ys"
    using i len nth_mem [of i "sort_key f xs"] nth_mem [of i "sort_key f ys"] by simp_all
  ultimately show "sort_key f xs ! i = sort_key f ys ! i" by (rule assms(2) [rotated 2])
qed

section \<open>Canonical forms\<close>

text \<open>What the bytes keep of a value: dict entries and set elements in the order of their
  encodings, one NaN.\<close>

abbreviation encode_entry :: "pyval \<times> pyval \<Rightarrow> string \<times> string" where
  "encode_entry \<equiv> (\<lambda>(k, v). (encode k, encode v))"

fun canon :: "pyval \<Rightarrow> pyval" where
  "canon (PEnum cls v) = PEnum cls (canon v)"
| "canon (PFloat f) = PFloat (if is_nan f then PyFloat False 2047 1 else f)"
| "canon (PDict es) = PDict (sort_key encode_entry (map (\<lambda>(k, v). (canon k, canon v)) es))"
| "canon (PList vs) = PList (map canon vs)"
| "canon (PTuple vs) = PTuple (map canon vs)"
| "canon (PSet vs) = PSet (sort_key encode (map canon vs))"
| "canon (PFrozenSet vs) = PFrozenSet (sort_key encode (map canon vs))"
| "canon v = v"

lemma nan_is_nan [simp]: "is_nan (PyFloat False 2047 1)"
  by (simp add: is_nan_def)

lemma float_text_nan: "is_nan f \<Longrightarrow> float_text f = ''nan''"
  by (simp add: float_text_def)

lemma encode_canon [simp]: "encode (canon v) = encode v"
proof (induction v rule: canon.induct)
  case (3 es)
  then have "map (encode_entry \<circ> (\<lambda>(k, v). (canon k, canon v))) es = map encode_entry es"
    by (auto simp: map_eq_conv)
  then show ?case by (simp only: canon.simps encode.simps map_sort_key map_map sort_sort)
next
  case (6 vs)
  then have "map (encode \<circ> canon) vs = map encode vs" by (auto simp: map_eq_conv)
  then show ?case by (simp only: canon.simps encode.simps map_sort_key map_map sort_sort)
next
  case (7 vs)
  then have "map (encode \<circ> canon) vs = map encode vs" by (auto simp: map_eq_conv)
  then show ?case by (simp only: canon.simps encode.simps map_sort_key map_map sort_sort)
qed (auto simp: float_text_nan comp_def cong: map_cong)

fun tag_of :: "pyval \<Rightarrow> char" where
  "tag_of PNone = CHR ''n''"
| "tag_of (PEnum _ _) = CHR ''e''"
| "tag_of (PBool _) = CHR ''b''"
| "tag_of (PInt _) = CHR ''i''"
| "tag_of (PFloat _) = CHR ''f''"
| "tag_of (PStr _) = CHR ''s''"
| "tag_of (PBytes _) = CHR ''y''"
| "tag_of (PPath _) = CHR ''p''"
| "tag_of (PDict _) = CHR ''m''"
| "tag_of (PList _) = CHR ''l''"
| "tag_of (PTuple _) = CHR ''t''"
| "tag_of (PSet _) = CHR ''u''"
| "tag_of (PFrozenSet _) = CHR ''r''"

lemma hd_encode: "hd (encode v) = tag_of v"
  by (cases v) (simp_all add: frame_def encode_sequence_def)

lemma tag_eq: "encode v = encode w \<Longrightarrow> tag_of w = tag_of v"
  by (metis hd_encode)

lemma framed_encode: "length (encode v) < 2 ^ 64 \<Longrightarrow> framed (encode v)"
proof -
  assume len: "length (encode v) < 2 ^ 64"
  have "\<exists>t p. encode v = frame t p"
    by (cases v) (auto simp: encode_sequence_def)
  then obtain t p where "encode v = frame t p" by blast
  with len show ?thesis unfolding framed_def by force
qed

lemma length_concat_mem: "x \<in> set xs \<Longrightarrow> length x \<le> length (concat xs)"
  by (induction xs) auto

lemma encode_sequence_inject:
  "encode_sequence t xs = encode_sequence u ys \<Longrightarrow> list_all framed xs \<Longrightarrow> list_all framed ys \<Longrightarrow> xs = ys"
  using concat_framed_inject [of xs ys] by (auto simp: encode_sequence_def append_eq_append_conv)

lemma encode_pairs_inject:
  assumes "encode_sequence t (map (\<lambda>kv. fst kv @ snd kv) xs) = encode_sequence u (map (\<lambda>kv. fst kv @ snd kv) ys)"
    and "list_all (\<lambda>kv. framed (fst kv) \<and> framed (snd kv)) xs"
    and "list_all (\<lambda>kv. framed (fst kv) \<and> framed (snd kv)) ys"
  shows "xs = ys"
  using assms concat_pairs_inject [OF assms(2,3)]
  by (auto simp: encode_sequence_def append_eq_append_conv)

text \<open>Elements of a container of bounded size are framed.\<close>

lemma length_encode_sequence [simp]:
  "length (encode_sequence t xs) = 17 + length (concat xs)"
  by (simp add: encode_sequence_def)

lemma elements_framed:
  assumes "set xs = encode ` set vs" and "length (encode_sequence t xs) < 2 ^ 64"
  shows "list_all framed xs" and "\<And>v. v \<in> set vs \<Longrightarrow> length (encode v) < 2 ^ 64"
proof -
  show len: "length (encode v) < 2 ^ 64" if "v \<in> set vs" for v
  proof -
    from that assms(1) have "encode v \<in> set xs" by simp
    then have "length (encode v) \<le> length (concat xs)" by (rule length_concat_mem)
    with assms(2) show ?thesis by simp
  qed
  show "list_all framed xs"
    using assms(1) len by (auto simp: list_all_iff intro: framed_encode)
qed

text \<open>Constructors are told apart by their tags.\<close>

lemma tag_cases:
  "tag_of w = CHR ''n'' \<longleftrightarrow> w = PNone"
  "tag_of w = CHR ''e'' \<longleftrightarrow> (\<exists>c v. w = PEnum c v)"
  "tag_of w = CHR ''b'' \<longleftrightarrow> (\<exists>b. w = PBool b)"
  "tag_of w = CHR ''i'' \<longleftrightarrow> (\<exists>i. w = PInt i)"
  "tag_of w = CHR ''f'' \<longleftrightarrow> (\<exists>f. w = PFloat f)"
  "tag_of w = CHR ''s'' \<longleftrightarrow> (\<exists>s. w = PStr s)"
  "tag_of w = CHR ''y'' \<longleftrightarrow> (\<exists>s. w = PBytes s)"
  "tag_of w = CHR ''p'' \<longleftrightarrow> (\<exists>s. w = PPath s)"
  "tag_of w = CHR ''m'' \<longleftrightarrow> (\<exists>es. w = PDict es)"
  "tag_of w = CHR ''l'' \<longleftrightarrow> (\<exists>vs. w = PList vs)"
  "tag_of w = CHR ''t'' \<longleftrightarrow> (\<exists>vs. w = PTuple vs)"
  "tag_of w = CHR ''u'' \<longleftrightarrow> (\<exists>vs. w = PSet vs)"
  "tag_of w = CHR ''r'' \<longleftrightarrow> (\<exists>vs. w = PFrozenSet vs)"
  by (cases w; simp)+

section \<open>Float texts\<close>

lemma float_frac_inject:
  "hex_digits 13 (unat (a :: 52 word)) = hex_digits 13 (unat (b :: 52 word)) \<longleftrightarrow> a = b"
proof
  assume "hex_digits 13 (unat a) = hex_digits 13 (unat b)"
  moreover have "unat a < 16 ^ 13" "unat b < 16 ^ 13"
    using unsigned_less [of a, where ?'a = nat] unsigned_less [of b, where ?'a = nat] by simp_all
  ultimately have "unat a = unat b" using hex_digits_inject [of "unat a" 13 "unat b"] by blast
  then show "a = b" by (simp add: word_unat_eq_iff)
qed simp

text \<open>The text of a float without its sign.\<close>

definition float_body :: "pyfloat \<Rightarrow> string" where
  "float_body f =
     (if flt_exp f = 2047 then ''inf''
      else if flt_exp f = 0 then
        (if flt_frac f = 0 then ''0x0.0p+0''
         else ''0x0.'' @ hex_digits 13 (unat (flt_frac f)) @ ''p-1022'')
      else ''0x1.'' @ hex_digits 13 (unat (flt_frac f)) @ ''p'' @
        (if unat (flt_exp f) < 1023 then ''-'' @ show_nat (1023 - unat (flt_exp f))
         else ''+'' @ show_nat (unat (flt_exp f) - 1023)))"

lemma float_text_body:
  "\<not> is_nan f \<Longrightarrow> float_text f = (if flt_sign f then ''-'' else '''') @ float_body f"
  by (simp add: float_text_def float_body_def)

lemma hd_float_body: "\<exists>c s. float_body f = c # s \<and> c \<in> {CHR ''i'', CHR ''0''}"
  by (auto simp: float_body_def)

lemma hex_digits_app: "hex_digits k n @ s = hex_digits k m @ t \<longleftrightarrow> hex_digits k n = hex_digits k m \<and> s = t"
  by (simp add: append_eq_append_conv)

lemma float_body_inject:
  assumes "\<not> is_nan f" and "\<not> is_nan g" and eq: "float_body f = float_body g"
  shows "flt_exp f = flt_exp g \<and> flt_frac f = flt_frac g"
proof (cases "flt_exp f = 2047 \<or> flt_exp g = 2047")
  case True
  with assms show ?thesis by (auto simp: float_body_def is_nan_def split: if_splits)
next
  case inf: False
  have short: "''0p+0'' \<noteq> hex_digits 13 n @ s" for n s
    by (auto dest: arg_cong [where f = length])
  show ?thesis
  proof (cases "flt_exp f = 0 \<or> flt_exp g = 0")
    case True
    with inf eq show ?thesis
      by (auto simp: float_body_def float_frac_inject hex_digits_app short short [symmetric]
          split: if_splits)
  next
    case False
    with inf eq have frac: "flt_frac f = flt_frac g"
      and e: "(if unat (flt_exp f) < 1023 then ''-'' @ show_nat (1023 - unat (flt_exp f))
           else ''+'' @ show_nat (unat (flt_exp f) - 1023)) =
         (if unat (flt_exp g) < 1023 then ''-'' @ show_nat (1023 - unat (flt_exp g))
           else ''+'' @ show_nat (unat (flt_exp g) - 1023))"
      by (simp_all add: float_body_def hex_digits_app float_frac_inject)
    from e have "unat (flt_exp f) = unat (flt_exp g)" by (auto split: if_splits)
    with frac show ?thesis by (simp add: word_unat_eq_iff)
  qed
qed

lemma float_text_inject:
  assumes "\<not> is_nan f" and "\<not> is_nan g" and "float_text f = float_text g"
  shows "f = g"
proof -
  obtain c s d t where "float_body f = c # s" "float_body g = d # t"
    "c \<in> {CHR ''i'', CHR ''0''}" "d \<in> {CHR ''i'', CHR ''0''}"
    using hd_float_body [of f] hd_float_body [of g] by blast
  with assms have "flt_sign f = flt_sign g \<and> float_body f = float_body g"
    by (auto simp: float_text_body split: if_splits)
  with float_body_inject [OF assms(1,2)] show ?thesis by (cases f; cases g) simp
qed

lemma float_text_nan_iff: "float_text f = ''nan'' \<longleftrightarrow> is_nan f"
proof
  assume eq: "float_text f = ''nan''"
  show "is_nan f"
  proof (rule ccontr)
    assume "\<not> is_nan f"
    with eq hd_float_body [of f] show False
      by (auto simp: float_text_body split: if_splits)
  qed
qed (rule float_text_nan)

section \<open>Equal bytes, equal values\<close>

lemma entries_framed:
  assumes "length (encode (PDict es)) < 2 ^ 64"
  shows "list_all (\<lambda>kv. framed (fst kv) \<and> framed (snd kv)) (sort (map encode_entry es))"
    and "\<And>k v. (k, v) \<in> set es \<Longrightarrow> length (encode k) < 2 ^ 64 \<and> length (encode v) < 2 ^ 64"
proof -
  let ?ps = "sort (map encode_entry es)"
  show len: "length (encode k) < 2 ^ 64 \<and> length (encode v) < 2 ^ 64" if "(k, v) \<in> set es" for k v
  proof -
    have "encode k @ encode v \<in> set (map (\<lambda>kv. fst kv @ snd kv) ?ps)"
      using that by force
    then have "length (encode k @ encode v) \<le> length (concat (map (\<lambda>kv. fst kv @ snd kv) ?ps))"
      by (rule length_concat_mem)
    with assms show ?thesis by simp
  qed
  show "list_all (\<lambda>kv. framed (fst kv) \<and> framed (snd kv)) ?ps"
    using len by (force simp: list_all_iff intro: framed_encode)
qed

text \<open>The three container shapes: same element list, same element multiset, same entry multiset.\<close>

lemma encode_items_inject:
  assumes "encode_sequence t (map encode vs) = encode_sequence u (map encode ws)"
    and "length (encode_sequence t (map encode vs)) < 2 ^ 64"
    and "length (encode_sequence u (map encode ws)) < 2 ^ 64"
  shows "map encode vs = map encode ws"
  using assms elements_framed(1) [of "map encode vs" vs t] elements_framed(1) [of "map encode ws" ws u]
  by (auto intro: encode_sequence_inject)

lemma encode_sorted_inject:
  assumes "encode_sequence t (sort (map encode vs)) = encode_sequence u (sort (map encode ws))"
    and "length (encode_sequence t (sort (map encode vs))) < 2 ^ 64"
    and "length (encode_sequence u (sort (map encode ws))) < 2 ^ 64"
  shows "sort (map encode vs) = sort (map encode ws)"
  using assms elements_framed(1) [of "sort (map encode vs)" vs t]
    elements_framed(1) [of "sort (map encode ws)" ws u]
  by (auto intro: encode_sequence_inject)

lemma encode_dict_inject:
  assumes "encode (PDict es) = encode (PDict fs)"
    and "length (encode (PDict es)) < 2 ^ 64" and "length (encode (PDict fs)) < 2 ^ 64"
  shows "sort (map encode_entry es) = sort (map encode_entry fs)"
  using assms(1) entries_framed(1) [OF assms(2)] entries_framed(1) [OF assms(3)]
  by (auto intro: encode_pairs_inject)

lemma canon_items:
  assumes "map encode vs = map encode ws"
    and "\<And>v w. v \<in> set vs \<Longrightarrow> w \<in> set ws \<Longrightarrow> encode v = encode w \<Longrightarrow> canon v = canon w"
  shows "map canon vs = map canon ws"
  using assms by (induction vs ws rule: list_induct2') auto

lemma canon_sorted:
  assumes "sort (map encode vs) = sort (map encode ws)"
    and "\<And>v w. v \<in> set vs \<Longrightarrow> w \<in> set ws \<Longrightarrow> encode v = encode w \<Longrightarrow> canon v = canon w"
  shows "sort_key encode (map canon vs) = sort_key encode (map canon ws)"
proof (rule sort_key_eqI)
  show "sort (map encode (map canon vs)) = sort (map encode (map canon ws))"
    using assms(1) by (simp add: comp_def)
qed (use assms(2) in auto)

lemma canon_entries:
  assumes "sort (map encode_entry es) = sort (map encode_entry fs)"
    and "\<And>k v l w. (k, v) \<in> set es \<Longrightarrow> (l, w) \<in> set fs \<Longrightarrow> encode k = encode l \<Longrightarrow> encode v = encode w \<Longrightarrow>
      canon k = canon l \<and> canon v = canon w"
  shows "canon (PDict es) = canon (PDict fs)"
proof -
  have c: "map encode_entry (map (\<lambda>(k, v). (canon k, canon v)) gs) = map encode_entry gs" for gs
    by (auto simp: map_eq_conv)
  have "sort_key encode_entry (map (\<lambda>(k, v). (canon k, canon v)) es) =
      sort_key encode_entry (map (\<lambda>(k, v). (canon k, canon v)) fs)"
  proof (rule sort_key_eqI)
    show "sort (map encode_entry (map (\<lambda>(k, v). (canon k, canon v)) es)) =
        sort (map encode_entry (map (\<lambda>(k, v). (canon k, canon v)) fs))"
      using assms(1) by (simp only: c)
  qed (use assms(2) in auto)
  then show ?thesis by simp
qed

lemma encode_eq_canon:
  assumes "encode v = encode w" and "length (encode v) < 2 ^ 64" and "length (encode w) < 2 ^ 64"
  shows "canon v = canon w"
  using assms
proof (induction v arbitrary: w rule: encode.induct)
  case (9 es)
  obtain fs where w: "w = PDict fs"
    using tag_eq [OF "9.prems"(1)] by (auto simp: tag_cases)
  note len = entries_framed(2) [OF "9.prems"(2)] entries_framed(2) [OF "9.prems"(3) [unfolded w]]
  show ?case unfolding w
  proof (rule canon_entries)
    show "sort (map encode_entry es) = sort (map encode_entry fs)"
      using encode_dict_inject "9.prems" unfolding w by blast
    show "canon k = canon l \<and> canon x = canon y"
      if "(k, x) \<in> set es" "(l, y) \<in> set fs" "encode k = encode l" "encode x = encode y" for k x l y
      using "9.IH" [OF that(1) refl] that len by blast
  qed
next
  case (10 vs)
  obtain ws where w: "w = PList ws"
    using tag_eq [OF "10.prems"(1)] by (auto simp: tag_cases)
  with "10.prems" have "map encode vs = map encode ws"
    by (auto intro: encode_items_inject)
  then have "map canon vs = map canon ws"
    using "10.prems" w elements_framed(2) [of "map encode vs" vs] elements_framed(2) [of "map encode ws" ws]
    by (auto intro!: canon_items "10.IH")
  with w show ?case by simp
next
  case (11 vs)
  obtain ws where w: "w = PTuple ws"
    using tag_eq [OF "11.prems"(1)] by (auto simp: tag_cases)
  with "11.prems" have "map encode vs = map encode ws"
    by (auto intro: encode_items_inject)
  then have "map canon vs = map canon ws"
    using "11.prems" w elements_framed(2) [of "map encode vs" vs] elements_framed(2) [of "map encode ws" ws]
    by (auto intro!: canon_items "11.IH")
  with w show ?case by simp
next
  case (12 vs)
  obtain ws where w: "w = PSet ws"
    using tag_eq [OF "12.prems"(1)] by (auto simp: tag_cases)
  with "12.prems" have "sort (map encode vs) = sort (map encode ws)"
    by (auto intro: encode_sorted_inject)
  then show ?case
    using "12.prems" w elements_framed(2) [of "sort (map encode vs)" vs]
      elements_framed(2) [of "sort (map encode ws)" ws]
    by (auto intro!: canon_sorted "12.IH")
next
  case (13 vs)
  obtain ws where w: "w = PFrozenSet ws"
    using tag_eq [OF "13.prems"(1)] by (auto simp: tag_cases)
  with "13.prems" have "sort (map encode vs) = sort (map encode ws)"
    by (auto intro: encode_sorted_inject)
  then show ?case
    using "13.prems" w elements_framed(2) [of "sort (map encode vs)" vs]
      elements_framed(2) [of "sort (map encode ws)" ws]
    by (auto intro!: canon_sorted "13.IH")
next
  case (2 cls v)
  obtain c x where w: "w = PEnum c x"
    using tag_eq [OF "2.prems"(1)] by (auto simp: tag_cases)
  with "2.prems" have "frame (CHR ''c'') cls @ encode v = frame (CHR ''c'') c @ encode x" by simp
  moreover have "length cls < 2 ^ 64" using "2.prems"(2) by simp
  moreover have "length c < 2 ^ 64" using "2.prems"(3) w by simp
  ultimately have "cls = c" and "encode v = encode x" using frame_prefix by blast+
  with "2.prems" w show ?case by (auto intro!: "2.IH")
next
  case (5 f)
  obtain g where w: "w = PFloat g"
    using tag_eq [OF "5.prems"(1)] by (auto simp: tag_cases)
  with "5.prems" have t: "float_text f = float_text g" by simp
  then have "is_nan f \<longleftrightarrow> is_nan g" using float_text_nan_iff by metis
  moreover have "f = g" if "\<not> is_nan f" "\<not> is_nan g" using that t by (rule float_text_inject)
  ultimately show ?case unfolding w by (cases "is_nan f") simp_all
next
  case 1
  have "w = PNone" using tag_eq [OF "1.prems"(1)] by (simp add: tag_cases)
  then show ?case by simp
next
  case (3 b)
  then obtain x where "w = PBool x" using tag_eq [OF "3.prems"(1)] by (auto simp: tag_cases)
  with "3.prems"(1) show ?case by (simp split: if_splits)
next
  case (4 i)
  then obtain x where "w = PInt x" using tag_eq [OF "4.prems"(1)] by (auto simp: tag_cases)
  with "4.prems"(1) show ?case by (simp split: if_splits)
next
  case (6 s)
  then obtain x where "w = PStr x" using tag_eq [OF "6.prems"(1)] by (auto simp: tag_cases)
  with "6.prems"(1) show ?case by (simp split: if_splits)
next
  case (7 s)
  then obtain x where "w = PBytes x" using tag_eq [OF "7.prems"(1)] by (auto simp: tag_cases)
  with "7.prems"(1) show ?case by (simp split: if_splits)
next
  case (8 s)
  then obtain x where "w = PPath x" using tag_eq [OF "8.prems"(1)] by (auto simp: tag_cases)
  with "8.prems"(1) show ?case by (simp split: if_splits)
qed

lemma encode_eq_iff:
  assumes "length (encode v) < 2 ^ 64" and "length (encode w) < 2 ^ 64"
  shows "encode v = encode w \<longleftrightarrow> canon v = canon w"
  using encode_eq_canon [OF _ assms] by (metis encode_canon)

section \<open>String-keyed objects\<close>

text \<open>A dumped model: a dict from field names to values, in field order.\<close>

definition obj :: "(string \<times> pyval) list \<Rightarrow> pyval" where
  "obj fields = PDict (map (\<lambda>(k, v). (PStr k, v)) fields)"

lemma canon_obj_mset:
  assumes "canon (obj fs) = canon (obj gs)"
  shows "mset (map (\<lambda>(k, v). (k, canon v)) fs) = mset (map (\<lambda>(k, v). (k, canon v)) gs)"
proof -
  let ?f = "\<lambda>(k, v). (PStr k, canon v)"
  let ?u = "\<lambda>(k, v). (case k of PStr s \<Rightarrow> s | _ \<Rightarrow> [], v)"
  have c: "map (\<lambda>(k, v). (canon k, canon v)) (map (\<lambda>(k, v). (PStr k, v)) hs) = map ?f hs" for hs
    by auto
  from assms have "mset (sort_key encode_entry (map ?f fs)) = mset (sort_key encode_entry (map ?f gs))"
    by (simp only: obj_def canon.simps c pyval.inject)
  then have "image_mset ?u (mset (map ?f fs)) = image_mset ?u (mset (map ?f gs))" by simp
  moreover have "image_mset ?u (mset (map ?f hs)) = mset (map (\<lambda>(k, v). (k, canon v)) hs)" for hs
    by (induction hs) auto
  ultimately show ?thesis by simp
qed

lemma canon_obj_length: "canon (obj fs) = canon (obj gs) \<Longrightarrow> length fs = length gs"
  by (drule canon_obj_mset) (metis length_map size_mset)

text \<open>Two dumps of one class agree field by field.\<close>

lemma canon_obj_fields:
  assumes "canon (obj fs) = canon (obj gs)" and "map fst fs = map fst gs" and "distinct (map fst fs)"
  shows "map (\<lambda>kv. canon (snd kv)) fs = map (\<lambda>kv. canon (snd kv)) gs"
proof -
  let ?c = "map (\<lambda>(k, v). (k, canon v))"
  have fst_c: "map fst (?c hs) = map fst hs" and snd_c: "map snd (?c hs) = map (\<lambda>kv. canon (snd kv)) hs"
    for hs :: "(string \<times> pyval) list" by auto
  have m: "mset (?c fs) = mset (?c gs)" by (rule canon_obj_mset [OF assms(1)])
  then have s: "set (?c fs) = set (?c gs)" by (metis set_mset_mset)
  have "?c fs = ?c gs"
  proof (rule nth_equalityI)
    show len: "length (?c fs) = length (?c gs)" using m by (rule mset_eq_length)
    fix i assume i: "i < length (?c fs)"
    then have "?c fs ! i \<in> set (?c gs)" using s nth_mem by blast
    then obtain j where j: "j < length (?c gs)" and e: "?c fs ! i = ?c gs ! j"
      by (auto simp only: in_set_conv_nth)
    have "map fst (?c fs) ! i = map fst (?c gs) ! j"
      using e i j by (simp only: nth_map)
    then have "map fst fs ! i = map fst fs ! j"
      by (simp only: fst_c assms(2))
    then have "i = j" using nth_eq_iff_index_eq [OF assms(3)] i j len by simp
    with e show "?c fs ! i = ?c gs ! i" by simp
  qed
  then show ?thesis using snd_c by metis
qed

section \<open>Digests bind their domain and value\<close>

definition sha_collision :: "sha256 \<Rightarrow> string \<Rightarrow> string \<Rightarrow> bool" where
  "sha_collision sha x y \<longleftrightarrow> x \<noteq> y \<and> sha x = sha y"

lemma domain_payload_inject:
  assumes "length d < 2 ^ 64" and "length e < 2 ^ 64"
    and "length (encode v) < 2 ^ 64" and "length (encode w) < 2 ^ 64"
    and "domain_payload d v = domain_payload e w"
  shows "d = e \<and> canon v = canon w"
  using assms by (auto simp: domain_payload_def frame_prefix intro: encode_eq_canon)

lemma identity_digest_binds:
  assumes "length d < 2 ^ 64" and "length e < 2 ^ 64"
    and "length (encode v) < 2 ^ 64" and "length (encode w) < 2 ^ 64"
    and "identity_digest sha d v = identity_digest sha e w"
  shows "(d = e \<and> canon v = canon w) \<or> sha_collision sha (domain_payload d v) (domain_payload e w)"
proof (cases "domain_payload d v = domain_payload e w")
  case True
  with domain_payload_inject [OF assms(1-4)] show ?thesis by blast
next
  case False
  with assms(5) show ?thesis by (simp add: identity_digest_def sha_collision_def)
qed

lemma identity_digest_canon: "canon v = canon w \<Longrightarrow> identity_digest sha d v = identity_digest sha d w"
  by (metis domain_payload_def encode_canon identity_digest_def)

text \<open>Every digest of the program passes its own \<open>_require_digest\<close> check.\<close>

definition is_digest :: "string \<Rightarrow> bool" where
  "is_digest s \<longleftrightarrow> length s = 64 \<and> list_all is_hex_char s"

lemma is_digest_hexdigest [simp]: "is_digest (hexdigest w)"
  by (auto simp: is_digest_def hexdigest_def list_all_iff dest: hex_digits_are_hex)

lemma is_digest_identity [simp]: "is_digest (identity_digest sha d v)"
  by (simp add: identity_digest_def)

lemma hex_char_lower: "is_hex_char c \<Longrightarrow> lower_char c = c"
  by (auto simp: is_hex_char_def lower_char_def is_upper_def is_digit_def Let_def)

lemma hex_char_no_space: "is_hex_char c \<Longrightarrow> \<not> is_py_space c \<and> \<not> is_trim_space c"
  by (auto simp: is_hex_char_def is_py_space_def is_trim_space_def is_digit_def Let_def)

lemma is_digest_stable:
  assumes "is_digest s"
  shows "py_strip s = s" and "py_trim s = s" and "py_lower s = s"
proof -
  have h: "\<forall>c\<in>set s. is_hex_char c" using assms by (simp add: is_digest_def list_all_iff)
  then show "py_strip s = s" "py_trim s = s" by (auto intro!: strip_with_id dest: hex_char_no_space)
  from h show "py_lower s = s" by (simp add: py_lower_def map_idI hex_char_lower)
qed

section \<open>Size of an encoding\<close>

text \<open>A cheap upper bound on \<open>length (encode v)\<close>, to discharge the size hypotheses on concrete
  values.\<close>

fun esize :: "pyval \<Rightarrow> nat" where
  "esize PNone = 9"
| "esize (PEnum cls v) = 18 + length cls + esize v"
| "esize (PBool b) = 10"
| "esize (PInt i) = 9 + length (show_int i)"
| "esize (PFloat f) = 41"
| "esize (PStr s) = 9 + length s"
| "esize (PBytes s) = 9 + length s"
| "esize (PPath s) = 9 + length s"
| "esize (PDict es) = 17 + sum_list (map (\<lambda>(k, v). esize k + esize v) es)"
| "esize (PList vs) = 17 + sum_list (map esize vs)"
| "esize (PTuple vs) = 17 + sum_list (map esize vs)"
| "esize (PSet vs) = 17 + sum_list (map esize vs)"
| "esize (PFrozenSet vs) = 17 + sum_list (map esize vs)"

lemma sum_list_sort: "sum_list (map f (sort xs)) = (sum_list (map f xs) :: nat)"
  by (metis mset_map mset_sort sum_mset_sum_list)

lemma show_nat_length: "n < 10 ^ k \<Longrightarrow> 0 < k \<Longrightarrow> length (show_nat n) \<le> k"
proof (induction n arbitrary: k rule: show_nat.induct)
  case (1 n)
  show ?case
  proof (cases "n < 10")
    case True
    then show ?thesis using "1.prems" by (subst show_nat.simps) simp
  next
    case False
    then obtain j where j: "k = Suc j" "0 < j"
      using "1.prems" by (cases k; cases "k - 1") auto
    then have "length (show_nat (n div 10)) \<le> j"
      using "1.prems" False by (intro "1.IH") (auto simp: less_mult_imp_div_less mult.commute)
    then show ?thesis using False j by (subst show_nat.simps) simp
  qed
qed

lemma float_text_length: "length (float_text f) \<le> 32"
proof -
  have "unat (flt_exp f) < 2048" using unsigned_less [of "flt_exp f", where ?'a = nat] by simp
  then have "length (show_nat (1023 - unat (flt_exp f))) \<le> 4" "length (show_nat (unat (flt_exp f) - 1023)) \<le> 4"
    by (auto intro!: show_nat_length)
  then show ?thesis by (auto simp: float_text_def)
qed

lemma length_encode_le: "length (encode v) \<le> esize v"
proof (induction v rule: encode.induct)
  case (5 f)
  then show ?case using float_text_length [of f] by simp
next
  case (9 es)
  have "sum_list (map (\<lambda>kv. length (fst kv @ snd kv)) (sort (map encode_entry es))) =
      sum_list (map (\<lambda>(k, v). length (encode k) + length (encode v)) es)"
    unfolding sum_list_sort by (simp add: comp_def) (simp add: case_prod_unfold)
  also have "\<dots> \<le> sum_list (map (\<lambda>(k, v). esize k + esize v) es)"
    using "9.IH" by (intro sum_list_mono) (fastforce intro: add_mono)
  finally show ?case by (simp add: length_concat comp_def)
qed (auto simp: length_concat comp_def sum_list_sort intro!: sum_list_mono)

lemma encode_small: "esize v < 2 ^ 64 \<Longrightarrow> length (encode v) < 2 ^ 64"
  using length_encode_le [of v] by simp


section \<open>Properties\<close>

lemma sort_mset_eq: "mset xs = mset ys \<Longrightarrow> sort xs = sort ys"
  by (rule properties_for_sort) simp_all

lemma encode_dict_order: "mset es = mset fs \<Longrightarrow> encode (PDict es) = encode (PDict fs)"
  by (simp add: mset_eq_length sort_mset_eq [of "map encode_entry es" "map encode_entry fs"])

text \<open>C22: the identity bytes of two values are equal exactly when the values have the same
  canonical form, so no two distinct plain values share them: types, nesting and lengths are all
  recovered, and only the order of dict entries and set elements and the bits of a NaN are lost.\<close>

theorem canonical_bytes_injective:
  assumes "length (encode v) < 2 ^ 64" and "length (encode w) < 2 ^ 64"
  shows "canonical_identity_bytes v = canonical_identity_bytes w \<longleftrightarrow> canon v = canon w"
  unfolding canonical_identity_bytes_def using encode_eq_iff [OF assms] by simp

theorem canonical_bytes_injective_witness:
  "canonical_identity_bytes (PList [PStr ''a'', PStr ''b'']) \<noteq> canonical_identity_bytes (PList [PStr ''ab'']) \<and>
   canonical_identity_bytes (obj [(''x'', PInt 1), (''y'', PInt 2)]) =
     canonical_identity_bytes (obj [(''y'', PInt 2), (''x'', PInt 1)])"
proof
  show "canonical_identity_bytes (PList [PStr ''a'', PStr ''b'']) \<noteq> canonical_identity_bytes (PList [PStr ''ab''])"
    by (subst canonical_bytes_injective) ((rule encode_small, simp)+, simp)
  show "canonical_identity_bytes (obj [(''x'', PInt 1), (''y'', PInt 2)]) =
     canonical_identity_bytes (obj [(''y'', PInt 2), (''x'', PInt 1)])"
    unfolding canonical_identity_bytes_def obj_def by (rule arg_cong [OF encode_dict_order]) simp
qed

text \<open>C23: an identity digest is a 64-digit lowercase hexadecimal string, and two digests that agree
  come from the same stripped domain and the same canonical value, unless their payloads are a
  SHA-256 collision. Digests of different domains are thus never interchangeable.\<close>

theorem digest_binds_domain_and_value:
  assumes "canonical_identity_digest sha v d = Inr x" and "canonical_identity_digest sha w e = Inr y"
    and "length d < 2 ^ 64" and "length e < 2 ^ 64"
    and "length (encode v) < 2 ^ 64" and "length (encode w) < 2 ^ 64"
  shows "is_digest x \<and> (x = y \<longrightarrow> (py_strip d = py_strip e \<and> canon v = canon w) \<or>
    sha_collision sha (domain_payload (py_strip d) v) (domain_payload (py_strip e) w))"
proof -
  have "length (py_strip s) \<le> length s" for s
    by (simp add: strip_with_def) (metis length_dropWhile_le length_rev order_trans)
  then have len: "length (py_strip d) < 2 ^ 64" "length (py_strip e) < 2 ^ 64"
    using assms(3,4) order_le_less_trans by blast+
  from assms(1,2) have "x = identity_digest sha (py_strip d) v" "y = identity_digest sha (py_strip e) w"
    by (auto simp: canonical_identity_digest_def Let_def split: if_splits)
  then show ?thesis using identity_digest_binds [OF len assms(5,6)] by auto
qed


text \<open>A constant hash: every hypothesis holds and the collision is exhibited.\<close>

theorem digest_binds_domain_and_value_witness:
  "sha_collision (\<lambda>_. 0) (domain_payload ''task'' (PStr ''a'')) (domain_payload ''protocol'' (PStr ''a''))"
proof -
  let ?sha = "\<lambda>_. 0 :: 256 word"
  have strip: "py_strip ''task'' = ''task''" "py_strip '' protocol '' = ''protocol''"
    by (simp_all add: strip_with_def is_py_space_def)
  have "canonical_identity_digest ?sha (PStr ''a'') ''task'' = Inr (hexdigest 0)"
    "canonical_identity_digest ?sha (PStr ''a'') '' protocol '' = Inr (hexdigest 0)"
    by (simp_all add: canonical_identity_digest_def strip identity_digest_def)
  moreover have "length (encode (PStr ''a'')) < 2 ^ 64" by (rule encode_small) simp
  ultimately show ?thesis
    using digest_binds_domain_and_value [of ?sha "PStr ''a''" "''task''" "hexdigest 0" "PStr ''a''" "'' protocol ''" "hexdigest 0"]
    by (simp add: strip)
qed

end
