(* ===== verification/Epochs.thy ===== *)
theory Epochs
  imports Identity
begin

text \<open>
  Research epochs and public tasks (\<open>contracts/epochs.py\<close>): the resource ceilings of a run, the
  pinned epoch manifest, the public task envelope, their field and model validators and the
  digests that bind them. A record is a Pydantic model, a \<open>validate_\<close> function is
  \<open>model_validate\<close> on a payload whose fields already have the declared types; it returns the
  normalised model or the first error. A field whose \<open>Literal\<close> type has a single value is a
  constant of the payload functions.
\<close>

section \<open>Field validators\<close>

definition runtime_contract_version_const :: string where
  "runtime_contract_version_const = ''0.1.0''"

definition require_digest :: "string \<Rightarrow> string \<Rightarrow> string res" where
  "require_digest value field_name =
     (let normalized = py_lower (py_strip value)
      in if is_digest normalized then Inr normalized
         else Inl (ValueError (field_name @ '' must be a lowercase SHA-256 digest'')))"

definition require_nonempty :: "string \<Rightarrow> string \<Rightarrow> string res" where
  "require_nonempty value field_name =
     (let normalized = py_strip value
      in if normalized = [] then Inl (ValueError (field_name @ '' may not be empty''))
         else Inr normalized)"

definition assert_contract_version :: "string \<Rightarrow> string res" where
  "assert_contract_version value =
     (let normalized = py_strip value
      in if normalized \<noteq> runtime_contract_version_const
         then Inl (ValueError ''runtime_contract_version does not match this Agintor build'')
         else Inr normalized)"

text \<open>\<open>PurePosixPath\<close> of a relative path: empty and \<open>.\<close> components are dropped.\<close>

fun split_on :: "char \<Rightarrow> string \<Rightarrow> string list" where
  "split_on c [] = [[]]"
| "split_on c (x # xs) =
     (if x = c then [] # split_on c xs
      else (case split_on c xs of [] \<Rightarrow> [[x]] | p # ps \<Rightarrow> (x # p) # ps))"

fun join_with :: "string \<Rightarrow> string list \<Rightarrow> string" where
  "join_with s [] = []"
| "join_with s [x] = x"
| "join_with s (x # y # ys) = x @ s @ join_with s (y # ys)"

definition posix_parts :: "string \<Rightarrow> string list" where
  "posix_parts s = filter (\<lambda>p. p \<noteq> [] \<and> p \<noteq> ''.'') (split_on (CHR ''/'') s)"

definition backslash_to_slash :: "string \<Rightarrow> string" where
  "backslash_to_slash s = map (\<lambda>c. if (of_char c :: nat) = 92 then CHR ''/'' else c) s"

definition or_dot :: "string \<Rightarrow> string" where
  "or_dot s = (if s = [] then ''.'' else s)"

definition public_relative_path :: "string \<Rightarrow> string \<Rightarrow> string res" where
  "public_relative_path value field_name =
     (let normalized = or_dot (backslash_to_slash (py_strip (or_dot value)));
          parts = posix_parts normalized
      in if starts_with normalized ''/'' \<or> ''..'' \<in> set parts
         then Inl (ValueError (field_name @ '' must be a workspace-relative path''))
         else Inr (if parts = [] then ''.'' else join_with ''/'' parts))"

section \<open>Trusted tools and data states\<close>

datatype data_state = Development | SealedConfirmation

datatype tool_id = RepoSearch | RepoRead | RepoPublicTest | RepoEdit | RepoDiff

fun tool_name :: "tool_id \<Rightarrow> string" where
  "tool_name RepoSearch = ''repo.search''"
| "tool_name RepoRead = ''repo.read''"
| "tool_name RepoPublicTest = ''repo.public_test''"
| "tool_name RepoEdit = ''repo.edit''"
| "tool_name RepoDiff = ''repo.diff''"

fun data_state_name :: "data_state \<Rightarrow> string" where
  "data_state_name Development = ''development''"
| "data_state_name SealedConfirmation = ''sealed_confirmation''"

lemma tool_name_inject [simp]: "tool_name a = tool_name b \<longleftrightarrow> a = b"
  by (cases a; cases b) simp_all

lemma data_state_name_inject [simp]: "data_state_name a = data_state_name b \<longleftrightarrow> a = b"
  by (cases a; cases b) simp_all

text \<open>Tool ids are sorted as the strings they are.\<close>

instantiation tool_id :: linorder
begin

definition less_eq_tool_id :: "tool_id \<Rightarrow> tool_id \<Rightarrow> bool" where
  "less_eq_tool_id a b \<longleftrightarrow> tool_name a \<le> tool_name b"

definition less_tool_id :: "tool_id \<Rightarrow> tool_id \<Rightarrow> bool" where
  "less_tool_id a b \<longleftrightarrow> tool_name a < tool_name b"

instance
  by standard (auto simp: less_eq_tool_id_def less_tool_id_def order.strict_iff_order)

end

definition repo_repair_trusted_tool_ids :: "tool_id list" where
  "repo_repair_trusted_tool_ids = [RepoSearch, RepoRead, RepoPublicTest, RepoEdit, RepoDiff]"

definition repo_repair_mutation_fields :: "string list" where
  "repo_repair_mutation_fields =
     [''actors[*].task_view'', ''actors[*].instruction'', ''actors[*].tool_ids'',
      ''actors[*].budget_share_bps'', ''artifact_channels'', ''revision'',
      ''termination.final_actor_id'']"

section \<open>Task ceilings\<close>

record task_ceilings =
  max_model_calls :: int
  max_input_tokens :: int
  max_output_tokens :: int
  max_cached_tokens :: int
  max_cache_write_tokens :: int
  max_tool_calls :: int
  max_tool_output_bytes :: int
  max_artifact_bytes :: int
  max_patch_bytes :: int
  max_retries :: int
  max_wall_time_ms :: int
  provider_deadline_ms :: int
  max_known_cost_usd :: pyfloat
  max_estimated_cost_usd :: pyfloat

definition require_gt0 :: "int \<Rightarrow> string \<Rightarrow> unit res" where
  "require_gt0 v field_name = raise_if (v \<le> 0) (ValueError (field_name @ '' greater_than''))"

definition require_ge0 :: "int \<Rightarrow> string \<Rightarrow> unit res" where
  "require_ge0 v field_name = raise_if (v < 0) (ValueError (field_name @ '' greater_than_equal''))"

definition require_float_ge0 :: "pyfloat \<Rightarrow> string \<Rightarrow> unit res" where
  "require_float_ge0 v field_name =
     raise_if (float_lt v float_zero) (ValueError (field_name @ '' greater_than_equal''))"

definition validate_deadline :: "task_ceilings \<Rightarrow> unit res" where
  "validate_deadline c =
     thenE (raise_if (provider_deadline_ms c > max_wall_time_ms c)
       (ValueError ''provider_deadline_ms may not exceed max_wall_time_ms''))
     (raise_if (float_lt (max_estimated_cost_usd c) (max_known_cost_usd c))
       (ValueError ''max_estimated_cost_usd may not be less than max_known_cost_usd''))"

definition validate_task_ceilings :: "task_ceilings \<Rightarrow> task_ceilings res" where
  "validate_task_ceilings c = validated (
     thenE (require_gt0 (max_model_calls c) ''max_model_calls'') (
     thenE (require_gt0 (max_input_tokens c) ''max_input_tokens'') (
     thenE (require_gt0 (max_output_tokens c) ''max_output_tokens'') (
     thenE (require_ge0 (max_cached_tokens c) ''max_cached_tokens'') (
     thenE (require_ge0 (max_cache_write_tokens c) ''max_cache_write_tokens'') (
     thenE (require_gt0 (max_tool_calls c) ''max_tool_calls'') (
     thenE (require_gt0 (max_tool_output_bytes c) ''max_tool_output_bytes'') (
     thenE (require_gt0 (max_artifact_bytes c) ''max_artifact_bytes'') (
     thenE (require_gt0 (max_patch_bytes c) ''max_patch_bytes'') (
     thenE (require_ge0 (max_retries c) ''max_retries'') (
     thenE (require_gt0 (max_wall_time_ms c) ''max_wall_time_ms'') (
     thenE (require_gt0 (provider_deadline_ms c) ''provider_deadline_ms'') (
     thenE (require_float_ge0 (max_known_cost_usd c) ''max_known_cost_usd'') (
     thenE (require_float_ge0 (max_estimated_cost_usd c) ''max_estimated_cost_usd'') (
     thenE (validate_deadline c) (Inr c))))))))))))))))"

definition is_within :: "task_ceilings \<Rightarrow> task_ceilings \<Rightarrow> bool" where
  "is_within c outer \<longleftrightarrow>
     max_model_calls c \<le> max_model_calls outer \<and>
     max_input_tokens c \<le> max_input_tokens outer \<and>
     max_output_tokens c \<le> max_output_tokens outer \<and>
     max_cached_tokens c \<le> max_cached_tokens outer \<and>
     max_cache_write_tokens c \<le> max_cache_write_tokens outer \<and>
     max_tool_calls c \<le> max_tool_calls outer \<and>
     max_tool_output_bytes c \<le> max_tool_output_bytes outer \<and>
     max_artifact_bytes c \<le> max_artifact_bytes outer \<and>
     max_patch_bytes c \<le> max_patch_bytes outer \<and>
     max_retries c \<le> max_retries outer \<and>
     max_wall_time_ms c \<le> max_wall_time_ms outer \<and>
     provider_deadline_ms c \<le> provider_deadline_ms outer \<and>
     float_le (max_known_cost_usd c) (max_known_cost_usd outer) \<and>
     float_le (max_estimated_cost_usd c) (max_estimated_cost_usd outer)"

definition ceilings_payload :: "task_ceilings \<Rightarrow> pyval" where
  "ceilings_payload c = obj
     [(''max_model_calls'', PInt (max_model_calls c)),
      (''max_input_tokens'', PInt (max_input_tokens c)),
      (''max_output_tokens'', PInt (max_output_tokens c)),
      (''max_cached_tokens'', PInt (max_cached_tokens c)),
      (''max_cache_write_tokens'', PInt (max_cache_write_tokens c)),
      (''max_tool_calls'', PInt (max_tool_calls c)),
      (''max_tool_output_bytes'', PInt (max_tool_output_bytes c)),
      (''max_artifact_bytes'', PInt (max_artifact_bytes c)),
      (''max_patch_bytes'', PInt (max_patch_bytes c)),
      (''max_retries'', PInt (max_retries c)),
      (''max_wall_time_ms'', PInt (max_wall_time_ms c)),
      (''provider_deadline_ms'', PInt (provider_deadline_ms c)),
      (''max_known_cost_usd'', PFloat (max_known_cost_usd c)),
      (''max_estimated_cost_usd'', PFloat (max_estimated_cost_usd c))]"

section \<open>Parts of the epoch and the task\<close>

record workspace_snapshot_ref =
  snapshot_id :: string
  snapshot_uri :: string
  snapshot_digest :: string

definition validate_workspace_snapshot_ref :: "workspace_snapshot_ref \<Rightarrow> workspace_snapshot_ref res" where
  "validate_workspace_snapshot_ref r = validated (
     bindE (require_nonempty (snapshot_id r) ''snapshot_id'') (\<lambda>i.
     bindE (require_nonempty (snapshot_uri r) ''uri'') (\<lambda>u.
     bindE (require_digest (snapshot_digest r) ''workspace_snapshot.digest'') (\<lambda>d.
     Inr (r\<lparr>snapshot_id := i, snapshot_uri := u, snapshot_digest := d\<rparr>)))))"

definition workspace_snapshot_payload :: "workspace_snapshot_ref \<Rightarrow> pyval" where
  "workspace_snapshot_payload r = obj
     [(''snapshot_id'', PStr (snapshot_id r)), (''uri'', PStr (snapshot_uri r)),
      (''digest'', PStr (snapshot_digest r)), (''format'', PStr ''directory''),
      (''immutable'', PBool True)]"

record public_reproduction_step =
  step_id :: string
  step_argv :: "string list"
  step_cwd :: string
  step_timeout_ms :: int
  expected_exit_codes :: "int list"

definition validate_argv :: "string list \<Rightarrow> string list res" where
  "validate_argv value =
     (if value = [] \<or> list_ex (\<lambda>part. py_strip part = []) value
      then Inl (ValueError ''public reproduction argv must contain nonempty arguments'')
      else Inr value)"

definition validate_expected_exit_codes :: "int list \<Rightarrow> int list res" where
  "validate_expected_exit_codes value =
     (if value = [] then Inl (ValueError ''expected_exit_codes may not be empty'')
      else if \<not> distinct value
      then Inl (ValueError ''expected_exit_codes may not contain duplicates'')
      else Inr value)"

definition validate_public_reproduction_step ::
    "public_reproduction_step \<Rightarrow> public_reproduction_step res" where
  "validate_public_reproduction_step s = validated (
     bindE (require_nonempty (step_id s) ''step_id'') (\<lambda>i.
     bindE (validate_argv (step_argv s)) (\<lambda>argv.
     bindE (public_relative_path (step_cwd s) ''public reproduction cwd'') (\<lambda>cwd.
     thenE (require_gt0 (step_timeout_ms s) ''timeout_ms'') (
     bindE (validate_expected_exit_codes (expected_exit_codes s)) (\<lambda>codes.
     Inr (s\<lparr>step_id := i, step_argv := argv, step_cwd := cwd, expected_exit_codes := codes\<rparr>)))))))"

definition step_payload :: "public_reproduction_step \<Rightarrow> pyval" where
  "step_payload s = obj
     [(''step_id'', PStr (step_id s)), (''argv'', PTuple (map PStr (step_argv s))),
      (''cwd'', PStr (step_cwd s)), (''timeout_ms'', PInt (step_timeout_ms s)),
      (''expected_exit_codes'', PTuple (map PInt (expected_exit_codes s)))]"

record deployment_identity =
  deployment_id :: string
  dep_provider :: string
  dep_model :: string
  dep_provider_config_digest :: string
  dep_decoding_policy_digest :: string
  dep_price_schedule_digest :: string
  dep_command_container_policy_digest :: string

definition validate_deployment_identity :: "deployment_identity \<Rightarrow> deployment_identity res" where
  "validate_deployment_identity d = validated (
     bindE (require_nonempty (deployment_id d) ''deployment_id'') (\<lambda>i.
     bindE (require_nonempty (dep_provider d) ''provider'') (\<lambda>p.
     bindE (require_nonempty (dep_model d) ''model'') (\<lambda>m.
     bindE (require_digest (dep_provider_config_digest d) ''provider_config_digest'') (\<lambda>c.
     bindE (require_digest (dep_decoding_policy_digest d) ''decoding_policy_digest'') (\<lambda>y.
     bindE (require_digest (dep_price_schedule_digest d) ''price_schedule_digest'') (\<lambda>s.
     bindE (require_digest (dep_command_container_policy_digest d)
       ''command_container_policy_digest'') (\<lambda>k.
     Inr \<lparr>deployment_id = i, dep_provider = p, dep_model = m, dep_provider_config_digest = c,
       dep_decoding_policy_digest = y, dep_price_schedule_digest = s,
       dep_command_container_policy_digest = k\<rparr>))))))))"

definition deployment_payload :: "deployment_identity \<Rightarrow> pyval" where
  "deployment_payload d = obj
     [(''deployment_id'', PStr (deployment_id d)), (''provider'', PStr (dep_provider d)),
      (''model'', PStr (dep_model d)),
      (''provider_config_digest'', PStr (dep_provider_config_digest d)),
      (''decoding_policy_digest'', PStr (dep_decoding_policy_digest d)),
      (''price_schedule_digest'', PStr (dep_price_schedule_digest d)),
      (''command_container_policy_digest'', PStr (dep_command_container_policy_digest d))]"

record trusted_tool_authority =
  auth_tool_id :: tool_id
  auth_implementation_digest :: string
  auth_policy_digest :: string

definition validate_trusted_tool_authority :: "trusted_tool_authority \<Rightarrow> trusted_tool_authority res" where
  "validate_trusted_tool_authority a = validated (
     bindE (require_digest (auth_implementation_digest a) ''implementation_digest'') (\<lambda>i.
     bindE (require_digest (auth_policy_digest a) ''policy_digest'') (\<lambda>p.
     Inr (a\<lparr>auth_implementation_digest := i, auth_policy_digest := p\<rparr>))))"

definition trusted_tool_authority_payload :: "trusted_tool_authority \<Rightarrow> pyval" where
  "trusted_tool_authority_payload a = obj
     [(''tool_id'', PStr (tool_name (auth_tool_id a))),
      (''implementation_digest'', PStr (auth_implementation_digest a)),
      (''policy_digest'', PStr (auth_policy_digest a)), (''network_access'', PBool False)]"

datatype search_strategy = OnePlusLambda | FixedBeam

fun strategy_name :: "search_strategy \<Rightarrow> string" where
  "strategy_name OnePlusLambda = ''one_plus_lambda''"
| "strategy_name FixedBeam = ''fixed_beam''"

record search_envelope =
  env_strategy :: search_strategy
  max_steps :: int
  offspring_per_step :: int
  sampling_replicates :: int
  task_panel_digest :: string

definition validate_search_envelope :: "search_envelope \<Rightarrow> search_envelope res" where
  "validate_search_envelope e = validated (
     thenE (require_gt0 (max_steps e) ''max_steps'') (
     thenE (require_gt0 (offspring_per_step e) ''offspring_per_step'') (
     thenE (require_gt0 (sampling_replicates e) ''sampling_replicates'') (
     bindE (require_digest (task_panel_digest e) ''task_panel_digest'') (\<lambda>d.
     Inr (e\<lparr>task_panel_digest := d\<rparr>))))))"

definition search_envelope_payload :: "search_envelope \<Rightarrow> pyval" where
  "search_envelope_payload e = obj
     [(''strategy'', PStr (strategy_name (env_strategy e))), (''max_steps'', PInt (max_steps e)),
      (''offspring_per_step'', PInt (offspring_per_step e)),
      (''sampling_replicates'', PInt (sampling_replicates e)),
      (''task_panel_digest'', PStr (task_panel_digest e)),
      (''racing_enabled'', PBool False), (''parallel_candidates'', PBool False)]"

definition feedback_rules_payload :: pyval where
  "feedback_rules_payload = obj
     [(''development_outcomes_visible_to_search'', PBool True),
      (''sealed_confirmation_feedback_visible'', PBool False),
      (''adaptive_validation'', PBool False), (''shadow_feedback'', PBool False)]"

record promotion_margins =
  minimum_complete_repair_gain :: int
  minimum_paired_receipts :: int
  maximum_pair_regressions :: int

definition validate_promotion_margins :: "promotion_margins \<Rightarrow> promotion_margins res" where
  "validate_promotion_margins m = validated (
     thenE (raise_if (minimum_complete_repair_gain m < 1)
       (ValueError ''minimum_complete_repair_gain greater_than_equal'')) (
     thenE (raise_if (minimum_paired_receipts m < 1)
       (ValueError ''minimum_paired_receipts greater_than_equal'')) (
     thenE (require_ge0 (maximum_pair_regressions m) ''maximum_pair_regressions'') (Inr m))))"

definition promotion_margins_payload :: "promotion_margins \<Rightarrow> pyval" where
  "promotion_margins_payload m = obj
     [(''minimum_complete_repair_gain'', PInt (minimum_complete_repair_gain m)),
      (''minimum_paired_receipts'', PInt (minimum_paired_receipts m)),
      (''maximum_pair_regressions'', PInt (maximum_pair_regressions m))]"

record stop_rule =
  max_candidate_evaluations :: int
  max_consecutive_non_improving_steps :: int

definition validate_stop_rule :: "stop_rule \<Rightarrow> stop_rule res" where
  "validate_stop_rule r = validated (
     thenE (require_gt0 (max_candidate_evaluations r) ''max_candidate_evaluations'') (
     thenE (require_gt0 (max_consecutive_non_improving_steps r)
       ''max_consecutive_non_improving_steps'') (Inr r)))"

definition stop_rule_payload :: "stop_rule \<Rightarrow> pyval" where
  "stop_rule_payload r = obj
     [(''max_candidate_evaluations'', PInt (max_candidate_evaluations r)),
      (''max_consecutive_non_improving_steps'', PInt (max_consecutive_non_improving_steps r)),
      (''stop_on_envelope_exhaustion'', PBool True)]"

record evaluator_authority =
  ev_evaluator_id :: string
  ev_identity_digest :: string
  ev_policy_digest :: string

definition validate_evaluator_authority :: "evaluator_authority \<Rightarrow> evaluator_authority res" where
  "validate_evaluator_authority a = validated (
     bindE (require_nonempty (ev_evaluator_id a) ''evaluator_id'') (\<lambda>i.
     bindE (require_digest (ev_identity_digest a) ''evaluator_identity_digest'') (\<lambda>d.
     bindE (require_digest (ev_policy_digest a) ''evaluation_policy_digest'') (\<lambda>p.
     Inr \<lparr>ev_evaluator_id = i, ev_identity_digest = d, ev_policy_digest = p\<rparr>))))"

definition evaluator_authority_payload :: "evaluator_authority \<Rightarrow> pyval" where
  "evaluator_authority_payload a = obj
     [(''evaluator_id'', PStr (ev_evaluator_id a)),
      (''evaluator_identity_digest'', PStr (ev_identity_digest a)),
      (''evaluation_policy_digest'', PStr (ev_policy_digest a)),
      (''outcome_schema'', PStr ''repo-repair-outcome-v1'')]"

section \<open>The research epoch\<close>

record research_epoch =
  ep_contract_version :: string
  ep_epoch_id :: string
  ep_manifest_digest :: string
  data_states :: "data_state list"
  ep_task_manifest_digest :: string
  development_split_digest :: string
  sealed_confirmation_split_digest :: string
  deployment :: deployment_identity
  per_run_ceilings :: task_ceilings
  search_env :: search_envelope
  ep_trusted_tools :: "trusted_tool_authority list"
  mutation_surface :: "string list"
  ep_promotion_margins :: promotion_margins
  ep_stop_rule :: stop_rule
  ep_evaluator_authority :: evaluator_authority

definition research_epoch_identity_payload :: "research_epoch \<Rightarrow> pyval" where
  "research_epoch_identity_payload m = obj
     [(''runtime_contract_version'', PStr (ep_contract_version m)),
      (''epoch_id'', PStr (ep_epoch_id m)),
      (''capability_epoch'', PStr ''repo-repair-v1''),
      (''promotion_capable'', PBool True),
      (''data_states'', PTuple (map (\<lambda>s. PStr (data_state_name s)) (data_states m))),
      (''task_manifest_digest'', PStr (ep_task_manifest_digest m)),
      (''development_split_digest'', PStr (development_split_digest m)),
      (''sealed_confirmation_split_digest'', PStr (sealed_confirmation_split_digest m)),
      (''deployment'', deployment_payload (deployment m)),
      (''per_run_ceilings'', ceilings_payload (per_run_ceilings m)),
      (''search_envelope'', search_envelope_payload (search_env m)),
      (''trusted_tools'', PTuple (map trusted_tool_authority_payload (ep_trusted_tools m))),
      (''mutation_surface'', PTuple (map PStr (mutation_surface m))),
      (''feedback_rules'', feedback_rules_payload),
      (''promotion_margins'', promotion_margins_payload (ep_promotion_margins m)),
      (''stop_rule'', stop_rule_payload (ep_stop_rule m)),
      (''evaluator_authority'', evaluator_authority_payload (ep_evaluator_authority m))]"

definition research_epoch_manifest_digest :: "sha256 \<Rightarrow> research_epoch \<Rightarrow> string" where
  "research_epoch_manifest_digest sha m =
     identity_digest sha ''research-epoch-manifest'' (research_epoch_identity_payload m)"

definition validate_epoch :: "sha256 \<Rightarrow> research_epoch \<Rightarrow> research_epoch res" where
  "validate_epoch sha m =
     thenE (raise_if (data_states m \<noteq> [Development, SealedConfirmation])
       (ValueError ''repo-repair-v1 has exactly two data states: development and sealed_confirmation'')) (
     thenE (raise_if (development_split_digest m = sealed_confirmation_split_digest m)
       (ValueError ''development and sealed-confirmation split digests must differ'')) (
     thenE (raise_if (map auth_tool_id (ep_trusted_tools m) \<noteq> repo_repair_trusted_tool_ids)
       (ValueError ''repo-repair-v1 trusted tools must be exactly'')) (
     thenE (raise_if (mutation_surface m = [])
       (ValueError ''mutation_surface may not be empty'')) (
     thenE (raise_if (\<not> distinct (mutation_surface m))
       (ValueError ''mutation_surface may not contain duplicates'')) (
     thenE (raise_if (\<not> subset_list (mutation_surface m) repo_repair_mutation_fields)
       (ValueError ''unsupported repo-repair-v1 mutation fields'')) (
     thenE (raise_if (max_candidate_evaluations (ep_stop_rule m) < offspring_per_step (search_env m))
       (ValueError ''stop rule cannot be smaller than one offspring batch'')) (
     let computed = research_epoch_manifest_digest sha m in
     thenE (raise_if (ep_manifest_digest m \<noteq> [] \<and> ep_manifest_digest m \<noteq> computed)
       (ValueError ''epoch_manifest_digest does not match the epoch manifest'')) (
     Inr (if ep_manifest_digest m = [] then m\<lparr>ep_manifest_digest := computed\<rparr> else m)))))))))"

definition validate_research_epoch :: "sha256 \<Rightarrow> research_epoch \<Rightarrow> research_epoch res" where
  "validate_research_epoch sha m = validated (
     bindE (assert_contract_version (ep_contract_version m)) (\<lambda>version.
     bindE (require_nonempty (ep_epoch_id m) ''epoch_id'') (\<lambda>i.
     bindE (require_digest (ep_task_manifest_digest m) ''task_manifest_digest'') (\<lambda>t.
     bindE (require_digest (development_split_digest m) ''development_split_digest'') (\<lambda>d.
     bindE (require_digest (sealed_confirmation_split_digest m)
       ''sealed_confirmation_split_digest'') (\<lambda>s.
     bindE (validate_deployment_identity (deployment m)) (\<lambda>dep.
     bindE (validate_task_ceilings (per_run_ceilings m)) (\<lambda>ceil.
     bindE (validate_search_envelope (search_env m)) (\<lambda>env.
     bindE (mapE validate_trusted_tool_authority (ep_trusted_tools m)) (\<lambda>tools.
     bindE (validate_promotion_margins (ep_promotion_margins m)) (\<lambda>margins.
     bindE (validate_stop_rule (ep_stop_rule m)) (\<lambda>stop.
     bindE (validate_evaluator_authority (ep_evaluator_authority m)) (\<lambda>authority.
     validate_epoch sha
       (m\<lparr>ep_contract_version := version, ep_epoch_id := i, ep_task_manifest_digest := t,
          development_split_digest := d, sealed_confirmation_split_digest := s, deployment := dep,
          per_run_ceilings := ceil, search_env := env, ep_trusted_tools := tools,
          ep_promotion_margins := margins, ep_stop_rule := stop,
          ep_evaluator_authority := authority\<rparr>))))))))))))))"

section \<open>The public task envelope\<close>

record task_envelope =
  te_contract_version :: string
  task_manifest_id :: string
  task_manifest_digest :: string
  te_epoch_id :: string
  te_epoch_manifest_digest :: string
  te_data_state :: data_state
  split_manifest_digest :: string
  issue :: string
  workspace_snapshot :: workspace_snapshot_ref
  public_reproduction :: "public_reproduction_step list"
  allowed_capabilities :: "tool_id list"
  ceilings :: task_ceilings

definition task_envelope_identity_payload :: "task_envelope \<Rightarrow> pyval" where
  "task_envelope_identity_payload t = obj
     [(''runtime_contract_version'', PStr (te_contract_version t)),
      (''task_manifest_id'', PStr (task_manifest_id t)),
      (''epoch_id'', PStr (te_epoch_id t)),
      (''epoch_manifest_digest'', PStr (te_epoch_manifest_digest t)),
      (''capability_epoch'', PStr ''repo-repair-v1''),
      (''data_state'', PStr (data_state_name (te_data_state t))),
      (''split_manifest_digest'', PStr (split_manifest_digest t)),
      (''issue'', PStr (issue t)),
      (''workspace_snapshot'', workspace_snapshot_payload (workspace_snapshot t)),
      (''public_reproduction'', PList (map step_payload (public_reproduction t))),
      (''allowed_capabilities'', PList (map (\<lambda>c. PStr (tool_name c)) (allowed_capabilities t))),
      (''ceilings'', ceilings_payload (ceilings t))]"

definition task_envelope_digest :: "sha256 \<Rightarrow> task_envelope \<Rightarrow> string" where
  "task_envelope_digest sha t = task_digest sha (task_envelope_identity_payload t)"

definition validate_task :: "sha256 \<Rightarrow> task_envelope \<Rightarrow> task_envelope res" where
  "validate_task sha t =
     thenE (raise_if (public_reproduction t = [])
       (ValueError ''repo-repair-v1 requires public reproduction steps'')) (
     thenE (raise_if (\<not> distinct (map step_id (public_reproduction t)))
       (ValueError ''public reproduction step_id values must be unique'')) (
     thenE (raise_if (allowed_capabilities t \<noteq> repo_repair_trusted_tool_ids)
       (ValueError ''repo-repair-v1 allowed_capabilities must be the fixed trusted tool set'')) (
     let computed = task_envelope_digest sha t in
     thenE (raise_if (task_manifest_digest t \<noteq> [] \<and> task_manifest_digest t \<noteq> computed)
       (ValueError ''task_manifest_digest does not match the public task envelope'')) (
     Inr (if task_manifest_digest t = [] then t\<lparr>task_manifest_digest := computed\<rparr> else t)))))"

definition validate_task_envelope :: "sha256 \<Rightarrow> task_envelope \<Rightarrow> task_envelope res" where
  "validate_task_envelope sha t = validated (
     bindE (assert_contract_version (te_contract_version t)) (\<lambda>version.
     bindE (require_nonempty (task_manifest_id t) ''task_manifest_id'') (\<lambda>i.
     bindE (require_nonempty (te_epoch_id t) ''epoch_id'') (\<lambda>e.
     bindE (require_digest (te_epoch_manifest_digest t) ''epoch_manifest_digest'') (\<lambda>m.
     bindE (require_digest (split_manifest_digest t) ''split_manifest_digest'') (\<lambda>s.
     bindE (require_nonempty (issue t) ''issue'') (\<lambda>iss.
     bindE (validate_workspace_snapshot_ref (workspace_snapshot t)) (\<lambda>w.
     bindE (mapE validate_public_reproduction_step (public_reproduction t)) (\<lambda>steps.
     bindE (validate_task_ceilings (ceilings t)) (\<lambda>c.
     validate_task sha
       (t\<lparr>te_contract_version := version, task_manifest_id := i, te_epoch_id := e,
          te_epoch_manifest_digest := m, split_manifest_digest := s, issue := iss,
          workspace_snapshot := w, public_reproduction := steps, ceilings := c\<rparr>)))))))))))"

definition assert_task_bound_to_epoch :: "task_envelope \<Rightarrow> research_epoch \<Rightarrow> unit res" where
  "assert_task_bound_to_epoch t e =
     thenE (raise_if (te_contract_version t \<noteq> ep_contract_version e)
       (ValueError ''task and epoch runtime contract versions do not match'')) (
     thenE (raise_if (te_epoch_id t \<noteq> ep_epoch_id e)
       (ValueError ''task epoch_id does not match the pinned research epoch'')) (
     thenE (raise_if (te_epoch_manifest_digest t \<noteq> ep_manifest_digest e)
       (ValueError ''task epoch_manifest_digest does not match the pinned research epoch'')) (
     let expected_split =
       (if te_data_state t = Development then development_split_digest e
        else sealed_confirmation_split_digest e) in
     thenE (raise_if (split_manifest_digest t \<noteq> expected_split)
       (ValueError ''task split_manifest_digest does not match its epoch data state'')) (
     raise_if (\<not> is_within (ceilings t) (per_run_ceilings e))
       (ValueError ''task ceilings exceed the pinned research epoch envelope'')))))"

definition require_supported_capability_epoch :: "string option \<Rightarrow> string res" where
  "require_supported_capability_epoch value =
     (let normalized = py_strip (case value of None \<Rightarrow> [] | Some v \<Rightarrow> v)
      in if normalized = []
         then Inl (ValueError ''an explicit capability epoch is required; generic goals are not promotion-capable'')
         else if normalized \<noteq> ''repo-repair-v1''
         then Inl (ValueError ''unsupported capability epoch; only repo-repair-v1 is supported'')
         else Inr ''repo-repair-v1'')"

section \<open>Payloads determine their models\<close>

lemma map_PStr_eq [simp]: "map PStr xs = map PStr ys \<longleftrightarrow> xs = ys"
  by (simp add: inj_map_eq_map inj_on_def)

lemma map_PInt_eq [simp]: "map PInt xs = map PInt ys \<longleftrightarrow> xs = ys"
  by (simp add: inj_map_eq_map inj_on_def)

lemma map_tool_name_eq [simp]:
  "map (\<lambda>c. PStr (tool_name c)) xs = map (\<lambda>c. PStr (tool_name c)) ys \<longleftrightarrow> xs = ys"
  by (simp add: inj_map_eq_map inj_on_def)

lemma canon_map_PStr [simp]: "map (canon \<circ> PStr) xs = map PStr xs"
  by simp

lemma canon_map_PInt [simp]: "map (canon \<circ> PInt) xs = map PInt xs"
  by simp

lemma canon_map_tool [simp]: "map (canon \<circ> (\<lambda>c. PStr (tool_name c))) xs = map (\<lambda>c. PStr (tool_name c)) xs"
  by simp

lemma canon_map_inject:
  assumes "map (canon \<circ> f) xs = map (canon \<circ> f) ys"
    and "\<And>x y. x \<in> set xs \<Longrightarrow> y \<in> set ys \<Longrightarrow> canon (f x) = canon (f y) \<Longrightarrow> x = y"
  shows "xs = ys"
  using assms by (induction xs ys rule: list_induct2') auto

definition costs_not_nan :: "task_ceilings \<Rightarrow> bool" where
  "costs_not_nan c \<longleftrightarrow> \<not> is_nan (max_known_cost_usd c) \<and> \<not> is_nan (max_estimated_cost_usd c)"

lemma ceilings_payload_inject:
  assumes "canon (ceilings_payload c) = canon (ceilings_payload d)"
    and "costs_not_nan c" and "costs_not_nan d"
  shows "c = d"
  using canon_obj_fields [OF assms(1) [unfolded ceilings_payload_def]] assms(2,3)
  by (simp add: costs_not_nan_def)

lemma workspace_snapshot_payload_inject:
  assumes "canon (workspace_snapshot_payload r) = canon (workspace_snapshot_payload q)"
  shows "r = q"
  using canon_obj_fields [OF assms [unfolded workspace_snapshot_payload_def]] by simp

lemma step_payload_inject:
  assumes "canon (step_payload r) = canon (step_payload q)"
  shows "r = q"
  using canon_obj_fields [OF assms [unfolded step_payload_def]] by simp

lemma task_payload_inject:
  assumes "canon (task_envelope_identity_payload t) = canon (task_envelope_identity_payload u)"
    and "costs_not_nan (ceilings t)" and "costs_not_nan (ceilings u)"
  shows "t\<lparr>task_manifest_digest := d\<rparr> = u\<lparr>task_manifest_digest := d\<rparr>"
  using canon_obj_fields [OF assms(1) [unfolded task_envelope_identity_payload_def]] assms(2,3)
  by (auto dest!: workspace_snapshot_payload_inject ceilings_payload_inject
      canon_map_inject [OF _ step_payload_inject])

section \<open>Validators normalise\<close>

lemma require_digest_Inr [res_simps]:
  "require_digest v n = Inr d \<longleftrightarrow> d = py_lower (py_strip v) \<and> is_digest d"
  by (auto simp: require_digest_def Let_def)

lemma require_nonempty_Inr [res_simps]:
  "require_nonempty v n = Inr s \<longleftrightarrow> s = py_strip v \<and> s \<noteq> []"
  by (auto simp: require_nonempty_def Let_def)

lemma assert_contract_version_Inr [res_simps]:
  "assert_contract_version v = Inr s \<longleftrightarrow> s = py_strip v \<and> s = runtime_contract_version_const"
  by (auto simp: assert_contract_version_def Let_def)

lemma require_gt0_Inr [res_simps]: "require_gt0 v n = Inr u \<longleftrightarrow> 0 < v"
  by (auto simp: require_gt0_def res_simps)

lemma require_ge0_Inr [res_simps]: "require_ge0 v n = Inr u \<longleftrightarrow> 0 \<le> v"
  by (auto simp: require_ge0_def res_simps)

lemma require_float_ge0_Inr [res_simps]: "require_float_ge0 v n = Inr u \<longleftrightarrow> \<not> float_lt v float_zero"
  by (auto simp: require_float_ge0_def res_simps)

lemma validate_argv_Inr [res_simps]:
  "validate_argv v = Inr w \<longleftrightarrow> w = v \<and> v \<noteq> [] \<and> (\<forall>part\<in>set v. py_strip part \<noteq> [])"
  by (auto simp: validate_argv_def list_ex_iff)

lemma validate_expected_exit_codes_Inr [res_simps]:
  "validate_expected_exit_codes v = Inr w \<longleftrightarrow> w = v \<and> v \<noteq> [] \<and> distinct v"
  by (auto simp: validate_expected_exit_codes_def)

lemma digest_normal_form [simp]: "is_digest d \<Longrightarrow> py_lower (py_strip d) = d"
  by (simp add: is_digest_stable)

subsection \<open>Paths\<close>

lemma split_on_ne [simp]: "split_on c s \<noteq> []"
  by (induction s) (auto split: list.splits)

lemma split_on_no_sep: "p \<in> set (split_on c s) \<Longrightarrow> c \<notin> set p"
proof (induction s arbitrary: p)
  case (Cons x xs)
  then show ?case by (cases "split_on c xs") (auto split: if_splits)
qed simp

lemma split_on_append: "c \<notin> set p \<Longrightarrow> split_on c (p @ c # s) = p # split_on c s"
  by (induction p) auto

lemma split_on_single: "c \<notin> set p \<Longrightarrow> split_on c p = [p]"
  by (induction p) auto

lemma split_join:
  "ps \<noteq> [] \<Longrightarrow> \<forall>p\<in>set ps. c \<notin> set p \<Longrightarrow> split_on c (join_with [c] ps) = ps"
  by (induction ps rule: induct_list012) (auto simp: split_on_append split_on_single)

lemma posix_parts_props:
  "p \<in> set (posix_parts s) \<Longrightarrow> p \<noteq> [] \<and> p \<noteq> ''.'' \<and> CHR ''/'' \<notin> set p"
  using split_on_no_sep by (auto simp: posix_parts_def)

lemma posix_parts_join [simp]:
  assumes "posix_parts s \<noteq> []"
  shows "posix_parts (join_with ''/'' (posix_parts s)) = posix_parts s"
proof -
  have "split_on (CHR ''/'') (join_with ''/'' (posix_parts s)) = posix_parts s"
    by (rule split_join) (use assms posix_parts_props in auto)
  then show ?thesis unfolding posix_parts_def [of "join_with ''/'' (posix_parts s)"]
    by (auto simp: filter_id_conv dest: posix_parts_props)
qed

lemma public_relative_path_relative:
  assumes "public_relative_path v n = Inr p"
  shows "\<not> starts_with p ''/'' \<and> ''..'' \<notin> set (posix_parts p)"
proof -
  define s where "s = or_dot (backslash_to_slash (py_strip (or_dot v)))"
  have s: "p = (if posix_parts s = [] then ''.'' else join_with ''/'' (posix_parts s))"
    "''..'' \<notin> set (posix_parts s)"
    using assms by (simp_all add: public_relative_path_def Let_def s_def split: if_splits)
  show ?thesis
  proof (cases "posix_parts s")
    case Nil
    with s show ?thesis by (simp add: posix_parts_def starts_with_def)
  next
    case (Cons q qs)
    then have q: "q \<noteq> []" "CHR ''/'' \<notin> set q" using posix_parts_props [of q s] by auto
    have "\<not> starts_with p ''/''" using s Cons q by (cases q; cases qs) (auto simp: starts_with_def)
    with s Cons posix_parts_join [of s] show ?thesis by simp
  qed
qed

section \<open>Validated tasks\<close>

lemma task_digest_update [simp]:
  "task_envelope_digest sha (t\<lparr>task_manifest_digest := d\<rparr>) = task_envelope_digest sha t"
  by (simp add: task_envelope_digest_def task_envelope_identity_payload_def)

lemma validate_task_Inr:
  "validate_task sha t = Inr u \<longleftrightarrow>
     public_reproduction t \<noteq> [] \<and> distinct (map step_id (public_reproduction t)) \<and>
     allowed_capabilities t = repo_repair_trusted_tool_ids \<and>
     (task_manifest_digest t = [] \<or> task_manifest_digest t = task_envelope_digest sha t) \<and>
     u = t\<lparr>task_manifest_digest := task_envelope_digest sha t\<rparr>"
  by (cases t) (auto simp: validate_task_def Let_def res_simps task_envelope_digest_def
      task_envelope_identity_payload_def)

lemma validated_task_digest:
  assumes "validate_task_envelope sha t = Inr u"
  shows "task_manifest_digest u = task_envelope_digest sha u"
  using assms by (auto simp: validate_task_envelope_def res_simps validate_task_Inr)

lemma validated_task_tools:
  assumes "validate_task_envelope sha t = Inr u"
  shows "allowed_capabilities u = repo_repair_trusted_tool_ids"
  using assms by (auto simp: validate_task_envelope_def res_simps validate_task_Inr)

lemma validate_task_ceilings_Inr:
  "validate_task_ceilings c = Inr d \<Longrightarrow> d = c \<and> 0 < max_model_calls c \<and> 0 < max_artifact_bytes c \<and>
     0 < max_patch_bytes c \<and> provider_deadline_ms c \<le> max_wall_time_ms c"
  by (auto simp: validate_task_ceilings_def validate_deadline_def res_simps)

lemma validated_task_ceilings:
  assumes "validate_task_envelope sha t = Inr u"
  shows "validate_task_ceilings (ceilings u) = Inr (ceilings u)"
proof -
  from assms obtain c where c: "validate_task_ceilings (ceilings t) = Inr c" "ceilings u = c"
    by (auto simp: validate_task_envelope_def res_simps validate_task_Inr)
  then have "c = ceilings t" by (auto dest: validate_task_ceilings_Inr)
  with c show ?thesis by simp
qed

lemma validated_task_steps:
  assumes "validate_task_envelope sha t = Inr u"
  shows "public_reproduction u \<noteq> [] \<and> distinct (map step_id (public_reproduction u))"
  using assms by (auto simp: validate_task_envelope_def res_simps validate_task_Inr)

lemma validated_step_fields:
  assumes "validate_public_reproduction_step s = Inr r"
  shows "step_argv r \<noteq> [] \<and> 0 < step_timeout_ms r \<and> expected_exit_codes r \<noteq> [] \<and>
    \<not> starts_with (step_cwd r) ''/'' \<and> ''..'' \<notin> set (posix_parts (step_cwd r))"
proof -
  from assms have "public_relative_path (step_cwd s) ''public reproduction cwd'' = Inr (step_cwd r)"
    by (auto simp: validate_public_reproduction_step_def res_simps)
  note path = public_relative_path_relative [OF this]
  have "step_argv r \<noteq> [] \<and> 0 < step_timeout_ms r \<and> expected_exit_codes r \<noteq> []"
    using assms by (auto simp: validate_public_reproduction_step_def res_simps)
  with path show ?thesis by blast
qed

lemma validated_task_step_fields:
  assumes "validate_task_envelope sha t = Inr u" and "s \<in> set (public_reproduction u)"
  shows "step_argv s \<noteq> [] \<and> 0 < step_timeout_ms s \<and> expected_exit_codes s \<noteq> [] \<and>
    \<not> starts_with (step_cwd s) ''/'' \<and> ''..'' \<notin> set (posix_parts (step_cwd s))"
proof -
  from assms(1) have "list_all2 (\<lambda>x y. validate_public_reproduction_step x = Inr y)
      (public_reproduction t) (public_reproduction u)"
    by (auto simp: validate_task_envelope_def res_simps validate_task_Inr)
  from list_all2_right [OF this assms(2)] obtain x where "validate_public_reproduction_step x = Inr s"
    by blast
  then show ?thesis by (rule validated_step_fields)
qed

section \<open>Properties\<close>

text \<open>C20: a task manifest digest binds the whole public task: two validated envelopes with the
  same \<open>task_manifest_digest\<close> are equal, or their canonical bytes are a SHA-256 collision.\<close>

theorem task_digest_binds_envelope:
  assumes "validate_task_envelope sha a = Inr t" and "validate_task_envelope sha b = Inr u"
    and same: "task_manifest_digest t = task_manifest_digest u"
    and "costs_not_nan (ceilings t)" and "costs_not_nan (ceilings u)"
    and "length (encode (task_envelope_identity_payload t)) < 2 ^ 64"
    and "length (encode (task_envelope_identity_payload u)) < 2 ^ 64"
  shows "t = u \<or> sha_collision sha (domain_payload ''task'' (task_envelope_identity_payload t))
    (domain_payload ''task'' (task_envelope_identity_payload u))"
proof -
  have "task_envelope_digest sha t = task_envelope_digest sha u"
    using same validated_task_digest [OF assms(1)] validated_task_digest [OF assms(2)] by simp
  then have "identity_digest sha ''task'' (task_envelope_identity_payload t) =
      identity_digest sha ''task'' (task_envelope_identity_payload u)"
    by (simp add: task_envelope_digest_def task_digest_def)
  from identity_digest_binds [OF _ _ assms(6,7) this]
  consider "canon (task_envelope_identity_payload t) = canon (task_envelope_identity_payload u)"
    | "sha_collision sha (domain_payload ''task'' (task_envelope_identity_payload t))
        (domain_payload ''task'' (task_envelope_identity_payload u))" by auto
  then show ?thesis
  proof cases
    case 1
    from task_payload_inject [OF this assms(4,5), of "task_manifest_digest u"] same
    have "t = u" by (metis task_envelope.surjective task_envelope.update_convs(3))
    then show ?thesis ..
  qed simp
qed

definition sample_ceilings :: task_ceilings where
  "sample_ceilings = \<lparr>max_model_calls = 4, max_input_tokens = 1000, max_output_tokens = 500,
     max_cached_tokens = 100, max_cache_write_tokens = 100, max_tool_calls = 10,
     max_tool_output_bytes = 4096, max_artifact_bytes = 2048, max_patch_bytes = 2048,
     max_retries = 1, max_wall_time_ms = 60000, provider_deadline_ms = 30000,
     max_known_cost_usd = PyFloat False 1023 0, max_estimated_cost_usd = PyFloat False 1024 0\<rparr>"

definition sample_digest :: string where
  "sample_digest = replicate 64 (CHR ''a'')"

definition sample_task_of :: "string \<Rightarrow> task_envelope" where
  "sample_task_of body = \<lparr>te_contract_version = ''0.1.0'', task_manifest_id = ''task-1'',
     task_manifest_digest = [], te_epoch_id = ''epoch-1'', te_epoch_manifest_digest = sample_digest,
     te_data_state = Development, split_manifest_digest = sample_digest, issue = body,
     workspace_snapshot = \<lparr>snapshot_id = ''snap'', snapshot_uri = ''file:snap'',
       snapshot_digest = sample_digest\<rparr>,
     public_reproduction = [\<lparr>step_id = ''repro'', step_argv = [''pytest'', ''-q''], step_cwd = ''.'',
       step_timeout_ms = 1000, expected_exit_codes = [0]\<rparr>],
     allowed_capabilities = repo_repair_trusted_tool_ids, ceilings = sample_ceilings\<rparr>"

definition zero_sha :: sha256 where
  "zero_sha = (\<lambda>_. 0)"

abbreviation sample_task :: task_envelope where
  "sample_task \<equiv> sample_task_of ''fix the bug''"

definition sample_task_validated :: "string \<Rightarrow> task_envelope" where
  "sample_task_validated body = (sample_task_of body)\<lparr>task_manifest_digest := replicate 64 (CHR ''0'')\<rparr>"

lemma hexdigest_zero [simp]: "hexdigest 0 = replicate 64 (CHR ''0'')"
proof -
  have "hex_char 0 = CHR ''0''" by code_simp
  then show ?thesis by (simp add: hexdigest_def hex_digits_def map_replicate_const)
qed

lemma zero_sha_digest [simp]: "identity_digest zero_sha d v = replicate 64 (CHR ''0'')"
  by (simp add: identity_digest_def zero_sha_def)

lemma sample_task_digest [simp]: "task_envelope_digest zero_sha t = replicate 64 (CHR ''0'')"
  by (simp add: task_envelope_digest_def task_digest_def)

lemma sample_ceilings_valid [simp]: "validate_task_ceilings sample_ceilings = Inr sample_ceilings"
  by code_simp

lemma sample_digest_valid: "py_lower (py_strip sample_digest) = sample_digest \<and> is_digest sample_digest"
  by code_simp

lemma sample_task_validates:
  assumes "require_nonempty body ''issue'' = Inr body"
    and "task_envelope_digest sha (sample_task_of body) = replicate 64 (CHR ''0'')"
    and "d = [] \<or> d = replicate 64 (CHR ''0'')"
  shows "validate_task_envelope sha ((sample_task_of body)\<lparr>task_manifest_digest := d\<rparr>) = Inr (sample_task_validated body)"
proof -
  let ?t = "(sample_task_of body)\<lparr>task_manifest_digest := d\<rparr>"
  have v: "?t\<lparr>task_manifest_digest := task_envelope_digest sha ?t\<rparr> = sample_task_validated body"
    using assms(2) by (simp add: sample_task_validated_def)
  have same: "?t\<lparr>te_epoch_manifest_digest := sample_digest, split_manifest_digest := sample_digest,
      ceilings := sample_ceilings\<rparr> = ?t"
    by (simp add: sample_task_of_def)
  have parts: "validate_workspace_snapshot_ref (workspace_snapshot sample_task) =
      Inr (workspace_snapshot sample_task)"
    "mapE validate_public_reproduction_step (public_reproduction sample_task) =
      Inr (public_reproduction sample_task)"
    "assert_contract_version (te_contract_version sample_task) = Inr (te_contract_version sample_task)"
    "require_nonempty (task_manifest_id sample_task) ''task_manifest_id'' = Inr (task_manifest_id sample_task)"
    "require_nonempty (te_epoch_id sample_task) ''epoch_id'' = Inr (te_epoch_id sample_task)"
    by code_simp+
  have fields: "workspace_snapshot ?t = workspace_snapshot sample_task"
    "public_reproduction ?t = public_reproduction sample_task"
    "te_contract_version ?t = te_contract_version sample_task"
    "task_manifest_id ?t = task_manifest_id sample_task" "te_epoch_id ?t = te_epoch_id sample_task"
    "te_epoch_manifest_digest ?t = sample_digest" "split_manifest_digest ?t = sample_digest"
    "ceilings ?t = sample_ceilings" "issue ?t = body"
    by (simp_all add: sample_task_of_def)
  have dg: "require_digest sample_digest n = Inr sample_digest" for n
    using sample_digest_valid by (simp add: res_simps)
  have "validate_task sha ?t = Inr (sample_task_validated body)"
  proof -
    have "d = [] \<or> d = task_envelope_digest sha ?t" using assms(2,3) by simp
    moreover have "task_manifest_digest ?t = d" by simp
    moreover have "public_reproduction ?t \<noteq> []" "distinct (map step_id (public_reproduction ?t))"
      "allowed_capabilities ?t = repo_repair_trusted_tool_ids" by (simp_all add: sample_task_of_def)
    ultimately show ?thesis unfolding validate_task_Inr v by simp
  qed
  moreover have "?t\<lparr>te_contract_version := te_contract_version ?t, task_manifest_id := task_manifest_id ?t,
      te_epoch_id := te_epoch_id ?t, te_epoch_manifest_digest := te_epoch_manifest_digest ?t,
      split_manifest_digest := split_manifest_digest ?t, issue := issue ?t,
      workspace_snapshot := workspace_snapshot ?t, public_reproduction := public_reproduction ?t,
      ceilings := ceilings ?t\<rparr> = ?t" by simp
  ultimately show ?thesis using parts assms(1)
    by (simp only: validate_task_envelope_def fields parts dg sample_ceilings_valid bindE_simps validated_simps)
qed

lemma sample_task_valid:
  "require_nonempty body ''issue'' = Inr body \<Longrightarrow>
     validate_task_envelope zero_sha (sample_task_of body) = Inr (sample_task_validated body)"
  using sample_task_validates [of body zero_sha "[]"] by (simp add: sample_task_of_def)

theorem task_digest_binds_envelope_witness:
  "sha_collision zero_sha
     (domain_payload ''task'' (task_envelope_identity_payload (sample_task_validated ''fix the bug'')))
     (domain_payload ''task'' (task_envelope_identity_payload (sample_task_validated ''other'')))"
proof -
  have "sample_task_validated ''fix the bug'' \<noteq> sample_task_validated ''other''"
    by (simp add: sample_task_validated_def sample_task_of_def)
  moreover have "require_nonempty ''fix the bug'' ''issue'' = Inr ''fix the bug''"
    "require_nonempty ''other'' ''issue'' = Inr ''other''" by code_simp+
  moreover have "costs_not_nan (ceilings (sample_task_validated body))" for body
    by (simp add: costs_not_nan_def sample_task_validated_def sample_task_of_def sample_ceilings_def is_nan_def)
  moreover have "length (encode (task_envelope_identity_payload (sample_task_validated ''fix the bug''))) < 2 ^ 64"
    "length (encode (task_envelope_identity_payload (sample_task_validated ''other''))) < 2 ^ 64"
    by (rule encode_small, simp add: sample_task_validated_def sample_task_of_def sample_ceilings_def
        sample_digest_def task_envelope_identity_payload_def ceilings_payload_def
        workspace_snapshot_payload_def step_payload_def obj_def repo_repair_trusted_tool_ids_def
        show_int_def show_nat.simps)+
  ultimately show ?thesis
    using task_digest_binds_envelope [OF sample_task_valid sample_task_valid, of "''fix the bug''" "''other''"]
    by (simp add: sample_task_validated_def)
qed

lemma validated_epoch_facts:
  assumes "validate_research_epoch sha m = Inr e"
  shows "development_split_digest e \<noteq> sealed_confirmation_split_digest e"
    and "ep_manifest_digest e = research_epoch_manifest_digest sha e"
proof -
  have d: "research_epoch_manifest_digest sha (x\<lparr>ep_manifest_digest := y\<rparr>) = research_epoch_manifest_digest sha x" for x y
    by (simp add: research_epoch_manifest_digest_def research_epoch_identity_payload_def)
  from assms obtain x where x: "validate_epoch sha x = Inr e"
    by (auto simp: validate_research_epoch_def res_simps)
  then show "development_split_digest e \<noteq> sealed_confirmation_split_digest e"
    "ep_manifest_digest e = research_epoch_manifest_digest sha e"
    by (auto simp: validate_epoch_def Let_def res_simps d split: if_splits)
qed

lemma assert_task_bound_Inr:
  "assert_task_bound_to_epoch t e = Inr u \<longleftrightarrow>
     te_contract_version t = ep_contract_version e \<and> te_epoch_id t = ep_epoch_id e \<and>
     te_epoch_manifest_digest t = ep_manifest_digest e \<and>
     split_manifest_digest t = (if te_data_state t = Development then development_split_digest e
       else sealed_confirmation_split_digest e) \<and>
     is_within (ceilings t) (per_run_ceilings e)"
  by (auto simp: assert_task_bound_to_epoch_def Let_def res_simps)

text \<open>C21: tasks bound to one validated epoch stay in its envelope, carry its manifest digest, and
  a development task never shares its split digest with a sealed-confirmation task.\<close>

theorem bound_tasks_keep_splits_apart:
  assumes "validate_research_epoch sha m = Inr e"
    and "assert_task_bound_to_epoch t e = Inr ()" and "assert_task_bound_to_epoch u e = Inr ()"
  shows "(te_data_state t \<noteq> te_data_state u \<longrightarrow> split_manifest_digest t \<noteq> split_manifest_digest u) \<and>
    te_epoch_manifest_digest t = research_epoch_manifest_digest sha e \<and>
    is_within (ceilings t) (per_run_ceilings e)"
  using assms(2,3) validated_epoch_facts [OF assms(1)]
  by (cases "te_data_state t"; cases "te_data_state u") (simp_all add: assert_task_bound_Inr)

definition sample_epoch :: research_epoch where
  "sample_epoch = \<lparr>ep_contract_version = ''0.1.0'', ep_epoch_id = ''epoch-1'', ep_manifest_digest = [],
     data_states = [Development, SealedConfirmation], ep_task_manifest_digest = sample_digest,
     development_split_digest = sample_digest,
     sealed_confirmation_split_digest = replicate 64 (CHR ''b''),
     deployment = \<lparr>deployment_id = ''d'', dep_provider = ''p'', dep_model = ''m'',
       dep_provider_config_digest = sample_digest, dep_decoding_policy_digest = sample_digest,
       dep_price_schedule_digest = sample_digest,
       dep_command_container_policy_digest = sample_digest\<rparr>,
     per_run_ceilings = sample_ceilings,
     search_env = \<lparr>env_strategy = OnePlusLambda, max_steps = 1, offspring_per_step = 1,
       sampling_replicates = 1, task_panel_digest = sample_digest\<rparr>,
     ep_trusted_tools = map (\<lambda>t. \<lparr>auth_tool_id = t, auth_implementation_digest = sample_digest,
       auth_policy_digest = sample_digest\<rparr>) repo_repair_trusted_tool_ids,
     mutation_surface = repo_repair_mutation_fields,
     ep_promotion_margins = \<lparr>minimum_complete_repair_gain = 1, minimum_paired_receipts = 1,
       maximum_pair_regressions = 0\<rparr>,
     ep_stop_rule = \<lparr>max_candidate_evaluations = 4, max_consecutive_non_improving_steps = 2\<rparr>,
     ep_evaluator_authority = \<lparr>ev_evaluator_id = ''e'', ev_identity_digest = sample_digest,
       ev_policy_digest = sample_digest\<rparr>\<rparr>"

definition sample_epoch_validated :: research_epoch where
  "sample_epoch_validated = sample_epoch\<lparr>ep_manifest_digest := replicate 64 (CHR ''0'')\<rparr>"

lemma sample_epoch_valid: "validate_research_epoch zero_sha sample_epoch = Inr sample_epoch_validated"
proof -
  let ?e = sample_epoch
  have parts: "assert_contract_version (ep_contract_version ?e) = Inr (ep_contract_version ?e)"
    "require_nonempty (ep_epoch_id ?e) ''epoch_id'' = Inr (ep_epoch_id ?e)"
    "require_digest (ep_task_manifest_digest ?e) ''task_manifest_digest'' = Inr (ep_task_manifest_digest ?e)"
    "require_digest (development_split_digest ?e) ''development_split_digest'' = Inr (development_split_digest ?e)"
    "require_digest (sealed_confirmation_split_digest ?e) ''sealed_confirmation_split_digest'' =
      Inr (sealed_confirmation_split_digest ?e)"
    "validate_deployment_identity (deployment ?e) = Inr (deployment ?e)"
    "validate_search_envelope (search_env ?e) = Inr (search_env ?e)"
    "mapE validate_trusted_tool_authority (ep_trusted_tools ?e) = Inr (ep_trusted_tools ?e)"
    "validate_promotion_margins (ep_promotion_margins ?e) = Inr (ep_promotion_margins ?e)"
    "validate_stop_rule (ep_stop_rule ?e) = Inr (ep_stop_rule ?e)"
    "validate_evaluator_authority (ep_evaluator_authority ?e) = Inr (ep_evaluator_authority ?e)"
    by code_simp+
  have ceil: "validate_task_ceilings (per_run_ceilings ?e) = Inr (per_run_ceilings ?e)"
    by (simp add: sample_epoch_def)
  have dg: "research_epoch_manifest_digest zero_sha ?e = replicate 64 (CHR ''0'')"
    by (simp add: research_epoch_manifest_digest_def)
  have "development_split_digest ?e \<noteq> sealed_confirmation_split_digest ?e" by code_simp
  moreover have "map auth_tool_id (ep_trusted_tools ?e) = repo_repair_trusted_tool_ids" by code_simp
  moreover have "distinct (mutation_surface ?e)" "subset_list (mutation_surface ?e) repo_repair_mutation_fields"
    "mutation_surface ?e \<noteq> []" by code_simp+
  ultimately have "validate_epoch zero_sha ?e = Inr sample_epoch_validated"
    by (simp add: validate_epoch_def dg sample_epoch_validated_def)
       (simp add: sample_epoch_def)
  moreover have "?e\<lparr>ep_contract_version := ep_contract_version ?e, ep_epoch_id := ep_epoch_id ?e,
      ep_task_manifest_digest := ep_task_manifest_digest ?e,
      development_split_digest := development_split_digest ?e,
      sealed_confirmation_split_digest := sealed_confirmation_split_digest ?e,
      deployment := deployment ?e, per_run_ceilings := per_run_ceilings ?e, search_env := search_env ?e,
      ep_trusted_tools := ep_trusted_tools ?e, ep_promotion_margins := ep_promotion_margins ?e,
      ep_stop_rule := ep_stop_rule ?e, ep_evaluator_authority := ep_evaluator_authority ?e\<rparr> = ?e" by simp
  ultimately show ?thesis
    by (simp only: validate_research_epoch_def parts ceil bindE_simps validated_simps)
qed

definition sample_bound_task :: "data_state \<Rightarrow> task_envelope" where
  "sample_bound_task d = (sample_task_of ''fix the bug'')
     \<lparr>te_epoch_manifest_digest := replicate 64 (CHR ''0''), te_data_state := d,
      split_manifest_digest := (if d = Development then sample_digest else replicate 64 (CHR ''b''))\<rparr>"

theorem bound_tasks_keep_splits_apart_witness:
  "split_manifest_digest (sample_bound_task Development) \<noteq>
     split_manifest_digest (sample_bound_task SealedConfirmation)"
proof -
  have w: "is_within sample_ceilings sample_ceilings"
    by (simp add: is_within_def float_le_def is_nan_def sample_ceilings_def)
  have b: "assert_task_bound_to_epoch (sample_bound_task d) sample_epoch_validated = Inr ()" for d
    using w by (cases d) (simp_all add: assert_task_bound_Inr sample_bound_task_def sample_task_of_def
        sample_epoch_validated_def sample_epoch_def)
  from bound_tasks_keep_splits_apart [OF sample_epoch_valid b b, of Development SealedConfirmation]
  show ?thesis by (simp add: sample_bound_task_def)
qed

text \<open>A working directory is never normalised to an absolute path or one with a \<open>..\<close>
  component; but the normal form is not stable: the directory \<open>./ a\<close> becomes \<open> a\<close>, which a
  second validation of the same model turns into \<open>a\<close>.\<close>

theorem working_directory_normal_form:
  "(\<forall>v n p. public_relative_path v n = Inr p \<longrightarrow> \<not> starts_with p ''/'' \<and> ''..'' \<notin> set (posix_parts p)) \<and>
   public_relative_path ''./ a'' ''cwd'' = Inr '' a'' \<and> public_relative_path '' a'' ''cwd'' = Inr ''a''"
proof (intro conjI allI impI)
  show "public_relative_path ''./ a'' ''cwd'' = Inr '' a''" by code_simp
  show "public_relative_path '' a'' ''cwd'' = Inr ''a''" by code_simp
qed (use public_relative_path_relative in blast)+

theorem working_directory_normal_form_witness:
  "''..'' \<notin> set (posix_parts ''sub/dir'')"
proof -
  have "public_relative_path ''./sub//dir'' ''cwd'' = Inr ''sub/dir''" by code_simp
  with working_directory_normal_form show ?thesis by blast
qed

end
