(* ===== verification/Harness.thy ===== *)
theory Harness
  imports Epochs
begin

text \<open>
  The harness contracts (\<open>contracts/harness.py\<close>): the collaboration protocol (actors, artifact
  channels, one optional revision, termination), the pinned runtime dependencies, the compiler
  metadata and the compiled run plan, each with its validators and its identity payload.
  \<open>HarnessContractModel\<close> trims every string field before its validators run. A compiled plan is
  built from identifiers of a validated protocol, which hold no white space, so trimming is
  written out only where free text or task text enters a plan. The main results: a validated
  protocol is a fixed point of validation, its well-formedness is the list of invariants in
  \<open>protocol_ok\<close>, and its source digest binds the whole protocol.
\<close>

section \<open>Identifiers\<close>

definition ident_char :: "char \<Rightarrow> bool" where
  "ident_char c \<longleftrightarrow> is_lower c \<or> is_digit c \<or> c \<in> {CHR ''_'', CHR ''.'', CHR ''-''}"

text \<open>The pattern \<open>[a-z][a-z0-9_.-]{0,n}\<close>.\<close>

definition is_identifier :: "nat \<Rightarrow> string \<Rightarrow> bool" where
  "is_identifier n s \<longleftrightarrow> s \<noteq> [] \<and> is_lower (hd s) \<and> list_all ident_char (tl s) \<and> length s \<le> Suc n"

definition require_identifier :: "string \<Rightarrow> string \<Rightarrow> string res" where
  "require_identifier value field_name =
     (let normalized = py_strip value
      in if is_identifier 63 normalized then Inr normalized
         else Inl (ValueError (field_name @
           '' must start with a lowercase letter and contain only lowercase letters, digits, '.', '_', or '-' '')))"

section \<open>The protocol\<close>

datatype task_view_field = ViewIssue | ViewWorkspace | ViewPublicReproduction | ViewSessionCarryover

fun view_name :: "task_view_field \<Rightarrow> string" where
  "view_name ViewIssue = ''issue''"
| "view_name ViewWorkspace = ''workspace''"
| "view_name ViewPublicReproduction = ''public_reproduction''"
| "view_name ViewSessionCarryover = ''session_public_carryover''"

lemma view_name_inject [simp]: "view_name a = view_name b \<longleftrightarrow> a = b"
  by (cases a; cases b) simp_all

record harness_actor =
  act_id :: string
  task_view :: "task_view_field list"
  instruction :: string
  tool_ids :: "tool_id list"
  budget_share_bps :: int

definition require_min_length1 :: "'a list \<Rightarrow> string \<Rightarrow> unit res" where
  "require_min_length1 xs field_name = raise_if (xs = []) (ValueError (field_name @ '' too_short''))"

definition validate_task_view :: "task_view_field list \<Rightarrow> task_view_field list res" where
  "validate_task_view value =
     (if \<not> distinct value then Inl (ValueError ''task_view may not contain duplicate fields'')
      else Inr value)"

definition validate_tool_ids :: "tool_id list \<Rightarrow> tool_id list res" where
  "validate_tool_ids value =
     (if \<not> distinct value then Inl (ValueError ''tool_ids may not contain duplicates'')
      else Inr (sort value))"

definition require_share :: "int \<Rightarrow> unit res" where
  "require_share bps =
     raise_if (bps \<le> 0 \<or> bps > 10000) (ValueError ''budget_share_bps out of range'')"

definition validate_harness_actor :: "harness_actor \<Rightarrow> harness_actor res" where
  "validate_harness_actor a = validated (
     bindE (require_identifier (py_trim (act_id a)) ''actor_id'') (\<lambda>i.
     thenE (require_min_length1 (task_view a) ''task_view'') (
     bindE (validate_task_view (task_view a)) (\<lambda>view.
     let instr = py_trim (instruction a) in
     thenE (require_min_length1 instr ''instruction'') (
     thenE (require_min_length1 (tool_ids a) ''tool_ids'') (
     bindE (validate_tool_ids (tool_ids a)) (\<lambda>tools.
     thenE (require_share (budget_share_bps a)) (
     Inr (a\<lparr>act_id := i, task_view := view, instruction := instr, tool_ids := tools\<rparr>)))))))))"

record channel =
  channel_id :: string
  producer_actor_id :: string
  consumer_actor_id :: string

definition validate_channel :: "channel \<Rightarrow> channel res" where
  "validate_channel c = validated (
     bindE (require_identifier (py_trim (channel_id c)) ''channel_id'') (\<lambda>i.
     bindE (require_identifier (py_trim (producer_actor_id c)) ''producer_actor_id'') (\<lambda>p.
     bindE (require_identifier (py_trim (consumer_actor_id c)) ''consumer_actor_id'') (\<lambda>q.
     thenE (raise_if (p = q) (ValueError ''artifact channels must connect two different actors'')) (
     Inr \<lparr>channel_id = i, producer_actor_id = p, consumer_actor_id = q\<rparr>)))))"

record harness_revision =
  rev_actor_id :: string
  feedback_channel_id :: string
  rev_instruction :: string

definition validate_revision :: "harness_revision \<Rightarrow> harness_revision res" where
  "validate_revision r = validated (
     bindE (require_identifier (py_trim (rev_actor_id r)) ''actor_id'') (\<lambda>i.
     bindE (require_identifier (py_trim (feedback_channel_id r)) ''feedback_channel_id'') (\<lambda>c.
     let instr = py_trim (rev_instruction r) in
     thenE (require_min_length1 instr ''instruction'') (
     Inr \<lparr>rev_actor_id = i, feedback_channel_id = c, rev_instruction = instr\<rparr>))))"

record harness_termination =
  final_actor_id :: string

definition validate_termination :: "harness_termination \<Rightarrow> harness_termination res" where
  "validate_termination t = validated (
     bindE (require_identifier (py_trim (final_actor_id t)) ''final_actor_id'') (\<lambda>i.
     Inr \<lparr>final_actor_id = i\<rparr>))"

record harness_protocol =
  actors :: "harness_actor list"
  artifact_channels :: "channel list"
  revision :: "harness_revision option"
  protocol_termination :: harness_termination

abbreviation actor_ids :: "harness_protocol \<Rightarrow> string list" where
  "actor_ids p \<equiv> map act_id (actors p)"

abbreviation channel_ids :: "harness_protocol \<Rightarrow> string list" where
  "channel_ids p \<equiv> map channel_id (artifact_channels p)"

abbreviation final_actor :: "harness_protocol \<Rightarrow> string" where
  "final_actor p \<equiv> final_actor_id (protocol_termination p)"

definition find_channel :: "string \<Rightarrow> channel list \<Rightarrow> channel option" where
  "find_channel k cs = find (\<lambda>c. channel_id c = k) cs"

text \<open>The reference checks of the revision. In the code \<open>channels\<close> is a dict built from the
  list; its keys are unique here, so a lookup finds the first channel with that id.\<close>

definition validate_revision_refs :: "harness_protocol \<Rightarrow> harness_revision \<Rightarrow> unit res" where
  "validate_revision_refs p r =
     thenE (raise_if (rev_actor_id r \<noteq> final_actor p)
       (ValueError ''the one revising actor must also be the final actor'')) (
     case find_channel (feedback_channel_id r) (artifact_channels p) of
       None \<Rightarrow> Inl (ValueError ''revision.feedback_channel_id must reference a channel'')
     | Some feedback \<Rightarrow>
         raise_if (consumer_actor_id feedback \<noteq> rev_actor_id r)
           (ValueError ''the revision feedback channel must be delivered to the revising actor''))"

definition validate_protocol :: "harness_protocol \<Rightarrow> unit res" where
  "validate_protocol p =
     thenE (raise_if (\<not> distinct (actor_ids p)) (ValueError ''actor_id values must be unique'')) (
     thenE (raise_if (sum_list (map budget_share_bps (actors p)) \<noteq> 10000)
       (ValueError ''actor budget_share_bps values must sum to 10000'')) (
     thenE (raise_if (final_actor p \<notin> set (actor_ids p))
       (ValueError ''termination.final_actor_id must reference an actor'')) (
     thenE (raise_if (\<not> distinct (channel_ids p)) (ValueError ''channel_id values must be unique'')) (
     thenE (forE (\<lambda>c.
         thenE (raise_if (producer_actor_id c \<notin> set (actor_ids p))
           (ValueError ''channel references an unknown producer actor''))
         (raise_if (consumer_actor_id c \<notin> set (actor_ids p))
           (ValueError ''channel references an unknown consumer actor'')))
       (artifact_channels p)) (
     case revision p of None \<Rightarrow> Inr () | Some r \<Rightarrow> validate_revision_refs p r)))))"

definition validate_harness_protocol :: "harness_protocol \<Rightarrow> harness_protocol res" where
  "validate_harness_protocol p = validated (
     thenE (require_min_length1 (actors p) ''actors'') (
     bindE (mapE validate_harness_actor (actors p)) (\<lambda>as.
     bindE (mapE validate_channel (artifact_channels p)) (\<lambda>cs.
     bindE (optE validate_revision (revision p)) (\<lambda>r.
     bindE (validate_termination (protocol_termination p)) (\<lambda>t.
     let q = \<lparr>actors = as, artifact_channels = cs, revision = r, protocol_termination = t\<rparr> in
     thenE (validate_protocol q) (Inr q)))))))"

subsection \<open>Identity of a protocol\<close>

definition actor_payload :: "harness_actor \<Rightarrow> pyval" where
  "actor_payload a = obj
     [(''actor_id'', PStr (act_id a)),
      (''task_view'', PList (map (\<lambda>v. PStr (view_name v)) (task_view a))),
      (''instruction'', PStr (instruction a)),
      (''tool_ids'', PList (map (\<lambda>t. PStr (tool_name t)) (tool_ids a))),
      (''budget_share_bps'', PInt (budget_share_bps a))]"

definition channel_payload :: "channel \<Rightarrow> pyval" where
  "channel_payload c = obj
     [(''channel_id'', PStr (channel_id c)), (''producer_actor_id'', PStr (producer_actor_id c)),
      (''consumer_actor_id'', PStr (consumer_actor_id c)), (''payload_kind'', PStr ''text'')]"

definition revision_payload :: "harness_revision \<Rightarrow> pyval" where
  "revision_payload r = obj
     [(''actor_id'', PStr (rev_actor_id r)),
      (''feedback_channel_id'', PStr (feedback_channel_id r)),
      (''instruction'', PStr (rev_instruction r))]"

definition termination_payload :: "harness_termination \<Rightarrow> pyval" where
  "termination_payload t = obj [(''final_actor_id'', PStr (final_actor_id t))]"

definition source_payload :: "harness_protocol \<Rightarrow> pyval" where
  "source_payload p = obj
     ([(''schema_version'', PStr ''repo-repair-harness-v1''),
       (''actors'', PList (map actor_payload (actors p))),
       (''artifact_channels'', PList (map channel_payload (artifact_channels p)))] @
      (case revision p of None \<Rightarrow> [] | Some r \<Rightarrow> [(''revision'', revision_payload r)]) @
      [(''termination'', termination_payload (protocol_termination p))])"

definition source_digest :: "sha256 \<Rightarrow> harness_protocol \<Rightarrow> string" where
  "source_digest sha p = protocol_digest sha (source_payload p)"

definition actor_prefix :: "string \<Rightarrow> string" where
  "actor_prefix i = ''actors['' @ i @ '']''"

definition channel_prefix :: "string \<Rightarrow> string" where
  "channel_prefix i = ''artifact_channels['' @ i @ '']''"

definition mutable_field_paths :: "harness_protocol \<Rightarrow> string list" where
  "mutable_field_paths p =
     concat (map (\<lambda>a.
       [actor_prefix (act_id a) @ ''.task_view'', actor_prefix (act_id a) @ ''.instruction'',
        actor_prefix (act_id a) @ ''.tool_ids'', actor_prefix (act_id a) @ ''.budget_share_bps''])
       (actors p)) @
     concat (map (\<lambda>c.
       [channel_prefix (channel_id c) @ ''.producer_actor_id'',
        channel_prefix (channel_id c) @ ''.consumer_actor_id''])
       (artifact_channels p)) @
     (case revision p of None \<Rightarrow> []
      | Some _ \<Rightarrow> [''revision.actor_id'', ''revision.feedback_channel_id'', ''revision.instruction'']) @
     [''termination.final_actor_id'']"

definition source_field_digest :: "sha256 \<Rightarrow> pyval \<Rightarrow> string" where
  "source_field_digest sha v = identity_digest sha ''harness-source-field'' v"

section \<open>Runtime dependencies and compiler metadata\<close>

record dependency_ref =
  dependency_id :: string
  dr_interface_version :: string
  dr_implementation_digest :: string

definition validate_dependency_ref :: "dependency_ref \<Rightarrow> dependency_ref res" where
  "validate_dependency_ref d = validated (
     bindE (require_identifier (py_trim (dependency_id d)) ''dependency_id'') (\<lambda>i.
     let v = py_trim (dr_interface_version d) in
     thenE (require_min_length1 v ''interface_version'') (
     bindE (require_digest (py_trim (dr_implementation_digest d)) ''implementation_digest'') (\<lambda>g.
     Inr \<lparr>dependency_id = i, dr_interface_version = v, dr_implementation_digest = g\<rparr>))))"

definition dependency_ref_payload :: "dependency_ref \<Rightarrow> pyval" where
  "dependency_ref_payload d = obj
     [(''dependency_id'', PStr (dependency_id d)),
      (''interface_version'', PStr (dr_interface_version d)),
      (''implementation_digest'', PStr (dr_implementation_digest d))]"

record trusted_tool_dependency =
  tt_tool_id :: tool_id
  tt_interface_version :: string
  tt_implementation_digest :: string
  tt_policy_digest :: string

definition validate_trusted_tool_dependency :: "trusted_tool_dependency \<Rightarrow> trusted_tool_dependency res" where
  "validate_trusted_tool_dependency d = validated (
     let v = py_trim (tt_interface_version d) in
     thenE (require_min_length1 v ''interface_version'') (
     bindE (require_digest (py_trim (tt_implementation_digest d)) ''implementation_digest'') (\<lambda>i.
     bindE (require_digest (py_trim (tt_policy_digest d)) ''policy_digest'') (\<lambda>p.
     Inr (d\<lparr>tt_interface_version := v, tt_implementation_digest := i, tt_policy_digest := p\<rparr>)))))"

definition trusted_tool_dependency_payload :: "trusted_tool_dependency \<Rightarrow> pyval" where
  "trusted_tool_dependency_payload d = obj
     [(''tool_id'', PStr (tool_name (tt_tool_id d))),
      (''interface_version'', PStr (tt_interface_version d)),
      (''implementation_digest'', PStr (tt_implementation_digest d)),
      (''policy_digest'', PStr (tt_policy_digest d))]"

record dependency_manifest =
  dm_contract_version :: string
  dm_compiler :: dependency_ref
  dm_harness_contract :: dependency_ref
  dm_kernel :: dependency_ref
  trusted_tools :: "trusted_tool_dependency list"

definition validate_dependency_manifest :: "dependency_manifest \<Rightarrow> dependency_manifest res" where
  "validate_dependency_manifest m = validated (
     bindE (validate_dependency_ref (dm_compiler m)) (\<lambda>c.
     bindE (validate_dependency_ref (dm_harness_contract m)) (\<lambda>h.
     bindE (validate_dependency_ref (dm_kernel m)) (\<lambda>k.
     bindE (mapE validate_trusted_tool_dependency (trusted_tools m)) (\<lambda>ts.
     thenE (raise_if (\<not> distinct (map tt_tool_id ts))
       (ValueError ''trusted tool dependencies must have unique tool_id values'')) (
     thenE (raise_if (\<not> sorted (map tt_tool_id ts))
       (ValueError ''trusted tool dependencies must be sorted by tool_id'')) (
     Inr \<lparr>dm_contract_version = py_trim (dm_contract_version m), dm_compiler = c,
       dm_harness_contract = h, dm_kernel = k, trusted_tools = ts\<rparr>)))))))"

definition dependency_manifest_payload :: "dependency_manifest \<Rightarrow> pyval" where
  "dependency_manifest_payload m = obj
     [(''schema_version'', PStr ''repo-repair-runtime-dependencies-v1''),
      (''runtime_contract_version'', PStr (dm_contract_version m)),
      (''compiler'', dependency_ref_payload (dm_compiler m)),
      (''harness_contract'', dependency_ref_payload (dm_harness_contract m)),
      (''kernel'', dependency_ref_payload (dm_kernel m)),
      (''trusted_tools'', PList (map trusted_tool_dependency_payload (trusted_tools m)))]"

definition manifest_digest :: "sha256 \<Rightarrow> dependency_manifest \<Rightarrow> string" where
  "manifest_digest sha m = identity_digest sha ''runtime-dependency-manifest'' (dependency_manifest_payload m)"

record seed_reference =
  seed_id :: string
  resource_path :: string
  seed_source_digest :: string

record compiler_metadata =
  compiler_id :: string
  compiler_version :: string
  harness_contract_id :: string
  required_kernel_capabilities :: "string list"
  md_trusted_tool_ids :: "tool_id list"
  canonical_seed :: seed_reference

definition validate_seed_reference :: "seed_reference \<Rightarrow> seed_reference res" where
  "validate_seed_reference s = validated (
     bindE (require_identifier (py_trim (seed_id s)) ''seed_id'') (\<lambda>i.
     let p = py_trim (resource_path s) in
     thenE (require_min_length1 p ''resource_path'') (
     bindE (require_digest (py_trim (seed_source_digest s)) ''source_protocol_digest'') (\<lambda>d.
     Inr \<lparr>seed_id = i, resource_path = p, seed_source_digest = d\<rparr>))))"

definition validate_compiler_metadata :: "compiler_metadata \<Rightarrow> compiler_metadata res" where
  "validate_compiler_metadata m = validated (
     bindE (require_identifier (py_trim (compiler_id m)) ''compiler_id'') (\<lambda>i.
     let v = py_trim (compiler_version m); caps = map py_trim (required_kernel_capabilities m) in
     thenE (require_min_length1 v ''compiler_version'') (
     bindE (require_identifier (py_trim (harness_contract_id m)) ''harness_contract_id'') (\<lambda>h.
     thenE (require_min_length1 caps ''required_kernel_capabilities'') (
     bindE (validate_seed_reference (canonical_seed m)) (\<lambda>s.
     thenE (raise_if (\<not> distinct caps)
       (ValueError ''required_kernel_capabilities may not contain duplicates'')) (
     thenE (raise_if (\<not> distinct (md_trusted_tool_ids m))
       (ValueError ''trusted_tool_ids may not contain duplicates'')) (
     Inr \<lparr>compiler_id = i, compiler_version = v, harness_contract_id = h,
       required_kernel_capabilities = caps, md_trusted_tool_ids = md_trusted_tool_ids m,
       canonical_seed = s\<rparr>))))))))"

section \<open>The compiled run plan\<close>

datatype source_kind = SourceTask | SourceWorkspace | SourceArtifact | SourcePriorOutput | SourceSession

fun source_kind_name :: "source_kind \<Rightarrow> string" where
  "source_kind_name SourceTask = ''task''"
| "source_kind_name SourceWorkspace = ''workspace''"
| "source_kind_name SourceArtifact = ''artifact''"
| "source_kind_name SourcePriorOutput = ''prior_actor_output''"
| "source_kind_name SourceSession = ''session''"

record context_read =
  read_id :: string
  source_kind :: source_kind
  source_ref :: string

definition context_read_payload :: "context_read \<Rightarrow> pyval" where
  "context_read_payload r = obj
     [(''read_id'', PStr (read_id r)), (''source_kind'', PStr (source_kind_name (source_kind r))),
      (''source_ref'', PStr (source_ref r)), (''required'', PBool True)]"

record artifact_write =
  aw_channel_id :: string
  aw_artifact_id :: string
  aw_producer_call_id :: string
  aw_max_bytes :: int

definition artifact_write_payload :: "artifact_write \<Rightarrow> pyval" where
  "artifact_write_payload w = obj
     [(''channel_id'', PStr (aw_channel_id w)), (''artifact_id'', PStr (aw_artifact_id w)),
      (''producer_call_id'', PStr (aw_producer_call_id w)), (''payload_kind'', PStr ''text''),
      (''immutable'', PBool True), (''max_bytes'', PInt (aw_max_bytes w))]"

definition validate_artifact_write :: "artifact_write \<Rightarrow> artifact_write res" where
  "validate_artifact_write w = validated (thenE (require_gt0 (aw_max_bytes w) ''max_bytes'') (Inr w))"

record artifact_delivery =
  ad_channel_id :: string
  ad_artifact_id :: string
  ad_producer_call_id :: string
  ad_consumer_call_id :: string

definition artifact_delivery_payload :: "artifact_delivery \<Rightarrow> pyval" where
  "artifact_delivery_payload d = obj
     [(''channel_id'', PStr (ad_channel_id d)), (''artifact_id'', PStr (ad_artifact_id d)),
      (''producer_call_id'', PStr (ad_producer_call_id d)),
      (''consumer_call_id'', PStr (ad_consumer_call_id d)), (''deliver_before_call'', PBool True)]"

datatype call_kind = InitialCall | RevisionCall

fun call_kind_name :: "call_kind \<Rightarrow> string" where
  "call_kind_name InitialCall = ''initial''"
| "call_kind_name RevisionCall = ''revision''"

record actor_call =
  call_id :: string
  call_actor_id :: string
  call_kind :: call_kind
  call_instruction :: string
  call_revision_instruction :: "string option"
  context_reads :: "context_read list"
  artifact_writes :: "artifact_write list"
  call_tool_ids :: "tool_id list"
  call_bps :: int
  emits_final_patch :: bool

definition validate_call_kind :: "actor_call \<Rightarrow> unit res" where
  "validate_call_kind c =
     thenE (raise_if (call_kind c = RevisionCall \<and>
         (case call_revision_instruction c of None \<Rightarrow> True | Some s \<Rightarrow> s = []))
       (ValueError ''revision calls require revision_instruction''))
     (raise_if (call_kind c = InitialCall \<and> call_revision_instruction c \<noteq> None)
       (ValueError ''initial calls may not set revision_instruction''))"

definition validate_actor_call :: "actor_call \<Rightarrow> actor_call res" where
  "validate_actor_call c = validated (
     thenE (require_share (call_bps c)) (
     thenE (validate_call_kind c) (Inr c)))"

definition option_payload :: "string option \<Rightarrow> pyval" where
  "option_payload x = (case x of None \<Rightarrow> PNone | Some s \<Rightarrow> PStr s)"

definition actor_call_payload :: "actor_call \<Rightarrow> pyval" where
  "actor_call_payload c = obj
     [(''call_id'', PStr (call_id c)), (''actor_id'', PStr (call_actor_id c)),
      (''call_kind'', PStr (call_kind_name (call_kind c))),
      (''instruction'', PStr (call_instruction c)),
      (''revision_instruction'', option_payload (call_revision_instruction c)),
      (''context_reads'', PList (map context_read_payload (context_reads c))),
      (''artifact_writes'', PList (map artifact_write_payload (artifact_writes c))),
      (''tool_ids'', PList (map (\<lambda>t. PStr (tool_name t)) (call_tool_ids c))),
      (''budget_share_bps'', PInt (call_bps c)),
      (''emits_final_patch'', PBool (emits_final_patch c))]"

record plan_stage =
  stage_id :: string
  stage_index :: nat
  stage_call_ids :: "string list"
  depends_on_stage_ids :: "string list"
  inbound_channel_ids :: "string list"
  stage_fork :: bool
  stage_join :: bool
  stage_revision :: bool

definition plan_stage_payload :: "plan_stage \<Rightarrow> pyval" where
  "plan_stage_payload s = obj
     [(''stage_id'', PStr (stage_id s)), (''stage_index'', PInt (int (stage_index s))),
      (''call_ids'', PList (map PStr (stage_call_ids s))),
      (''depends_on_stage_ids'', PList (map PStr (depends_on_stage_ids s))),
      (''inbound_channel_ids'', PList (map PStr (inbound_channel_ids s))),
      (''fork'', PBool (stage_fork s)), (''join'', PBool (stage_join s)),
      (''revision'', PBool (stage_revision s))]"

definition validate_plan_stage :: "plan_stage \<Rightarrow> plan_stage res" where
  "validate_plan_stage s = validated (thenE (require_min_length1 (stage_call_ids s) ''call_ids'') (Inr s))"

record verification_action =
  va_step_id :: string
  va_argv :: "string list"
  va_cwd :: string
  va_timeout_ms :: int
  va_exit_codes :: "int list"

definition verification_action_payload :: "verification_action \<Rightarrow> pyval" where
  "verification_action_payload v = obj
     [(''step_id'', PStr (va_step_id v)), (''argv'', PList (map PStr (va_argv v))),
      (''cwd'', PStr (va_cwd v)), (''timeout_ms'', PInt (va_timeout_ms v)),
      (''expected_exit_codes'', PList (map PInt (va_exit_codes v)))]"

text \<open>Here task text enters a plan, and \<open>str_strip_whitespace\<close> trims every string of it.\<close>

definition validate_verification_action :: "verification_action \<Rightarrow> verification_action res" where
  "validate_verification_action v = validated (
     thenE (require_min_length1 (va_argv v) ''argv'') (
     thenE (require_gt0 (va_timeout_ms v) ''timeout_ms'') (
     thenE (require_min_length1 (va_exit_codes v) ''expected_exit_codes'') (
     Inr (v\<lparr>va_step_id := py_trim (va_step_id v), va_argv := map py_trim (va_argv v),
       va_cwd := py_trim (va_cwd v)\<rparr>)))))"

record public_verification_plan =
  pv_actions :: "verification_action list"
  run_after_call_id :: string

definition public_verification_payload :: "public_verification_plan \<Rightarrow> pyval" where
  "public_verification_payload v = obj
     [(''required'', PBool True),
      (''actions'', PList (map verification_action_payload (pv_actions v))),
      (''run_after_call_id'', PStr (run_after_call_id v))]"

definition validate_public_verification_plan :: "public_verification_plan \<Rightarrow> public_verification_plan res" where
  "validate_public_verification_plan v = validated (
     thenE (require_min_length1 (pv_actions v) ''actions'') (Inr v))"

record termination_plan =
  final_actor_call_id :: string
  tp_max_patch_bytes :: int

definition termination_plan_payload :: "termination_plan \<Rightarrow> pyval" where
  "termination_plan_payload t = obj
     [(''final_actor_call_id'', PStr (final_actor_call_id t)),
      (''final_output_kind'', PStr ''unified_diff''),
      (''max_patch_bytes'', PInt (tp_max_patch_bytes t)),
      (''success_condition'', PStr ''patch_emitted_and_public_verification_completed'')]"

definition validate_termination_plan :: "termination_plan \<Rightarrow> termination_plan res" where
  "validate_termination_plan t = validated (
     thenE (require_gt0 (tp_max_patch_bytes t) ''max_patch_bytes'') (Inr t))"

record budget_ledger_plan =
  aggregate_ceiling :: task_ceilings
  actor_shares :: "(string \<times> int) list"
  scheduled_model_calls :: nat
  scheduled_revision_calls :: nat

definition validate_budget_ledger_plan :: "budget_ledger_plan \<Rightarrow> budget_ledger_plan res" where
  "validate_budget_ledger_plan l = validated (
     thenE (require_min_length1 (actor_shares l) ''actor_shares'') (
     thenE (forE (\<lambda>s. require_share (snd s)) (actor_shares l)) (
     thenE (raise_if (scheduled_model_calls l = 0) (ValueError ''scheduled_model_calls greater_than'')) (
     thenE (raise_if (1 < scheduled_revision_calls l)
       (ValueError ''scheduled_revision_calls less_than_equal'')) (
     thenE (raise_if (sum_list (map snd (actor_shares l)) \<noteq> 10000)
       (ValueError ''compiled actor budget shares must sum to 10000'')) (
     thenE (raise_if (int (scheduled_model_calls l) > max_model_calls (aggregate_ceiling l))
       (ValueError ''compiled actor calls exceed max_model_calls'')) (Inr l)))))))"

definition budget_ledger_payload :: "budget_ledger_plan \<Rightarrow> pyval" where
  "budget_ledger_payload l = obj
     [(''aggregate_ceiling'', ceilings_payload (aggregate_ceiling l)),
      (''actor_shares'', PList (map (\<lambda>s. obj [(''actor_id'', PStr (fst s)),
         (''budget_share_bps'', PInt (snd s))]) (actor_shares l))),
      (''scheduled_model_calls'', PInt (int (scheduled_model_calls l))),
      (''scheduled_revision_calls'', PInt (int (scheduled_revision_calls l)))]"

datatype runtime_owner =
    ActorContext | ArtifactStore | ToolAuthority | BudgetLedger | Scheduler
  | RevisionController | TerminationController

record consumed_field_binding =
  binding_source_path :: string
  source_value_digest :: string
  plan_consumer_paths :: "string list"
  runtime_owners :: "runtime_owner list"

definition validate_consumed_field_binding :: "consumed_field_binding \<Rightarrow> consumed_field_binding res" where
  "validate_consumed_field_binding b = validated (
     bindE (require_digest (py_trim (source_value_digest b)) ''source_value_digest'') (\<lambda>d.
     thenE (require_min_length1 (plan_consumer_paths b) ''plan_consumer_paths'') (
     thenE (require_min_length1 (runtime_owners b) ''runtime_owners'') (
     Inr (b\<lparr>source_value_digest := d\<rparr>)))))"

record liveness_manifest =
  lm_source_digest :: string
  bindings :: "consumed_field_binding list"

definition validate_liveness_manifest :: "liveness_manifest \<Rightarrow> liveness_manifest res" where
  "validate_liveness_manifest m = validated (
     bindE (require_digest (py_trim (lm_source_digest m)) ''source_protocol_digest'') (\<lambda>d.
     thenE (require_min_length1 (bindings m) ''bindings'') (
     thenE (raise_if (\<not> distinct (map binding_source_path (bindings m)))
       (ValueError ''liveness bindings must have unique source paths'')) (
     Inr (m\<lparr>lm_source_digest := d\<rparr>)))))"

definition consumer_paths_for :: "liveness_manifest \<Rightarrow> string \<Rightarrow> string list res" where
  "consumer_paths_for m source_path =
     (case find (\<lambda>b. binding_source_path b = source_path) (bindings m) of
        None \<Rightarrow> Inl (KeyError source_path)
      | Some b \<Rightarrow> Inr (plan_consumer_paths b))"

record run_plan =
  task_envelope_dg :: string
  source_protocol_dg :: string
  compiled_semantic_dg :: string
  plan_manifest :: dependency_manifest
  plan_manifest_dg :: string
  actor_calls :: "actor_call list"
  stages :: "plan_stage list"
  artifact_deliveries :: "artifact_delivery list"
  public_verification :: public_verification_plan
  plan_termination :: termination_plan
  budget_ledger :: budget_ledger_plan
  plan_liveness :: liveness_manifest

definition semantic_payload :: "run_plan \<Rightarrow> pyval" where
  "semantic_payload p = obj
     [(''schema_version'', PStr ''repo-repair-composite-plan-v1''),
      (''task_envelope_digest'', PStr (task_envelope_dg p)),
      (''dependency_manifest'', dependency_manifest_payload (plan_manifest p)),
      (''dependency_manifest_digest'', PStr (plan_manifest_dg p)),
      (''actor_calls'', PList (map actor_call_payload (actor_calls p))),
      (''stages'', PList (map plan_stage_payload (stages p))),
      (''artifact_deliveries'', PList (map artifact_delivery_payload (artifact_deliveries p))),
      (''public_verification'', public_verification_payload (public_verification p)),
      (''termination'', termination_plan_payload (plan_termination p)),
      (''budget_ledger'', budget_ledger_payload (budget_ledger p))]"

definition validate_plan_references :: "sha256 \<Rightarrow> run_plan \<Rightarrow> unit res" where
  "validate_plan_references sha p =
     (let call_ids = map call_id (actor_calls p);
          staged = concat (map stage_call_ids (stages p))
      in thenE (raise_if (\<not> distinct call_ids)
           (ValueError ''compiled call_id values must be unique'')) (
         thenE (raise_if (\<not> distinct staged)
           (ValueError ''every actor call must appear in exactly one stage'')) (
         thenE (raise_if (set staged \<noteq> set call_ids)
           (ValueError ''stages must schedule every actor call exactly once'')) (
         thenE (raise_if (final_actor_call_id (plan_termination p) \<notin> set call_ids)
           (ValueError ''termination references an unknown final actor call'')) (
         thenE (raise_if (run_after_call_id (public_verification p) \<noteq>
             final_actor_call_id (plan_termination p))
           (ValueError ''public verification must run after the final actor call'')) (
         thenE (raise_if (source_protocol_dg p \<noteq> lm_source_digest (plan_liveness p))
           (ValueError ''liveness manifest is bound to another source protocol'')) (
         thenE (raise_if (plan_manifest_dg p \<noteq> manifest_digest sha (plan_manifest p))
           (ValueError ''dependency_manifest_digest does not match its manifest'')) (
         raise_if (compiled_semantic_dg p \<noteq> composite_plan_digest sha (semantic_payload p))
           (ValueError ''compiled_semantic_digest does not match the normalized plan'')))))))))"

definition validate_run_plan :: "sha256 \<Rightarrow> run_plan \<Rightarrow> run_plan res" where
  "validate_run_plan sha p = validated (
     bindE (require_digest (task_envelope_dg p) ''task_envelope_digest'') (\<lambda>t.
     bindE (require_digest (source_protocol_dg p) ''source_protocol_digest'') (\<lambda>s.
     bindE (require_digest (compiled_semantic_dg p) ''compiled_semantic_digest'') (\<lambda>c.
     bindE (require_digest (plan_manifest_dg p) ''dependency_manifest_digest'') (\<lambda>d.
     thenE (require_min_length1 (actor_calls p) ''actor_calls'') (
     thenE (require_min_length1 (stages p) ''stages'') (
     let q = p\<lparr>task_envelope_dg := t, source_protocol_dg := s, compiled_semantic_dg := c,
       plan_manifest_dg := d\<rparr> in
     thenE (validate_plan_references sha q) (Inr q))))))))"

section \<open>Well-formed protocols\<close>

lemma ident_char_no_space: "ident_char c \<Longrightarrow> \<not> is_py_space c \<and> \<not> is_trim_space c"
  by (auto simp: ident_char_def is_lower_def is_digit_def is_py_space_def is_trim_space_def Let_def)

lemma identifier_chars: "is_identifier n s \<Longrightarrow> list_all ident_char s"
  by (cases s) (auto simp: is_identifier_def ident_char_def)

lemma identifier_stable: "is_identifier n s \<Longrightarrow> py_strip s = s \<and> py_trim s = s"
  using identifier_chars [of n s]
  by (auto simp: list_all_iff intro!: strip_with_id dest: ident_char_no_space)

lemma require_identifier_Inr [res_simps]:
  "require_identifier v n = Inr s \<longleftrightarrow> s = py_strip v \<and> is_identifier 63 s"
  by (auto simp: require_identifier_def Let_def)

lemma require_min_length1_Inr [res_simps]: "require_min_length1 xs n = Inr u \<longleftrightarrow> xs \<noteq> []"
  by (simp add: require_min_length1_def res_simps)

lemma validate_task_view_Inr [res_simps]: "validate_task_view v = Inr w \<longleftrightarrow> w = v \<and> distinct v"
  by (auto simp: validate_task_view_def)

lemma validate_tool_ids_Inr [res_simps]: "validate_tool_ids v = Inr w \<longleftrightarrow> w = sort v \<and> distinct v"
  by (auto simp: validate_tool_ids_def)

lemma require_share_Inr [res_simps]: "require_share b = Inr u \<longleftrightarrow> 0 < b \<and> b \<le> 10000"
  by (auto simp: require_share_def res_simps)

definition actor_ok :: "harness_actor \<Rightarrow> bool" where
  "actor_ok a \<longleftrightarrow> is_identifier 63 (act_id a) \<and> task_view a \<noteq> [] \<and> distinct (task_view a) \<and>
     instruction a \<noteq> [] \<and> py_trim (instruction a) = instruction a \<and>
     tool_ids a \<noteq> [] \<and> distinct (tool_ids a) \<and> sorted (tool_ids a) \<and>
     0 < budget_share_bps a \<and> budget_share_bps a \<le> 10000"

definition channel_ok :: "channel \<Rightarrow> bool" where
  "channel_ok c \<longleftrightarrow> is_identifier 63 (channel_id c) \<and> is_identifier 63 (producer_actor_id c) \<and>
     is_identifier 63 (consumer_actor_id c) \<and> producer_actor_id c \<noteq> consumer_actor_id c"

definition revision_ok :: "harness_revision \<Rightarrow> bool" where
  "revision_ok r \<longleftrightarrow> is_identifier 63 (rev_actor_id r) \<and> is_identifier 63 (feedback_channel_id r) \<and>
     rev_instruction r \<noteq> [] \<and> py_trim (rev_instruction r) = rev_instruction r"

text \<open>The feedback channel of a revision: an existing channel into the revising final actor.\<close>

definition feedback_ok :: "harness_protocol \<Rightarrow> harness_revision \<Rightarrow> bool" where
  "feedback_ok p r \<longleftrightarrow> rev_actor_id r = final_actor p \<and>
     (\<exists>c. find_channel (feedback_channel_id r) (artifact_channels p) = Some c \<and>
        consumer_actor_id c = rev_actor_id r)"

definition refs_ok :: "harness_protocol \<Rightarrow> bool" where
  "refs_ok p \<longleftrightarrow> distinct (actor_ids p) \<and> sum_list (map budget_share_bps (actors p)) = 10000 \<and>
     final_actor p \<in> set (actor_ids p) \<and> distinct (channel_ids p) \<and>
     (\<forall>c\<in>set (artifact_channels p). producer_actor_id c \<in> set (actor_ids p) \<and>
        consumer_actor_id c \<in> set (actor_ids p)) \<and>
     (\<forall>r. revision p = Some r \<longrightarrow> feedback_ok p r)"

definition protocol_ok :: "harness_protocol \<Rightarrow> bool" where
  "protocol_ok p \<longleftrightarrow> actors p \<noteq> [] \<and> (\<forall>a\<in>set (actors p). actor_ok a) \<and>
     (\<forall>c\<in>set (artifact_channels p). channel_ok c) \<and> (\<forall>r. revision p = Some r \<longrightarrow> revision_ok r) \<and>
     is_identifier 63 (final_actor p) \<and> refs_ok p"

lemma validate_revision_refs_Inr: "validate_revision_refs p r = Inr u \<longleftrightarrow> feedback_ok p r"
  by (auto simp: validate_revision_refs_def feedback_ok_def res_simps split: option.splits)

lemma validate_protocol_Inr: "validate_protocol p = Inr u \<longleftrightarrow> refs_ok p"
  by (auto simp: validate_protocol_def refs_ok_def res_simps validate_revision_refs_Inr
      split: option.splits)

lemma validate_actor_ok: "validate_harness_actor a = Inr b \<Longrightarrow> actor_ok b"
  by (auto simp: validate_harness_actor_def actor_ok_def res_simps Let_def)

lemma actor_ok_fix: "actor_ok a \<Longrightarrow> validate_harness_actor a = Inr a"
  by (auto simp: validate_harness_actor_def actor_ok_def res_simps Let_def identifier_stable
      sorted_sort_id)

lemma validate_channel_ok: "validate_channel c = Inr d \<Longrightarrow> channel_ok d"
  by (auto simp: validate_channel_def channel_ok_def res_simps)

lemma channel_ok_fix: "channel_ok c \<Longrightarrow> validate_channel c = Inr c"
  by (auto simp: validate_channel_def channel_ok_def res_simps identifier_stable)

lemma validate_revision_ok: "validate_revision r = Inr q \<Longrightarrow> revision_ok q"
  by (auto simp: validate_revision_def revision_ok_def res_simps Let_def)

lemma revision_ok_fix: "revision_ok r \<Longrightarrow> validate_revision r = Inr r"
  by (auto simp: validate_revision_def revision_ok_def res_simps Let_def identifier_stable)

interpretation actor_validator: validator validate_harness_actor actor_ok
  by unfold_locales (fact validate_actor_ok, fact actor_ok_fix)

interpretation channel_validator: validator validate_channel channel_ok
  by unfold_locales (fact validate_channel_ok, fact channel_ok_fix)

interpretation revision_validator: validator validate_revision revision_ok
  by unfold_locales (fact validate_revision_ok, fact revision_ok_fix)

lemma validate_harness_protocol_ok: "validate_harness_protocol p = Inr q \<Longrightarrow> protocol_ok q"
proof -
  assume "validate_harness_protocol p = Inr q"
  then obtain as cs r t where ne: "actors p \<noteq> []"
    and as: "mapE validate_harness_actor (actors p) = Inr as"
    and cs: "mapE validate_channel (artifact_channels p) = Inr cs"
    and r: "optE validate_revision (revision p) = Inr r"
    and t: "validate_termination (protocol_termination p) = Inr t"
    and q: "q = \<lparr>actors = as, artifact_channels = cs, revision = r, protocol_termination = t\<rparr>"
    and refs: "refs_ok q"
    unfolding validate_harness_protocol_def Let_def
    by (auto simp only: bindE_Inr thenE_Inr validated_Inr require_min_length1_Inr validate_protocol_Inr
        sum.inject)
  have "\<forall>a\<in>set as. actor_ok a" "\<forall>c\<in>set cs. channel_ok c"
    using actor_validator.list_sound [OF as] channel_validator.list_sound [OF cs] by (simp_all add: list_all_iff)
  moreover have "\<forall>x. r = Some x \<longrightarrow> revision_ok x"
    using revision_validator.option_sound [OF r] by auto
  moreover have "is_identifier 63 (final_actor_id t)"
    using t by (auto simp: validate_termination_def res_simps)
  ultimately show ?thesis using refs q ne mapE_Nil_iff [OF as] by (simp add: protocol_ok_def)
qed

lemma protocol_ok_fix: "protocol_ok p \<Longrightarrow> validate_harness_protocol p = Inr p"
proof -
  assume ok: "protocol_ok p"
  have "mapE validate_harness_actor (actors p) = Inr (actors p)"
    "mapE validate_channel (artifact_channels p) = Inr (artifact_channels p)"
    using ok by (auto simp: protocol_ok_def list_all_iff intro: actor_validator.list_stable channel_validator.list_stable)
  moreover have "optE validate_revision (revision p) = Inr (revision p)"
    using ok by (intro revision_validator.option_stable) (cases "revision p", auto simp: protocol_ok_def)
  moreover have "validate_termination (protocol_termination p) = Inr (protocol_termination p)"
    using ok by (cases "protocol_termination p")
      (auto simp: validate_termination_def res_simps protocol_ok_def identifier_stable)
  moreover have "validate_protocol p = Inr ()" "require_min_length1 (actors p) ''actors'' = Inr ()"
    using ok by (auto simp: validate_protocol_Inr protocol_ok_def require_min_length1_Inr)
  moreover have "\<lparr>actors = actors p, artifact_channels = artifact_channels p, revision = revision p,
      protocol_termination = protocol_termination p\<rparr> = p" by (cases p) simp
  ultimately show ?thesis
    by (simp only: validate_harness_protocol_def Let_def bindE_simps thenE_simps validated_simps)
qed

interpretation protocol_validator: validator validate_harness_protocol protocol_ok
  by unfold_locales (fact validate_harness_protocol_ok, fact protocol_ok_fix)

lemmas protocol_ok_iff = protocol_validator.ok_iff

section \<open>The source digest binds the protocol\<close>

lemma map_view_name_eq [simp]:
  "map (\<lambda>v. PStr (view_name v)) xs = map (\<lambda>v. PStr (view_name v)) ys \<longleftrightarrow> xs = ys"
  by (simp add: inj_map_eq_map inj_on_def)

lemma actor_payload_inject: "canon (actor_payload a) = canon (actor_payload b) \<Longrightarrow> a = b"
  unfolding actor_payload_def by (drule canon_obj_fields) (simp_all add: comp_def)

lemma channel_payload_inject: "canon (channel_payload a) = canon (channel_payload b) \<Longrightarrow> a = b"
  unfolding channel_payload_def by (drule canon_obj_fields) simp_all

lemma revision_payload_inject: "canon (revision_payload a) = canon (revision_payload b) \<Longrightarrow> a = b"
  unfolding revision_payload_def by (drule canon_obj_fields) simp_all

lemma termination_payload_inject: "canon (termination_payload a) = canon (termination_payload b) \<Longrightarrow> a = b"
  unfolding termination_payload_def by (drule canon_obj_fields) simp_all

lemma source_payload_inject:
  assumes eq: "canon (source_payload p) = canon (source_payload q)"
  shows "p = q"
proof -
  have len: "(revision p = None) = (revision q = None)"
    using canon_obj_length [OF eq [unfolded source_payload_def]] by (auto split: option.splits)
  have "map (canon \<circ> actor_payload) (actors p) = map (canon \<circ> actor_payload) (actors q) \<and>
    map (canon \<circ> channel_payload) (artifact_channels p) = map (canon \<circ> channel_payload) (artifact_channels q) \<and>
    map_option (canon \<circ> revision_payload) (revision p) = map_option (canon \<circ> revision_payload) (revision q) \<and>
    canon (termination_payload (protocol_termination p)) = canon (termination_payload (protocol_termination q))"
    using canon_obj_fields [OF eq [unfolded source_payload_def]] len
    by (auto split: option.splits)
  moreover from this have "revision p = revision q"
    by (cases "revision p"; cases "revision q") (auto dest: revision_payload_inject)
  ultimately show ?thesis
    by (auto dest!: canon_map_inject [OF _ actor_payload_inject] canon_map_inject [OF _ channel_payload_inject]
        termination_payload_inject intro!: harness_protocol.equality)
qed

text \<open>C19: two protocols with the same source digest are equal, or their canonical bytes are a
  SHA-256 collision.\<close>

theorem source_digest_binds_protocol:
  assumes "length (encode (source_payload p)) < 2 ^ 64" and "length (encode (source_payload q)) < 2 ^ 64"
    and "source_digest sha p = source_digest sha q"
  shows "p = q \<or> sha_collision sha (domain_payload ''protocol'' (source_payload p))
    (domain_payload ''protocol'' (source_payload q))"
  using identity_digest_binds [of "''protocol''" "''protocol''", OF _ _ assms(1,2)] assms(3)
  by (auto simp: source_digest_def protocol_digest_def dest: source_payload_inject)

text \<open>C18: whatever validation accepts satisfies every protocol invariant, and validating it again
  returns it unchanged, so re-normalising a protocol is the identity.\<close>

theorem protocol_validation_fixpoint:
  assumes "validate_harness_protocol raw = Inr p"
  shows "protocol_ok p \<and> validate_harness_protocol p = Inr p"
  using protocol_validator.sound [OF assms] protocol_validator.fixpoint [OF assms] by (rule conjI)

text \<open>The canonical two-actor seed, with shortened instructions.\<close>

definition sample_actor :: "string \<Rightarrow> tool_id list \<Rightarrow> int \<Rightarrow> harness_actor" where
  "sample_actor i ts b = \<lparr>act_id = i, task_view = [ViewIssue, ViewWorkspace],
     instruction = ''do the work'', tool_ids = ts, budget_share_bps = b\<rparr>"

definition sample_protocol :: harness_protocol where
  "sample_protocol = \<lparr>
     actors = [sample_actor ''investigator'' [RepoDiff, RepoRead, RepoSearch] 4000,
               sample_actor ''implementer'' [RepoDiff, RepoEdit, RepoRead] 6000],
     artifact_channels = [\<lparr>channel_id = ''investigation'', producer_actor_id = ''investigator'',
       consumer_actor_id = ''implementer''\<rparr>],
     revision = None, protocol_termination = \<lparr>final_actor_id = ''implementer''\<rparr>\<rparr>"

lemma sample_protocol_valid: "validate_harness_protocol sample_protocol = Inr sample_protocol"
  by code_simp

lemma sample_protocol_ok: "protocol_ok sample_protocol"
  by (simp add: protocol_ok_iff sample_protocol_valid)

theorem protocol_validation_fixpoint_witness:
  "protocol_ok sample_protocol"
  using protocol_validation_fixpoint [of "sample_protocol\<lparr>protocol_termination := \<lparr>final_actor_id = '' implementer''\<rparr>\<rparr>"
      sample_protocol]
  by (rule conjunct1 [OF mp [OF impI], rotated]) code_simp

theorem source_digest_binds_protocol_witness:
  "sha_collision zero_sha (domain_payload ''protocol'' (source_payload sample_protocol))
    (domain_payload ''protocol'' (source_payload (sample_protocol\<lparr>artifact_channels := []\<rparr>)))"
proof -
  have d: "source_digest zero_sha p = replicate 64 (CHR ''0'')" for p
    by (simp add: source_digest_def protocol_digest_def)
  have "sample_protocol \<noteq> sample_protocol\<lparr>artifact_channels := []\<rparr>" by (simp add: sample_protocol_def)
  moreover have "length (encode (source_payload sample_protocol)) < 2 ^ 64"
    "length (encode (source_payload (sample_protocol\<lparr>artifact_channels := []\<rparr>))) < 2 ^ 64"
    by (rule encode_small, simp add: source_payload_def sample_protocol_def sample_actor_def
        actor_payload_def channel_payload_def termination_payload_def obj_def show_int_def show_nat.simps)+
  ultimately show ?thesis using source_digest_binds_protocol d by metis
qed

section \<open>Field paths\<close>

lemma ident_no_bracket: "is_identifier n s \<Longrightarrow> CHR '']'' \<notin> set s"
  using identifier_chars [of n s]
  by (auto simp: list_all_iff ident_char_def is_lower_def is_digit_def Let_def)

lemma actor_prefix_eq:
  "CHR '']'' \<notin> set i \<Longrightarrow> CHR '']'' \<notin> set j \<Longrightarrow> actor_prefix i @ s = actor_prefix j @ t \<longleftrightarrow> i = j \<and> s = t"
  by (simp add: actor_prefix_def append_delim_eq)

lemma channel_prefix_eq:
  "CHR '']'' \<notin> set i \<Longrightarrow> CHR '']'' \<notin> set j \<Longrightarrow> channel_prefix i @ s = channel_prefix j @ t \<longleftrightarrow> i = j \<and> s = t"
  by (simp add: channel_prefix_def append_delim_eq)

lemma prefix_neq [simp]:
  "actor_prefix i @ s \<noteq> channel_prefix j @ t" "channel_prefix j @ t \<noteq> actor_prefix i @ s"
  by (simp_all add: actor_prefix_def channel_prefix_def)

lemma actor_prefix_inj [simp]: "actor_prefix i = actor_prefix j \<longleftrightarrow> i = j"
  by (simp add: actor_prefix_def)

lemma channel_prefix_inj [simp]: "channel_prefix i = channel_prefix j \<longleftrightarrow> i = j"
  by (simp add: channel_prefix_def)

lemma distinct_concat_map:
  assumes "distinct (map f xs)" and "\<And>x. x \<in> set xs \<Longrightarrow> distinct (g x)"
    and "\<And>x y. x \<in> set xs \<Longrightarrow> y \<in> set xs \<Longrightarrow> set (g x) \<inter> set (g y) \<noteq> {} \<Longrightarrow> f x = f y"
  shows "distinct (concat (map g xs))"
  using assms
proof (induction xs)
  case (Cons x xs)
  have "set (g x) \<inter> \<Union> (set ` set (map g xs)) = {}"
  proof (rule ccontr)
    assume "set (g x) \<inter> \<Union> (set ` set (map g xs)) \<noteq> {}"
    then obtain y where "y \<in> set xs" "set (g x) \<inter> set (g y) \<noteq> {}" by auto
    with Cons.prems show False by (auto dest: Cons.prems(3) [of x y])
  qed
  with Cons show ?case by auto
qed simp

lemma distinct_append_sep:
  "distinct xs \<Longrightarrow> distinct ys \<Longrightarrow> \<forall>s\<in>set xs. P s \<Longrightarrow> \<forall>s\<in>set ys. \<not> P s \<Longrightarrow> distinct (xs @ ys)"
  by auto

lemma field_prefixes_distinct:
  assumes "distinct (map f xs)" and "distinct fs" and "\<forall>s\<in>set fs. \<exists>t. s = CHR '']'' # t"
    and "\<And>x. x \<in> set xs \<Longrightarrow> CHR '']'' \<notin> set (f x)"
  shows "distinct (concat (map (\<lambda>x. map (\<lambda>s. p @ f x @ s) fs) xs))"
proof (rule distinct_concat_map [OF assms(1)])
  fix x show "distinct (map (\<lambda>s. p @ f x @ s) fs)"
    using assms(2) by (simp add: distinct_map inj_on_def)
next
  fix x y assume xy: "x \<in> set xs" "y \<in> set xs"
    and "set (map (\<lambda>s. p @ f x @ s) fs) \<inter> set (map (\<lambda>s. p @ f y @ s) fs) \<noteq> {}"
  then obtain s t where st: "s \<in> set fs" "t \<in> set fs" "f x @ s = f y @ t" by auto
  from assms(3) st(1) obtain s' where s: "s = CHR '']'' # s'" by blast
  from assms(3) st(2) obtain t' where t: "t = CHR '']'' # t'" by blast
  show "f x = f y"
    using st(3) unfolding s t append_delim_eq [OF assms(4) [OF xy(1)] assms(4) [OF xy(2)]] by (rule conjunct1)
qed

lemma mutable_field_paths_distinct:
  assumes "protocol_ok p"
  shows "distinct (mutable_field_paths p)"
proof -
  have ids: "distinct (map act_id (actors p))" "distinct (map channel_id (artifact_channels p))"
    using assms by (simp_all add: protocol_ok_def refs_ok_def)
  have a: "CHR '']'' \<notin> set (act_id x)" if "x \<in> set (actors p)" for x
    using assms that by (auto simp: protocol_ok_def actor_ok_def dest: ident_no_bracket)
  have c: "CHR '']'' \<notin> set (channel_id x)" if "x \<in> set (artifact_channels p)" for x
    using assms that by (auto simp: protocol_ok_def channel_ok_def dest: ident_no_bracket)
  let ?A = "concat (map (\<lambda>a. map (\<lambda>s. ''actors['' @ act_id a @ s)
    ['']'' @ ''.task_view'', '']'' @ ''.instruction'', '']'' @ ''.tool_ids'', '']'' @ ''.budget_share_bps'']) (actors p))"
  let ?C = "concat (map (\<lambda>c. map (\<lambda>s. ''artifact_channels['' @ channel_id c @ s)
    ['']'' @ ''.producer_actor_id'', '']'' @ ''.consumer_actor_id'']) (artifact_channels p))"
  let ?R = "(case revision p of None \<Rightarrow> []
      | Some _ \<Rightarrow> [''revision.actor_id'', ''revision.feedback_channel_id'', ''revision.instruction'']) @
     [''termination.final_actor_id'']"
  have eq: "mutable_field_paths p = ?A @ ?C @ ?R"
    by (simp add: mutable_field_paths_def actor_prefix_def channel_prefix_def)
  have dA: "distinct ?A" by (rule field_prefixes_distinct [OF ids(1)]) (simp_all add: a)
  have dC: "distinct ?C" by (rule field_prefixes_distinct [OF ids(2)]) (simp_all add: c)
  have dR: "distinct ?R" by (simp split: option.split)
  have "distinct (?C @ ?R)"
    by (rule distinct_append_sep [OF dC dR, where P = "\<lambda>s. take 2 s = ''ar''"]) (auto split: option.split)
  then show ?thesis unfolding eq
    by (rule distinct_append_sep [OF dA, where P = "\<lambda>s. take 2 s = ''ac''"]) (auto split: option.split)
qed

end
