(* ===== verification/Topology.thy ===== *)
theory Topology
  imports Harness
begin

text \<open>
  The artifact topology of a protocol (\<open>_path_exists\<close> and \<open>_compile_topology\<close> of
  \<open>runtime/api/composite_compiler.py\<close>): the primary channels are levelled by Kahn's algorithm and
  every actor must reach the final actor, or the producer of the revision feedback. The code's
  \<open>adjacency\<close> dict is an association list from actors to their successors, a \<open>set\<close> of actors is
  a list in actor order, and \<open>indegree\<close> is a function. The results: the depth-first search decides
  reachability, Kahn's loop succeeds exactly on acyclic graphs and its levels partition the
  actors with every edge going forward, and the compiler accepts exactly the topologies of
  \<open>topology_ok\<close>.
\<close>

section \<open>Reachability\<close>

type_synonym adjacency = "(string \<times> string list) list"

definition successors :: "channel list \<Rightarrow> string \<Rightarrow> string list" where
  "successors cs a = remdups (map consumer_actor_id (filter (\<lambda>c. producer_actor_id c = a) cs))"

definition predecessors :: "channel list \<Rightarrow> string \<Rightarrow> string list" where
  "predecessors cs a = remdups (map producer_actor_id (filter (\<lambda>c. consumer_actor_id c = a) cs))"

definition adjacency_of :: "string list \<Rightarrow> channel list \<Rightarrow> adjacency" where
  "adjacency_of nodes cs = map (\<lambda>a. (a, successors cs a)) nodes"

lemma unvisited_decreases:
  assumes "map_of adj a = Some n" and "a \<notin> set visited"
  shows "card (fst ` set adj - set (a # visited)) < card (fst ` set adj - set visited)"
proof (rule psubset_card_mono)
  have "a \<in> fst ` set adj" using assms(1) by (metis domI dom_map_of_conv_image_fst)
  then show "fst ` set adj - set (a # visited) \<subset> fst ` set adj - set visited" using assms(2) by auto
qed simp

text \<open>The head of \<open>pending\<close> is the top of the code's stack; \<open>extend(sorted(..., reverse=True))\<close>
  leaves the smallest successor on top.\<close>

function path_search :: "adjacency \<Rightarrow> string \<Rightarrow> string list \<Rightarrow> string list \<Rightarrow> bool res" where
  "path_search adj target visited [] = Inr False"
| "path_search adj target visited (a # pending) =
     (if a = target then Inr True
      else if a \<in> set visited then path_search adj target visited pending
      else case map_of adj a of
             None \<Rightarrow> Inl (KeyError a)
           | Some next \<Rightarrow> path_search adj target (a # visited) (sort next @ pending))"
  by pat_completeness auto

termination
  by (relation "measures [\<lambda>(adj, _, visited, _). card (fst ` set adj - set visited),
      \<lambda>(_, _, _, pending). length pending]") (auto dest: unvisited_decreases)

definition path_exists :: "string \<Rightarrow> string \<Rightarrow> adjacency \<Rightarrow> bool res" where
  "path_exists start target adj = path_search adj target [] [start]"

definition edges_of :: "adjacency \<Rightarrow> (string \<times> string) set" where
  "edges_of adj = {(a, b). \<exists>n. map_of adj a = Some n \<and> b \<in> set n}"

definition closed_adjacency :: "adjacency \<Rightarrow> bool" where
  "closed_adjacency adj \<longleftrightarrow> (\<forall>a n. map_of adj a = Some n \<longrightarrow> set n \<subseteq> fst ` set adj)"

lemma path_search_sound:
  "path_search adj t V P = Inr True \<Longrightarrow> \<exists>p\<in>set P. (p, t) \<in> (edges_of adj)\<^sup>*"
proof (induction adj t V P rule: path_search.induct)
  case (2 adj t V a P)
  show ?case
  proof (cases "a = t \<or> a \<in> set V")
    case True
    then show ?thesis using 2 by (auto split: if_splits)
  next
    case False
    then obtain n where n: "map_of adj a = Some n" using "2.prems" by (auto split: option.splits)
    then obtain p where p: "p \<in> set (sort n @ P)" "(p, t) \<in> (edges_of adj)\<^sup>*"
      using 2 False by auto
    have e: "(a, q) \<in> edges_of adj" if "q \<in> set n" for q using n that by (auto simp: edges_of_def)
    from p(1) consider "p \<in> set n" | "p \<in> set P" by auto
    then show ?thesis
    proof cases
      case 1
      then have "(a, t) \<in> (edges_of adj)\<^sup>*" by (rule converse_rtrancl_into_rtrancl [OF e p(2)])
      then show ?thesis by (meson list.set_intros(1))
    next
      case 2
      with p(2) show ?thesis by (meson list.set_intros(2))
    qed
  qed
qed simp

lemma path_search_complete:
  assumes "path_search adj t V P = Inr False" and "t \<notin> set V"
    and "edges_of adj `` set V \<subseteq> set V \<union> set P"
  shows "\<exists>W. set V \<union> set P \<subseteq> W \<and> t \<notin> W \<and> edges_of adj `` W \<subseteq> W"
  using assms
proof (induction adj t V P rule: path_search.induct)
  case (1 adj t V)
  then have "edges_of adj `` set V \<subseteq> set V" by (simp only: list.set(1) Un_empty_right)
  then show ?case using "1.prems"(2) by (intro exI [of _ "set V"]) (simp only: list.set(1) Un_empty_right subset_refl simp_thms)
next
  case (2 adj t V a P)
  have nt: "a \<noteq> t" using "2.prems"(1) by auto
  show ?case
  proof (cases "a \<in> set V")
    case True
    then have "\<exists>W. set V \<union> set P \<subseteq> W \<and> t \<notin> W \<and> edges_of adj `` W \<subseteq> W"
      using "2.prems" nt by (intro "2.IH"(1)) auto
    moreover have "set V \<union> set (a # P) = set V \<union> set P" using True by auto
    ultimately show ?thesis by (simp only:)
  next
    case False
    then obtain n where n: "map_of adj a = Some n" using "2.prems"(1) nt by (auto split: option.splits)
    have "edges_of adj `` set (a # V) \<subseteq> set (a # V) \<union> set (sort n @ P)"
      using "2.prems"(3) n by (auto simp: edges_of_def)
    then have "\<exists>W. set (a # V) \<union> set (sort n @ P) \<subseteq> W \<and> t \<notin> W \<and> edges_of adj `` W \<subseteq> W"
      using "2.prems" nt False n by (intro "2.IH"(2)) auto
    then obtain W where W: "set (a # V) \<union> set (sort n @ P) \<subseteq> W" "t \<notin> W" "edges_of adj `` W \<subseteq> W"
      by blast
    from W(1) have "set V \<union> set (a # P) \<subseteq> W" by auto
    with W(2,3) show ?thesis by blast
  qed
qed

lemma path_search_total:
  assumes "closed_adjacency adj" and "set P \<subseteq> fst ` set adj"
  shows "\<exists>b. path_search adj t V P = Inr b"
  using assms
proof (induction adj t V P rule: path_search.induct)
  case (2 adj t V a P)
  show ?case
  proof (cases "a = t \<or> a \<in> set V")
    case True
    then show ?thesis using 2 by auto
  next
    case False
    obtain n where n: "map_of adj a = Some n" using "2.prems"(2) by (metis list.set_intros(1) map_of_eq_None_iff not_None_eq subset_iff)
    have "set n \<subseteq> fst ` set adj" using "2.prems"(1) n unfolding closed_adjacency_def by blast
    then have "\<exists>b. path_search adj t (a # V) (sort n @ P) = Inr b"
      using "2.prems" False by (intro "2.IH"(2) [OF _ _ n]) auto
    then show ?thesis using False n by simp
  qed
next
  case (1 adj t V)
  then show ?case by auto
qed

lemma path_exists_iff:
  assumes "closed_adjacency adj" and "start \<in> fst ` set adj"
  shows "path_exists start t adj = Inr ((start, t) \<in> (edges_of adj)\<^sup>*)"
proof -
  obtain b where b: "path_search adj t [] [start] = Inr b"
    using path_search_total [OF assms(1), of "[start]" t "[]"] assms(2) by auto
  show ?thesis
  proof (cases b)
    case True
    then have "(start, t) \<in> (edges_of adj)\<^sup>*" using b path_search_sound [of adj t "[]" "[start]"]
      by (simp del: path_search.simps)
    then show ?thesis using b True by (simp add: path_exists_def del: path_search.simps)
  next
    case False
    then obtain W where "start \<in> W" "t \<notin> W" "edges_of adj `` W \<subseteq> W"
      using b path_search_complete [of adj t "[]" "[start]"] by (auto simp del: path_search.simps)
    then have "(start, t) \<notin> (edges_of adj)\<^sup>*" using Image_closed_trancl by blast
    then show ?thesis using b False by (simp add: path_exists_def del: path_search.simps)
  qed
qed

section \<open>Levels by Kahn's algorithm\<close>

definition indegree_of :: "channel list \<Rightarrow> string \<Rightarrow> int" where
  "indegree_of cs a = int (length (predecessors cs a))"

definition relax_one :: "channel list \<Rightarrow> string \<Rightarrow> (string \<Rightarrow> int) \<Rightarrow> string \<Rightarrow> int" where
  "relax_one cs a d = fold (\<lambda>c d. d(c := d c - 1)) (successors cs a) d"

definition relax :: "channel list \<Rightarrow> string list \<Rightarrow> (string \<Rightarrow> int) \<Rightarrow> string \<Rightarrow> int" where
  "relax cs ready d = fold (relax_one cs) ready d"

function kahn :: "channel list \<Rightarrow> (string \<Rightarrow> int) \<Rightarrow> string list \<Rightarrow> string list list res" where
  "kahn cs indegree remaining =
     (if remaining = [] then Inr []
      else let ready = filter (\<lambda>a. indegree a = 0) remaining
           in if ready = [] then
                Inl (CompositeCompilationError ''primary artifact channel graph must be acyclic'')
              else bindE (kahn cs (relax cs ready indegree) (filter (\<lambda>a. a \<notin> set ready) remaining))
                     (\<lambda>levels. Inr (ready # levels)))"
  by auto

termination
proof (relation "measure (\<lambda>(_, _, remaining). length remaining)", goal_cases)
  case (2 cs d rem ready)
  then obtain a where "a \<in> set ready" by (meson list.set_sel(1))
  moreover from this have "a \<in> set rem" using 2 by simp
  ultimately have "length (filter (\<lambda>a. a \<notin> set ready) rem) < length rem"
    by (intro length_filter_less [of a]) auto
  then show ?case by simp
qed simp

declare kahn.simps [simp del]

text \<open>The index of the level that holds an actor.\<close>

definition phase_of :: "string list list \<Rightarrow> string \<Rightarrow> nat" where
  "phase_of levels a = length (takeWhile (\<lambda>l. a \<notin> set l) levels)"

definition edge_set :: "channel list \<Rightarrow> (string \<times> string) set" where
  "edge_set cs = {(p, q). q \<in> set (successors cs p)}"

lemma in_edge_set: "(p, q) \<in> edge_set cs \<longleftrightarrow>
    (\<exists>c\<in>set cs. producer_actor_id c = p \<and> consumer_actor_id c = q)"
  by (auto simp: edge_set_def successors_def)

lemma finite_edge_set [simp]: "finite (edge_set cs)"
proof (rule finite_subset)
  show "edge_set cs \<subseteq> (\<lambda>c. (producer_actor_id c, consumer_actor_id c)) ` set cs"
    by (auto simp: in_edge_set)
qed simp

lemma fold_decr:
  "distinct xs \<Longrightarrow> fold (\<lambda>c d. d(c := d c - 1)) xs d x = d x - (if x \<in> set xs then 1 else 0 :: int)"
  by (induction xs arbitrary: d) auto

lemma relax_one_apply: "relax_one cs a d x = d x - (if (a, x) \<in> edge_set cs then 1 else 0)"
  by (simp add: relax_one_def fold_decr successors_def edge_set_def)

lemma relax_apply:
  "distinct ready \<Longrightarrow> relax cs ready d x = d x - int (card {p \<in> set ready. (p, x) \<in> edge_set cs})"
proof (induction ready arbitrary: d)
  case (Cons a ready)
  have "{p \<in> set (a # ready). (p, x) \<in> edge_set cs} =
      (if (a, x) \<in> edge_set cs then insert a else id) {p \<in> set ready. (p, x) \<in> edge_set cs}"
    by auto
  with Cons show ?case by (simp add: relax_def relax_one_apply)
qed (simp add: relax_def)

text \<open>The loop invariant: the indegree of a remaining actor counts its remaining predecessors.\<close>

definition indegree_inv :: "channel list \<Rightarrow> (string \<Rightarrow> int) \<Rightarrow> string list \<Rightarrow> bool" where
  "indegree_inv cs d remaining \<longleftrightarrow> distinct remaining \<and>
     (\<forall>a\<in>set remaining. d a = int (card {p \<in> set remaining. (p, a) \<in> edge_set cs}))"

lemma indegree_inv_step:
  assumes inv: "indegree_inv cs d rem" and ready: "ready = filter (\<lambda>a. d a = 0) rem"
  shows "indegree_inv cs (relax cs ready d) (filter (\<lambda>a. a \<notin> set ready) rem)"
proof -
  have dist: "distinct ready" using inv ready by (simp add: indegree_inv_def)
  have "relax cs ready d a = int (card {p \<in> set rem - set ready. (p, a) \<in> edge_set cs})"
    if "a \<in> set rem" for a
  proof -
    let ?P = "{p \<in> set rem. (p, a) \<in> edge_set cs}" and ?Q = "{p \<in> set ready. (p, a) \<in> edge_set cs}"
    have sub: "?Q \<subseteq> ?P" using ready by auto
    have "{p \<in> set rem - set ready. (p, a) \<in> edge_set cs} = ?P - ?Q" by auto
    moreover have "card (?P - ?Q) = card ?P - card ?Q" "card ?Q \<le> card ?P"
      using sub by (simp_all add: card_Diff_subset card_mono)
    moreover have "d a = int (card ?P)" using inv that by (simp add: indegree_inv_def)
    ultimately show ?thesis by (simp add: relax_apply [OF dist])
  qed
  moreover have "set (filter (\<lambda>a. a \<notin> set ready) rem) = set rem - set ready" by auto
  ultimately show ?thesis using inv by (simp add: indegree_inv_def)
qed

lemma indegree_zero_iff:
  assumes "indegree_inv cs d rem" and "q \<in> set rem"
  shows "d q = 0 \<longleftrightarrow> (\<forall>p\<in>set rem. (p, q) \<notin> edge_set cs)"
proof -
  have "d q = int (card {p \<in> set rem. (p, q) \<in> edge_set cs})"
    using assms by (simp add: indegree_inv_def)
  then show ?thesis by (simp add: card_eq_0_iff) blast
qed

lemma phase_of_Cons: "phase_of (l # ls) a = (if a \<in> set l then 0 else Suc (phase_of ls a))"
  by (simp add: phase_of_def)

text \<open>What the levels promise: they partition the remaining actors, every edge goes to a strictly
  later level, and an actor waits no longer than its predecessors force it to.\<close>

definition good_levels :: "channel list \<Rightarrow> string list \<Rightarrow> string list list \<Rightarrow> bool" where
  "good_levels cs nodes levels \<longleftrightarrow> set (concat levels) = set nodes \<and> distinct (concat levels) \<and>
     [] \<notin> set levels \<and>
     (\<forall>p\<in>set nodes. \<forall>q\<in>set nodes. (p, q) \<in> edge_set cs \<longrightarrow> phase_of levels p < phase_of levels q) \<and>
     (\<forall>q\<in>set nodes. \<forall>k. phase_of levels q = Suc k \<longrightarrow>
        (\<exists>p\<in>set nodes. (p, q) \<in> edge_set cs \<and> phase_of levels p = k))"

lemma kahn_Inr_cases:
  assumes "kahn cs d rem = Inr levels" and "rem \<noteq> []"
  obtains ls where "levels = filter (\<lambda>a. d a = 0) rem # ls" and "filter (\<lambda>a. d a = 0) rem \<noteq> []"
    and "kahn cs (relax cs (filter (\<lambda>a. d a = 0) rem) d) (filter (\<lambda>a. a \<notin> set (filter (\<lambda>a. d a = 0) rem)) rem) = Inr ls"
  using assms by (subst (asm) kahn.simps) (auto simp: Let_def bindE_Inr split: if_splits)

lemma kahn_good: "kahn cs d rem = Inr levels \<Longrightarrow> indegree_inv cs d rem \<Longrightarrow> good_levels cs rem levels"
proof (induction cs d rem arbitrary: levels rule: kahn.induct)
  case (1 cs d rem)
  show ?case
  proof (cases "rem = []")
    case True
    then show ?thesis using "1.prems" by (simp add: kahn.simps good_levels_def)
  next
    case False
    define ready where ready: "ready = filter (\<lambda>a. d a = 0) rem"
    define rest where rest: "rest = filter (\<lambda>a. a \<notin> set ready) rem"
    obtain ls where lv: "levels = ready # ls" "ready \<noteq> []" and k: "kahn cs (relax cs ready d) rest = Inr ls"
      using kahn_Inr_cases [OF "1.prems"(1) False] ready rest by metis
    have inv': "indegree_inv cs (relax cs ready d) rest"
      unfolding rest by (rule indegree_inv_step [OF "1.prems"(2) ready])
    have IH: "good_levels cs rest ls"
      by (rule "1.IH" [OF False ready lv(2) k [unfolded rest] inv' [unfolded rest], folded rest])
    have sets: "set rem = set ready \<union> set rest" "set ready \<inter> set rest = {}"
      by (auto simp: ready rest)
    have dr: "distinct ready" using "1.prems"(2) by (simp add: ready indegree_inv_def)
    have part: "set (concat levels) = set rem" "distinct (concat levels)" "[] \<notin> set levels"
      using IH sets lv dr by (simp_all add: good_levels_def)
    have ph: "phase_of levels a = (if a \<in> set ready then 0 else Suc (phase_of ls a))" for a
      by (simp add: lv(1) phase_of_Cons)
    have np: "q \<in> set rest" if "(p, q) \<in> edge_set cs" "p \<in> set rem" "q \<in> set rem" for p q
    proof -
      have "d q \<noteq> 0" using that(1,2) indegree_zero_iff [OF "1.prems"(2) that(3)] by blast
      then have "q \<notin> set ready" by (simp add: ready)
      with sets(1) that(3) show ?thesis by blast
    qed
    have fwd: "phase_of levels p < phase_of levels q"
      if "p \<in> set rem" "q \<in> set rem" "(p, q) \<in> edge_set cs" for p q
      using that np [OF that(3,1,2)] sets IH by (auto simp: ph good_levels_def)
    have tight: "\<exists>p\<in>set rem. (p, q) \<in> edge_set cs \<and> phase_of levels p = k"
      if q: "q \<in> set rem" and eq: "phase_of levels q = Suc k" for q k
    proof -
      have q': "q \<in> set rest" "phase_of ls q = k" using eq q sets by (auto simp: ph split: if_splits)
      show ?thesis
      proof (cases k)
        case 0
        have "relax cs ready d q = 0"
        proof (rule ccontr)
          assume nz: "relax cs ready d q \<noteq> 0"
          have "rest \<noteq> []" using q' by auto
          then obtain ls' where "ls = filter (\<lambda>a. relax cs ready d a = 0) rest # ls'"
            using kahn_Inr_cases [OF k] by metis
          then show False using q'(2) 0 nz by (auto simp: phase_of_Cons split: if_splits)
        qed
        moreover have "d q \<noteq> 0" using q' sets q by (auto simp: ready)
        moreover have "distinct ready" using "1.prems"(2) by (simp add: ready indegree_inv_def)
        ultimately have "{p \<in> set ready. (p, q) \<in> edge_set cs} \<noteq> {}" by (auto simp: relax_apply)
        then show ?thesis using 0 sets by (auto simp: ph)
      next
        case (Suc j)
        then obtain p where "p \<in> set rest" "(p, q) \<in> edge_set cs" "phase_of ls p = j"
          using IH q' unfolding good_levels_def by blast
        then show ?thesis using Suc sets by (intro bexI [of _ p]) (auto simp: ph)
      qed
    qed
    show ?thesis unfolding good_levels_def using part fwd tight by blast
  qed
qed

lemma kahn_stuck:
  "kahn cs d rem = Inl e \<Longrightarrow> indegree_inv cs d rem \<Longrightarrow>
   e = CompositeCompilationError ''primary artifact channel graph must be acyclic'' \<and> \<not> acyclic (edge_set cs)"
proof (induction cs d rem rule: kahn.induct)
  case (1 cs d rem)
  define ready where ready: "ready = filter (\<lambda>a. d a = 0) rem"
  have ne: "rem \<noteq> []" using "1.prems" by (auto simp: kahn.simps)
  show ?case
  proof (cases "ready = []")
    case True
    have e: "e = CompositeCompilationError ''primary artifact channel graph must be acyclic''"
      using "1.prems"(1) ne True ready by (subst (asm) kahn.simps) (simp add: Let_def)
    have "\<exists>p\<in>set rem. (p, q) \<in> edge_set cs" if "q \<in> set rem" for q
    proof -
      have "d q \<noteq> 0" using True ready that by (auto simp: filter_empty_conv)
      then show ?thesis using indegree_zero_iff [OF "1.prems"(2) that] by blast
    qed
    moreover have "wf (edge_set cs)" if "acyclic (edge_set cs)"
      using that by (simp add: finite_acyclic_wf)
    ultimately have "\<not> acyclic (edge_set cs)"
      using ne by (metis list.set_sel(1) wfE_min)
    with e show ?thesis by simp
  next
    case False
    have "kahn cs (relax cs ready d) (filter (\<lambda>a. a \<notin> set ready) rem) = Inl e"
      using "1.prems"(1) ne False ready
      by (subst (asm) kahn.simps) (auto simp: Let_def bindE_def split: sum.splits)
    then show ?thesis using "1.IH" [OF ne ready False] indegree_inv_step [OF "1.prems"(2) ready] by blast
  qed
qed

lemma good_levels_trancl:
  assumes "good_levels cs nodes levels"
    and "\<forall>c\<in>set cs. producer_actor_id c \<in> set nodes \<and> consumer_actor_id c \<in> set nodes"
  shows "(p, q) \<in> (edge_set cs)\<^sup>+ \<Longrightarrow> phase_of levels p < phase_of levels q"
proof -
  have fwd: "(p, q) \<in> edge_set cs \<Longrightarrow> phase_of levels p < phase_of levels q" for p q
    using assms unfolding good_levels_def in_edge_set by blast
  show "(p, q) \<in> (edge_set cs)\<^sup>+ \<Longrightarrow> phase_of levels p < phase_of levels q"
  proof (induction rule: trancl_induct)
    case (step y z)
    then show ?case using fwd [of y z] by simp
  qed (rule fwd)
qed

lemma good_levels_acyclic:
  assumes "good_levels cs nodes levels"
    and "\<forall>c\<in>set cs. producer_actor_id c \<in> set nodes \<and> consumer_actor_id c \<in> set nodes"
  shows "acyclic (edge_set cs)"
  using good_levels_trancl [OF assms] by (auto simp: acyclic_def)

lemma indegree_inv_init:
  assumes "distinct nodes" and "\<forall>c\<in>set cs. producer_actor_id c \<in> set nodes"
  shows "indegree_inv cs (indegree_of cs) nodes"
proof -
  have "{p \<in> set nodes. (p, a) \<in> edge_set cs} = set (predecessors cs a)" for a
    using assms(2) by (auto simp: in_edge_set predecessors_def)
  moreover have "card (set (predecessors cs a)) = length (predecessors cs a)" for a
    by (rule distinct_card) (simp add: predecessors_def)
  ultimately show ?thesis using assms(1) by (simp add: indegree_inv_def indegree_of_def)
qed

section \<open>The compiled topology\<close>

text \<open>\<open>next(...)\<close> over the channels raises \<open>StopIteration\<close> when no channel matches.\<close>

definition feedback_channel :: "harness_protocol \<Rightarrow> channel option res" where
  "feedback_channel p = optE (\<lambda>r.
     case find_channel (feedback_channel_id r) (artifact_channels p) of
       None \<Rightarrow> Inl StopIteration | Some c \<Rightarrow> Inr c) (revision p)"

definition is_feedback :: "channel option \<Rightarrow> channel \<Rightarrow> bool" where
  "is_feedback feedback c = (case feedback of None \<Rightarrow> False | Some f \<Rightarrow> channel_id c = channel_id f)"

definition primary_channels :: "harness_protocol \<Rightarrow> channel option \<Rightarrow> channel list" where
  "primary_channels p feedback = filter (\<lambda>c. \<not> is_feedback feedback c) (artifact_channels p)"

definition require_path :: "adjacency \<Rightarrow> string \<Rightarrow> string \<Rightarrow> string \<Rightarrow> unit res" where
  "require_path adj target msg a =
     bindE (path_exists a target adj) (\<lambda>found. raise_if (\<not> found) (CompositeCompilationError msg))"

definition check_final_sink :: "harness_protocol \<Rightarrow> adjacency \<Rightarrow> channel list \<Rightarrow> unit res" where
  "check_final_sink p adj primary =
     thenE (raise_if (successors primary (final_actor p) \<noteq> [])
       (CompositeCompilationError ''the final actor must be the sink of the primary artifact graph''))
     (forE (require_path adj (final_actor p) ''actor has no artifact path to the final actor'') (actor_ids p))"

definition check_feedback_paths :: "harness_protocol \<Rightarrow> adjacency \<Rightarrow> channel \<Rightarrow> unit res" where
  "check_feedback_paths p adj f =
     thenE (require_path adj (producer_actor_id f)
       ''revision feedback must come from an actor downstream of the reviser'' (final_actor p))
     (forE (require_path adj (producer_actor_id f) ''actor has no artifact path to revision feedback'') (actor_ids p))"

definition check_producers :: "harness_protocol \<Rightarrow> channel option \<Rightarrow> unit res" where
  "check_producers p feedback = forE (\<lambda>a.
     if a = final_actor p \<and> feedback = None then Inr ()
     else raise_if (\<not> list_ex (\<lambda>c. producer_actor_id c = a) (artifact_channels p))
       (CompositeCompilationError ''non-terminal actor must produce an artifact'')) (actor_ids p)"

definition compile_topology ::
    "harness_protocol \<Rightarrow> (string list list \<times> (string \<Rightarrow> nat) \<times> channel option) res" where
  "compile_topology p =
     bindE (feedback_channel p) (\<lambda>feedback.
     let primary = primary_channels p feedback;
         adj = adjacency_of (actor_ids p) primary in
     thenE (raise_if (1 < length (actors p) \<and> artifact_channels p = [])
       (CompositeCompilationError ''multi-actor protocols require consequential artifact exchange'')) (
     bindE (kahn primary (indegree_of primary) (actor_ids p)) (\<lambda>levels.
     thenE (case feedback of
         None \<Rightarrow> check_final_sink p adj primary
       | Some f \<Rightarrow> check_feedback_paths p adj f) (
     thenE (check_producers p feedback)
     (Inr (levels, phase_of levels, feedback))))))"

text \<open>The accepted topologies, stated over the edges.\<close>

definition protocol_feedback :: "harness_protocol \<Rightarrow> channel option" where
  "protocol_feedback p = (case revision p of None \<Rightarrow> None
     | Some r \<Rightarrow> find_channel (feedback_channel_id r) (artifact_channels p))"

definition primary_edges :: "harness_protocol \<Rightarrow> (string \<times> string) set" where
  "primary_edges p = edge_set (primary_channels p (protocol_feedback p))"

definition paths_ok :: "harness_protocol \<Rightarrow> bool" where
  "paths_ok p \<longleftrightarrow> (case protocol_feedback p of
       None \<Rightarrow> (\<forall>c\<in>set (artifact_channels p). producer_actor_id c \<noteq> final_actor p) \<and>
         (\<forall>a\<in>set (actor_ids p). (a, final_actor p) \<in> (primary_edges p)\<^sup>*)
     | Some f \<Rightarrow> \<forall>a\<in>set (actor_ids p). (a, producer_actor_id f) \<in> (primary_edges p)\<^sup>*)"

definition topology_ok :: "harness_protocol \<Rightarrow> bool" where
  "topology_ok p \<longleftrightarrow> (1 < length (actors p) \<longrightarrow> artifact_channels p \<noteq> []) \<and>
     acyclic (primary_edges p) \<and> paths_ok p \<and>
     (\<forall>a\<in>set (actor_ids p). (a = final_actor p \<and> revision p = None) \<or>
        (\<exists>c\<in>set (artifact_channels p). producer_actor_id c = a))"

lemma feedback_channel_ok:
  "protocol_ok p \<Longrightarrow> feedback_channel p = Inr (protocol_feedback p) \<and>
     (protocol_feedback p = None \<longleftrightarrow> revision p = None)"
  by (cases "revision p")
    (auto simp: feedback_channel_def protocol_feedback_def protocol_ok_def refs_ok_def feedback_ok_def)

lemma protocol_feedback_Some:
  assumes "protocol_ok p" and "protocol_feedback p = Some f"
  shows "f \<in> set (artifact_channels p)" and "consumer_actor_id f = final_actor p"
    and "producer_actor_id f \<in> set (actor_ids p)"
proof -
  obtain r where r: "revision p = Some r" and f: "find_channel (feedback_channel_id r) (artifact_channels p) = Some f"
    using assms(2) by (auto simp: protocol_feedback_def split: option.splits)
  then show in_cs: "f \<in> set (artifact_channels p)" unfolding find_channel_def by (blast dest: find_key_Some)
  show "consumer_actor_id f = final_actor p"
    using assms(1) r f by (auto simp: protocol_ok_def refs_ok_def feedback_ok_def)
  show "producer_actor_id f \<in> set (actor_ids p)"
    using assms(1) in_cs by (simp add: protocol_ok_def refs_ok_def)
qed

lemma map_of_adjacency: "map_of (adjacency_of nodes cs) a = (if a \<in> set nodes then Some (successors cs a) else None)"
  by (induction nodes) (auto simp: adjacency_of_def)

lemma fst_adjacency [simp]: "fst ` set (adjacency_of nodes cs) = set nodes"
  by (force simp: adjacency_of_def)

lemma edges_of_adjacency:
  "\<forall>c\<in>set cs. producer_actor_id c \<in> set nodes \<Longrightarrow> edges_of (adjacency_of nodes cs) = edge_set cs"
  by (auto simp: edges_of_def map_of_adjacency edge_set_def successors_def split: if_splits)

lemma closed_adjacency_of:
  "\<forall>c\<in>set cs. consumer_actor_id c \<in> set nodes \<Longrightarrow> closed_adjacency (adjacency_of nodes cs)"
  by (auto simp: closed_adjacency_def map_of_adjacency successors_def split: if_splits)

lemma primary_endpoints:
  assumes "protocol_ok p"
  shows "\<forall>c\<in>set (primary_channels p f). producer_actor_id c \<in> set (actor_ids p) \<and> consumer_actor_id c \<in> set (actor_ids p)"
  using assms by (simp add: primary_channels_def protocol_ok_def refs_ok_def)



text \<open>A check that raises only compilation errors, exactly when its condition fails.\<close>

definition decides :: "unit res \<Rightarrow> bool \<Rightarrow> bool" where
  "decides m P \<longleftrightarrow> (case m of Inr _ \<Rightarrow> P | Inl e \<Rightarrow> \<not> P \<and> (\<exists>msg. e = CompositeCompilationError msg))"

lemma decides_raise [intro]: "decides (raise_if b (CompositeCompilationError m)) (\<not> b)"
  by (simp add: decides_def raise_if_def)

lemma decides_ok [intro]: "decides (Inr ()) True"
  by (simp add: decides_def)

lemma decides_then: "decides m P \<Longrightarrow> decides n Q \<Longrightarrow> decides (thenE m n) (P \<and> Q)"
  by (auto simp: decides_def thenE_def split: sum.splits)

lemma decides_forE: "(\<And>x. x \<in> set xs \<Longrightarrow> decides (f x) (P x)) \<Longrightarrow> decides (forE f xs) (\<forall>x\<in>set xs. P x)"
proof (induction xs)
  case (Cons x xs)
  have "decides (thenE (f x) (forE f xs)) (P x \<and> (\<forall>x\<in>set xs. P x))"
    using Cons by (intro decides_then) auto
  then show ?case by simp
qed (simp add: decides_def)

lemma decides_require_path:
  assumes "protocol_ok p" and "adj = adjacency_of (actor_ids p) (primary_channels p f)"
    and "a \<in> set (actor_ids p)"
  shows "decides (require_path adj t msg a) ((a, t) \<in> (edge_set (primary_channels p f))\<^sup>*)"
proof -
  have "path_exists a t adj = Inr ((a, t) \<in> (edges_of adj)\<^sup>*)"
    using path_exists_iff [OF closed_adjacency_of] primary_endpoints [OF assms(1)] assms(2,3) by simp
  moreover have "edges_of adj = edge_set (primary_channels p f)"
    using edges_of_adjacency primary_endpoints [OF assms(1)] assms(2) by simp
  ultimately show ?thesis by (simp add: require_path_def decides_def raise_if_def)
qed


lemma decides_paths:
  assumes ok: "protocol_ok p" and adj: "adj = adjacency_of (actor_ids p) (primary_channels p (protocol_feedback p))"
  shows "decides (case protocol_feedback p of
      None \<Rightarrow> check_final_sink p adj (primary_channels p (protocol_feedback p))
    | Some f \<Rightarrow> check_feedback_paths p adj f) (paths_ok p)"
proof (cases "protocol_feedback p")
  case None
  have "successors (primary_channels p None) a = [] \<longleftrightarrow> (\<forall>c\<in>set (artifact_channels p). producer_actor_id c \<noteq> a)" for a
    by (auto simp: successors_def primary_channels_def is_feedback_def filter_empty_conv)
  then have "decides (raise_if (successors (primary_channels p None) (final_actor p) \<noteq> []) (CompositeCompilationError m))
      (\<forall>c\<in>set (artifact_channels p). producer_actor_id c \<noteq> final_actor p)" for m
    by (auto simp: decides_def raise_if_def)
  then have "decides (check_final_sink p adj (primary_channels p None))
     ((\<forall>c\<in>set (artifact_channels p). producer_actor_id c \<noteq> final_actor p) \<and>
      (\<forall>a\<in>set (actor_ids p). (a, final_actor p) \<in> (edge_set (primary_channels p None))\<^sup>*))"
    unfolding check_final_sink_def using adj None
    by (intro decides_then decides_forE decides_require_path [OF ok]) simp_all
  then show ?thesis using None by (simp add: paths_ok_def primary_edges_def)
next
  case (Some f)
  have fin: "final_actor p \<in> set (actor_ids p)" using ok by (simp add: protocol_ok_def refs_ok_def)
  have "decides (check_feedback_paths p adj f)
     ((final_actor p, producer_actor_id f) \<in> (edge_set (primary_channels p (Some f)))\<^sup>* \<and>
      (\<forall>a\<in>set (actor_ids p). (a, producer_actor_id f) \<in> (edge_set (primary_channels p (Some f)))\<^sup>*))"
    unfolding check_feedback_paths_def using adj Some fin
    by (intro decides_then decides_forE decides_require_path [OF ok]) simp_all
  moreover have "((final_actor p, producer_actor_id f) \<in> (edge_set (primary_channels p (Some f)))\<^sup>* \<and>
      (\<forall>a\<in>set (actor_ids p). (a, producer_actor_id f) \<in> (edge_set (primary_channels p (Some f)))\<^sup>*)) \<longleftrightarrow> paths_ok p"
    using fin Some unfolding paths_ok_def primary_edges_def by auto
  ultimately show ?thesis using Some by simp
qed

lemma decides_producers:
  assumes "protocol_ok p"
  shows "decides (check_producers p (protocol_feedback p)) (\<forall>a\<in>set (actor_ids p).
    (a = final_actor p \<and> revision p = None) \<or> (\<exists>c\<in>set (artifact_channels p). producer_actor_id c = a))"
  unfolding check_producers_def using feedback_channel_ok [OF assms]
  by (intro decides_forE) (auto simp: decides_def raise_if_def list_ex_iff)

lemma kahn_decides:
  assumes "protocol_ok p" and "cs = primary_channels p (protocol_feedback p)"
  shows "case kahn cs (indegree_of cs) (actor_ids p) of
      Inr levels \<Rightarrow> acyclic (primary_edges p) \<and> good_levels cs (actor_ids p) levels
    | Inl e \<Rightarrow> \<not> acyclic (primary_edges p) \<and> (\<exists>msg. e = CompositeCompilationError msg)"
proof -
  have dist: "distinct (actor_ids p)" using assms(1) by (simp add: protocol_ok_def refs_ok_def)
  have ends: "\<forall>c\<in>set cs. producer_actor_id c \<in> set (actor_ids p) \<and> consumer_actor_id c \<in> set (actor_ids p)"
    using primary_endpoints [OF assms(1)] assms(2) by blast
  have inv: "indegree_inv cs (indegree_of cs) (actor_ids p)"
    using indegree_inv_init [OF dist] ends by blast
  have E: "primary_edges p = edge_set cs" by (simp add: primary_edges_def assms(2))
  show ?thesis
  proof (cases "kahn cs (indegree_of cs) (actor_ids p)")
    case (Inl e)
    then show ?thesis using kahn_stuck [OF Inl inv] E by auto
  next
    case (Inr levels)
    then show ?thesis using kahn_good [OF Inr inv] good_levels_acyclic [OF _ ends] E by simp
  qed
qed

lemma topology_decision:
  assumes "protocol_ok p"
  shows "case compile_topology p of
      Inr (levels, phase, feedback) \<Rightarrow> topology_ok p \<and> feedback = protocol_feedback p \<and>
        phase = phase_of levels \<and> good_levels (primary_channels p feedback) (actor_ids p) levels
    | Inl e \<Rightarrow> \<not> topology_ok p \<and> (\<exists>msg. e = CompositeCompilationError msg)"
proof -
  let ?f = "protocol_feedback p" let ?cs = "primary_channels p ?f"
  have fb: "feedback_channel p = Inr ?f" using feedback_channel_ok [OF assms] by simp
  note P = decides_paths [OF assms refl] and Q = decides_producers [OF assms]
  note K = kahn_decides [OF assms refl]
  show ?thesis
  proof (cases "1 < length (actors p) \<and> artifact_channels p = []")
    case True
    then show ?thesis by (simp add: compile_topology_def fb topology_ok_def)
  next
    case exch: False
    show ?thesis
    proof (cases "kahn ?cs (indegree_of ?cs) (actor_ids p)")
      case (Inl e)
      have "raise_if (1 < length (actors p) \<and> artifact_channels p = []) x = Inr ()" for x
        using exch by (simp add: raise_if_def)
      then show ?thesis using K Inl by (simp add: compile_topology_def fb topology_ok_def Let_def)
    next
      case (Inr levels)
      let ?adj = "adjacency_of (actor_ids p) ?cs"
      let ?m = "thenE (case ?f of None \<Rightarrow> check_final_sink p ?adj ?cs
          | Some f \<Rightarrow> check_feedback_paths p ?adj f) (check_producers p ?f)"
      have "compile_topology p = thenE ?m (Inr (levels, phase_of levels, ?f))"
        using exch Inr by (auto simp: compile_topology_def fb Let_def thenE_def split: sum.splits)
      moreover have "decides ?m (topology_ok p)"
        using decides_then [OF P Q] exch K Inr by (simp add: topology_ok_def)
      ultimately show ?thesis using K Inr by (auto simp: decides_def thenE_def split: sum.splits)
    qed
  qed
qed

lemma compile_topology_Inr:
  assumes "protocol_ok p" and "compile_topology p = Inr (levels, phase, feedback)"
  shows "topology_ok p" and "feedback = protocol_feedback p" and "phase = phase_of levels"
    and "good_levels (primary_channels p feedback) (actor_ids p) levels"
  using topology_decision [OF assms(1), unfolded assms(2) sum.case prod.case] by blast+


text \<open>The seed with a reviewer whose findings the implementer revises its patch with.\<close>

definition sample_review_protocol :: harness_protocol where
  "sample_review_protocol = \<lparr>
     actors = [sample_actor ''investigator'' [RepoDiff, RepoRead, RepoSearch] 3000,
               sample_actor ''implementer'' [RepoDiff, RepoEdit, RepoRead] 5000,
               sample_actor ''reviewer'' [RepoDiff] 2000],
     artifact_channels = [
       \<lparr>channel_id = ''investigation'', producer_actor_id = ''investigator'', consumer_actor_id = ''implementer''\<rparr>,
       \<lparr>channel_id = ''patch'', producer_actor_id = ''implementer'', consumer_actor_id = ''reviewer''\<rparr>,
       \<lparr>channel_id = ''review'', producer_actor_id = ''reviewer'', consumer_actor_id = ''implementer''\<rparr>],
     revision = Some \<lparr>rev_actor_id = ''implementer'', feedback_channel_id = ''review'',
       rev_instruction = ''address the findings''\<rparr>,
     protocol_termination = \<lparr>final_actor_id = ''implementer''\<rparr>\<rparr>"

lemma sample_review_ok: "protocol_ok sample_review_protocol"
  unfolding protocol_ok_iff by code_simp

text \<open>C7: for a validated protocol, compiling the topology succeeds exactly on the topologies with an
  acyclic primary graph in which every actor reaches the final actor (or the producer of the
  revision feedback) and produces something; it then returns levels that partition the actors,
  send every primary channel strictly forward and place no actor later than its predecessors
  require. Otherwise it raises \<open>CompositeCompilationError\<close>, never an internal error.\<close>

theorem compile_topology_decides:
  assumes "protocol_ok p"
  shows "case compile_topology p of
      Inr (levels, phase, feedback) \<Rightarrow> topology_ok p \<and> feedback = protocol_feedback p \<and>
        phase = phase_of levels \<and> good_levels (primary_channels p feedback) (actor_ids p) levels
    | Inl e \<Rightarrow> \<not> topology_ok p \<and> (\<exists>msg. e = CompositeCompilationError msg)"
  by (rule topology_decision [OF assms])

lemma sample_topology_ok: "topology_ok sample_protocol" "topology_ok sample_review_protocol"
proof -
  have "\<not> isl (compile_topology sample_protocol)" "\<not> isl (compile_topology sample_review_protocol)" by code_simp+
  then show "topology_ok sample_protocol" "topology_ok sample_review_protocol"
    using topology_decision [OF sample_protocol_ok] topology_decision [OF sample_review_ok]
    by (auto split: sum.splits)
qed

theorem compile_topology_decides_witness:
  "\<not> topology_ok (sample_review_protocol\<lparr>revision := None\<rparr>)"
proof -
  have ok: "protocol_ok (sample_review_protocol\<lparr>revision := None\<rparr>)" unfolding protocol_ok_iff by code_simp
  have "isl (compile_topology (sample_review_protocol\<lparr>revision := None\<rparr>))" by code_simp
  then show ?thesis
    using compile_topology_decides [OF ok] by (auto split: sum.splits)
qed

end
