(* ===== verification/Compiler.thy ===== *)
theory Compiler
  imports Topology
begin

text \<open>
  The composite compiler (\<open>runtime/api/composite_compiler.py\<close>): a task, a protocol and a dependency
  manifest become one run plan of actor calls, stages, artifact deliveries, verification,
  termination, budget ledger and the liveness manifest of every mutable field. A dict built from
  a list of unique keys is a lookup in the list that raises \<open>KeyError\<close> on a miss. The compiler
  metadata is a JSON resource of the package and so an argument. The results: the plan runs every
  producer before its consumers, emits exactly one final patch in its last stage, covers exactly
  the mutable fields, and the compiler fails only with the errors it documents.
\<close>

section \<open>Inputs\<close>

definition normalize_task :: "sha256 \<Rightarrow> task_envelope \<Rightarrow> task_envelope res" where
  "normalize_task sha t = catchE is_value_error
     (\<lambda>_. CompositeCompilationError ''invalid TaskEnvelope'') (validate_task_envelope sha t)"

definition normalize_protocol :: "harness_protocol \<Rightarrow> harness_protocol res" where
  "normalize_protocol p = catchE is_value_error
     (\<lambda>_. CompositeCompilationError ''invalid HarnessProtocol'') (validate_harness_protocol p)"

definition normalize_dependencies :: "dependency_manifest \<Rightarrow> dependency_manifest res" where
  "normalize_dependencies m = catchE is_value_error
     (\<lambda>_. CompositeCompilationError ''invalid RuntimeDependencyManifest'') (validate_dependency_manifest m)"

definition check_actor_tools :: "tool_id list \<Rightarrow> tool_id list \<Rightarrow> harness_actor \<Rightarrow> unit res" where
  "check_actor_tools pinned allowed a =
     thenE (raise_if (\<not> subset_list (tool_ids a) pinned)
       (CompositeCompilationError ''actor references unpinned tools''))
     (raise_if (\<not> subset_list (tool_ids a) allowed)
       (CompositeCompilationError ''actor references task-denied tools''))"

definition validate_dependency_contract ::
    "task_envelope \<Rightarrow> harness_protocol \<Rightarrow> dependency_manifest \<Rightarrow> compiler_metadata \<Rightarrow> unit res" where
  "validate_dependency_contract t p m md =
     thenE (raise_if (dm_contract_version m \<noteq> te_contract_version t) (CompositeCompilationError
       ''runtime dependency manifest and task use different contract versions'')) (
     thenE (raise_if (dependency_id (dm_compiler m) \<noteq> compiler_id md)
       (CompositeCompilationError ''compiler dependency identity is not supported'')) (
     thenE (raise_if (dr_interface_version (dm_compiler m) \<noteq> compiler_version md)
       (CompositeCompilationError ''compiler dependency version is not supported'')) (
     thenE (raise_if (dependency_id (dm_harness_contract m) \<noteq> harness_contract_id md)
       (CompositeCompilationError ''harness contract dependency is not supported'')) (
     thenE (raise_if (dr_interface_version (dm_harness_contract m) \<noteq> ''repo-repair-harness-v1'')
       (CompositeCompilationError ''harness contract version is not supported'')) (
     let pinned = map tt_tool_id (trusted_tools m) in
     thenE (raise_if (\<not> (subset_list pinned (md_trusted_tool_ids md) \<and> subset_list (md_trusted_tool_ids md) pinned))
       (CompositeCompilationError ''runtime dependency manifest must pin every fixed trusted tool'')) (
     forE (check_actor_tools pinned (allowed_capabilities t)) (actors p)))))))"

section \<open>Calls and deliveries\<close>

definition initial_call_id :: "string \<Rightarrow> string" where
  "initial_call_id a = ''actor.'' @ a @ ''.initial''"

definition revision_call_id :: "string \<Rightarrow> string" where
  "revision_call_id a = ''actor.'' @ a @ ''.revision''"

definition artifact_id_of :: "string \<Rightarrow> string" where
  "artifact_id_of ch = ''artifact.'' @ ch"

definition lookup_actor :: "harness_protocol \<Rightarrow> string \<Rightarrow> harness_actor res" where
  "lookup_actor p a = (case find (\<lambda>x. act_id x = a) (actors p) of
     None \<Rightarrow> Inl (KeyError a) | Some x \<Rightarrow> Inr x)"

definition initial_id_of :: "harness_protocol \<Rightarrow> string \<Rightarrow> string res" where
  "initial_id_of p a = (if a \<in> set (actor_ids p) then Inr (initial_call_id a) else Inl (KeyError a))"

fun task_context_read :: "task_view_field \<Rightarrow> context_read" where
  "task_context_read ViewWorkspace = \<lparr>read_id = ''workspace.scratch_binding'',
     source_kind = SourceWorkspace, source_ref = ''scratch_workspace''\<rparr>"
| "task_context_read ViewSessionCarryover = \<lparr>read_id = ''session.public_carryover'',
     source_kind = SourceSession, source_ref = ''public_carryover''\<rparr>"
| "task_context_read v = \<lparr>read_id = ''task.'' @ view_name v, source_kind = SourceTask,
     source_ref = view_name v\<rparr>"

definition artifact_read :: "artifact_delivery \<Rightarrow> context_read" where
  "artifact_read d = \<lparr>read_id = artifact_id_of (ad_channel_id d), source_kind = SourceArtifact,
     source_ref = ad_artifact_id d\<rparr>"

definition compile_delivery :: "harness_protocol \<Rightarrow> channel option \<Rightarrow> channel \<Rightarrow> artifact_delivery res" where
  "compile_delivery p feedback c =
     bindE (initial_id_of p (consumer_actor_id c)) (\<lambda>initial.
     bindE (if is_feedback feedback c then
              (case revision p of
                 None \<Rightarrow> Inl (AssertionError ''feedback channel requires a revision call'')
               | Some r \<Rightarrow> Inr (revision_call_id (rev_actor_id r)))
            else Inr initial) (\<lambda>consumer_call.
     bindE (initial_id_of p (producer_actor_id c)) (\<lambda>producer_call.
     Inr \<lparr>ad_channel_id = channel_id c, ad_artifact_id = artifact_id_of (channel_id c),
       ad_producer_call_id = producer_call, ad_consumer_call_id = consumer_call\<rparr>)))"

definition deliveries_to :: "artifact_delivery list \<Rightarrow> string \<Rightarrow> artifact_delivery list" where
  "deliveries_to ds cid = filter (\<lambda>d. ad_consumer_call_id d = cid) ds"

definition compile_writes :: "task_envelope \<Rightarrow> harness_protocol \<Rightarrow> string \<Rightarrow> artifact_write list res" where
  "compile_writes t p a = mapE (\<lambda>c. validate_artifact_write
       \<lparr>aw_channel_id = channel_id c, aw_artifact_id = artifact_id_of (channel_id c),
        aw_producer_call_id = initial_call_id a, aw_max_bytes = max_artifact_bytes (ceilings t)\<rparr>)
     (filter (\<lambda>c. producer_actor_id c = a) (artifact_channels p))"

definition compile_initial_call ::
    "task_envelope \<Rightarrow> harness_protocol \<Rightarrow> artifact_delivery list \<Rightarrow> string \<Rightarrow> actor_call res" where
  "compile_initial_call t p ds i =
     bindE (lookup_actor p i) (\<lambda>a.
     bindE (compile_writes t p i) (\<lambda>writes.
     validate_actor_call
       \<lparr>call_id = initial_call_id i, call_actor_id = i, call_kind = InitialCall,
        call_instruction = instruction a, call_revision_instruction = None,
        context_reads = map task_context_read (task_view a) @
          map artifact_read (deliveries_to ds (initial_call_id i)),
        artifact_writes = writes, call_tool_ids = tool_ids a, call_bps = budget_share_bps a,
        emits_final_patch = (revision p = None \<and> i = final_actor p)\<rparr>))"

definition compile_revision_call ::
    "harness_protocol \<Rightarrow> artifact_delivery list \<Rightarrow> harness_revision \<Rightarrow> actor_call res" where
  "compile_revision_call p ds r =
     bindE (lookup_actor p (rev_actor_id r)) (\<lambda>a.
     let initial = initial_call_id (act_id a); rev_call = revision_call_id (rev_actor_id r) in
     validate_actor_call
       \<lparr>call_id = rev_call, call_actor_id = act_id a, call_kind = RevisionCall,
        call_instruction = instruction a, call_revision_instruction = Some (rev_instruction r),
        context_reads = map task_context_read (task_view a) @
          map artifact_read (deliveries_to ds initial) @
          [\<lparr>read_id = ''prior.'' @ initial, source_kind = SourcePriorOutput, source_ref = initial\<rparr>] @
          map artifact_read (deliveries_to ds rev_call),
        artifact_writes = [], call_tool_ids = tool_ids a, call_bps = budget_share_bps a,
        emits_final_patch = True\<rparr>)"

definition compile_calls_and_deliveries ::
    "task_envelope \<Rightarrow> harness_protocol \<Rightarrow> string list list \<Rightarrow> channel option \<Rightarrow>
     (actor_call list \<times> artifact_delivery list \<times> string) res" where
  "compile_calls_and_deliveries t p levels feedback =
     bindE (mapE (compile_delivery p feedback) (artifact_channels p)) (\<lambda>ds.
     bindE (mapE (compile_initial_call t p ds) (concat levels)) (\<lambda>calls.
     case revision p of
       Some r \<Rightarrow> bindE (compile_revision_call p ds r) (\<lambda>c.
         Inr (calls @ [c], ds, revision_call_id (rev_actor_id r)))
     | None \<Rightarrow> bindE (initial_id_of p (final_actor p)) (\<lambda>f. Inr (calls, ds, f))))"

section \<open>Stages\<close>

definition stage_name :: "nat \<Rightarrow> string" where
  "stage_name i = ''stage.'' @ show_nat i"

definition compile_stage ::
    "harness_protocol \<Rightarrow> (string \<Rightarrow> nat) \<Rightarrow> channel option \<Rightarrow> nat \<Rightarrow> string list \<Rightarrow> plan_stage res" where
  "compile_stage p phase feedback i level =
     (let cids = map initial_call_id level;
          inbound = map channel_id (filter (\<lambda>c. \<not> is_feedback feedback c \<and> consumer_actor_id c \<in> set level)
            (artifact_channels p));
          parents = sort (remdups (map (\<lambda>c. phase (producer_actor_id c))
            (filter (\<lambda>c. channel_id c \<in> set inbound) (artifact_channels p))))
      in validate_plan_stage
        \<lparr>stage_id = stage_name i, stage_index = i, stage_call_ids = cids,
         depends_on_stage_ids = map stage_name parents, inbound_channel_ids = inbound,
         stage_fork = (1 < length cids), stage_join = (1 < length parents \<or> 1 < length inbound),
         stage_revision = False\<rparr>)"

definition compile_revision_stage ::
    "harness_revision \<Rightarrow> (string \<Rightarrow> nat) \<Rightarrow> channel \<Rightarrow> nat \<Rightarrow> plan_stage res" where
  "compile_revision_stage r phase f i = validate_plan_stage
     \<lparr>stage_id = stage_name i, stage_index = i, stage_call_ids = [revision_call_id (rev_actor_id r)],
      depends_on_stage_ids = [stage_name (phase (producer_actor_id f))],
      inbound_channel_ids = [channel_id f], stage_fork = False, stage_join = False, stage_revision = True\<rparr>"

definition compile_stages ::
    "harness_protocol \<Rightarrow> string list list \<Rightarrow> (string \<Rightarrow> nat) \<Rightarrow> channel option \<Rightarrow> plan_stage list res" where
  "compile_stages p levels phase feedback =
     bindE (mapE (\<lambda>(i, l). compile_stage p phase feedback i l) (enumerate 0 levels)) (\<lambda>sts.
     case (feedback, revision p) of
       (Some f, Some r) \<Rightarrow> bindE (compile_revision_stage r phase f (length sts)) (\<lambda>s. Inr (sts @ [s]))
     | _ \<Rightarrow> Inr sts)"

section \<open>Liveness of the mutable fields\<close>

text \<open>The arguments of one \<open>add\<close>: source path, source value, consumers, owners.\<close>

type_synonym field_entry = "string \<times> pyval \<times> string list \<times> runtime_owner list"

definition add_binding :: "sha256 \<Rightarrow> field_entry \<Rightarrow> consumed_field_binding res" where
  "add_binding sha e = (case e of (path, value, consumers, owners) \<Rightarrow>
     thenE (raise_if (consumers = [])
       (CompositeCompilationError ''mutable field has no normalized-plan consumer''))
     (validate_consumed_field_binding
       \<lparr>binding_source_path = path, source_value_digest = source_field_digest sha value,
        plan_consumer_paths = consumers, runtime_owners = owners\<rparr>))"

definition compiled_call_ids_for_actor :: "string \<Rightarrow> actor_call list \<Rightarrow> string list" where
  "compiled_call_ids_for_actor a calls = map call_id (filter (\<lambda>c. call_actor_id c = a) calls)"

definition call_path :: "string \<Rightarrow> string \<Rightarrow> string" where
  "call_path cid field_name = ''actor_calls['' @ cid @ ''].'' @ field_name"

definition delivery_path :: "string \<Rightarrow> string \<Rightarrow> string" where
  "delivery_path ch field_name = ''artifact_deliveries['' @ ch @ ''].'' @ field_name"

definition actor_entries :: "actor_call list \<Rightarrow> harness_actor \<Rightarrow> field_entry list" where
  "actor_entries calls a =
     (let prefix = actor_prefix (act_id a); cids = compiled_call_ids_for_actor (act_id a) calls in
      [(prefix @ ''.task_view'', PList (map (\<lambda>v. PStr (view_name v)) (task_view a)),
        map (\<lambda>i. call_path i ''context_reads'') cids, [ActorContext]),
       (prefix @ ''.instruction'', PStr (instruction a),
        map (\<lambda>i. call_path i ''instruction'') cids, [ActorContext]),
       (prefix @ ''.tool_ids'', PList (map (\<lambda>t. PStr (tool_name t)) (tool_ids a)),
        map (\<lambda>i. call_path i ''tool_ids'') cids, [ToolAuthority]),
       (prefix @ ''.budget_share_bps'', PInt (budget_share_bps a),
        (''budget_ledger.actor_shares['' @ act_id a @ ''].budget_share_bps'') #
          map (\<lambda>i. call_path i ''budget_share_bps'') cids, [BudgetLedger])])"

definition lookup_delivery :: "artifact_delivery list \<Rightarrow> string \<Rightarrow> artifact_delivery res" where
  "lookup_delivery ds ch = (case find (\<lambda>d. ad_channel_id d = ch) ds of
     None \<Rightarrow> Inl (KeyError ch) | Some d \<Rightarrow> Inr d)"

definition channel_entries :: "channel \<Rightarrow> artifact_delivery \<Rightarrow> field_entry list" where
  "channel_entries c d =
     [(channel_prefix (channel_id c) @ ''.producer_actor_id'', PStr (producer_actor_id c),
       [delivery_path (channel_id c) ''producer_call_id'',
        call_path (ad_producer_call_id d) ''artifact_writes''], [ArtifactStore, Scheduler]),
      (channel_prefix (channel_id c) @ ''.consumer_actor_id'', PStr (consumer_actor_id c),
       [delivery_path (channel_id c) ''consumer_call_id'',
        call_path (ad_consumer_call_id d) ''context_reads''], [ArtifactStore, ActorContext, Scheduler])]"

definition revision_entries :: "harness_revision \<Rightarrow> field_entry list" where
  "revision_entries r =
     (let cid = revision_call_id (rev_actor_id r) in
      [(''revision.actor_id'', PStr (rev_actor_id r), [call_path cid ''actor_id''],
        [RevisionController, Scheduler]),
       (''revision.feedback_channel_id'', PStr (feedback_channel_id r),
        [delivery_path (feedback_channel_id r) ''consumer_call_id'', call_path cid ''context_reads''],
        [RevisionController, ArtifactStore]),
       (''revision.instruction'', PStr (rev_instruction r), [call_path cid ''revision_instruction''],
        [RevisionController, ActorContext])])"

definition final_entry :: "harness_protocol \<Rightarrow> actor_call \<Rightarrow> field_entry" where
  "final_entry p final_call = (''termination.final_actor_id'', PStr (final_actor p),
     [''termination.final_actor_call_id'', call_path (call_id final_call) ''emits_final_patch''],
     [TerminationController, Scheduler])"

definition compile_liveness_manifest ::
    "sha256 \<Rightarrow> harness_protocol \<Rightarrow> string \<Rightarrow> actor_call list \<Rightarrow> artifact_delivery list \<Rightarrow> liveness_manifest res" where
  "compile_liveness_manifest sha p source_dg calls ds =
     bindE (mapE (\<lambda>a. mapE (add_binding sha) (actor_entries calls a)) (actors p)) (\<lambda>bs1.
     bindE (mapE (\<lambda>c. bindE (lookup_delivery ds (channel_id c)) (\<lambda>d.
       mapE (add_binding sha) (channel_entries c d))) (artifact_channels p)) (\<lambda>bs2.
     bindE (case revision p of None \<Rightarrow> Inr [] | Some r \<Rightarrow> mapE (add_binding sha) (revision_entries r)) (\<lambda>bs3.
     bindE (case find emits_final_patch calls of None \<Rightarrow> Inl StopIteration | Some c \<Rightarrow> Inr c) (\<lambda>final_call.
     bindE (add_binding sha (final_entry p final_call)) (\<lambda>b.
     bindE (validate_liveness_manifest \<lparr>lm_source_digest = source_dg,
       bindings = concat bs1 @ concat bs2 @ bs3 @ [b]\<rparr>) (\<lambda>manifest.
     let expected = mutable_field_paths p; actual = map binding_source_path (bindings manifest) in
     thenE (raise_if (\<not> (subset_list actual expected \<and> subset_list expected actual))
       (CompositeCompilationError ''consumed-field manifest does not cover the complete mutable surface''))
     (Inr manifest)))))))"

section \<open>The compiler\<close>

definition call_signature :: "actor_call \<Rightarrow>
    string \<times> (source_kind \<times> string) list \<times> tool_id list \<times> string list \<times> bool" where
  "call_signature c = (call_instruction c, map (\<lambda>r. (source_kind r, source_ref r)) (context_reads c),
     call_tool_ids c, map aw_channel_id (artifact_writes c), emits_final_patch c)"

definition validate_actor_differentiation :: "actor_call list \<Rightarrow> unit res" where
  "validate_actor_differentiation calls =
     raise_if (\<not> distinct (map call_signature (filter (\<lambda>c. call_kind c = InitialCall) calls)))
       (CompositeCompilationError ''actors must have differentiated executable instructions, views, tools, artifact responsibilities, or termination roles'')"

definition compile_verification_step :: "public_reproduction_step \<Rightarrow> verification_action res" where
  "compile_verification_step s = validate_verification_action
     \<lparr>va_step_id = step_id s, va_argv = step_argv s, va_cwd = step_cwd s,
      va_timeout_ms = step_timeout_ms s, va_exit_codes = expected_exit_codes s\<rparr>"

definition compile_public_verification :: "task_envelope \<Rightarrow> string \<Rightarrow> public_verification_plan res" where
  "compile_public_verification t final_call =
     bindE (mapE compile_verification_step (public_reproduction t)) (\<lambda>acts.
     validate_public_verification_plan \<lparr>pv_actions = acts, run_after_call_id = final_call\<rparr>)"

definition compile_budget_ledger :: "task_envelope \<Rightarrow> harness_protocol \<Rightarrow> actor_call list \<Rightarrow> budget_ledger_plan res" where
  "compile_budget_ledger t p calls = validate_budget_ledger_plan
     \<lparr>aggregate_ceiling = ceilings t,
      actor_shares = map (\<lambda>a. (act_id a, budget_share_bps a)) (actors p),
      scheduled_model_calls = length calls,
      scheduled_revision_calls = (if revision p = None then 0 else 1)\<rparr>"

definition assemble_plan :: "sha256 \<Rightarrow> task_envelope \<Rightarrow> harness_protocol \<Rightarrow> dependency_manifest \<Rightarrow>
    actor_call list \<Rightarrow> plan_stage list \<Rightarrow> artifact_delivery list \<Rightarrow> public_verification_plan \<Rightarrow>
    termination_plan \<Rightarrow> budget_ledger_plan \<Rightarrow> liveness_manifest \<Rightarrow> run_plan" where
  "assemble_plan sha t p m calls sts ds verification term ledger live =
     (let plan = \<lparr>task_envelope_dg = task_manifest_digest t, source_protocol_dg = source_digest sha p,
        compiled_semantic_dg = [], plan_manifest = m, plan_manifest_dg = manifest_digest sha m,
        actor_calls = calls, stages = sts, artifact_deliveries = ds,
        public_verification = verification, plan_termination = term, budget_ledger = ledger,
        plan_liveness = live\<rparr>
      in plan\<lparr>compiled_semantic_dg := composite_plan_digest sha (semantic_payload plan)\<rparr>)"

definition compile_normalized :: "sha256 \<Rightarrow> task_envelope \<Rightarrow> harness_protocol \<Rightarrow> dependency_manifest \<Rightarrow>
    string option \<Rightarrow> run_plan res" where
  "compile_normalized sha t p m reject =
     bindE (compile_topology p) (\<lambda>(levels, phase, feedback).
     bindE (compile_calls_and_deliveries t p levels feedback) (\<lambda>(calls, ds, final_call).
     thenE (validate_actor_differentiation calls) (
     bindE (compile_stages p levels phase feedback) (\<lambda>sts.
     bindE (compile_liveness_manifest sha p (source_digest sha p) calls ds) (\<lambda>live.
     bindE (compile_public_verification t final_call) (\<lambda>verification.
     bindE (validate_termination_plan \<lparr>final_actor_call_id = final_call,
       tp_max_patch_bytes = max_patch_bytes (ceilings t)\<rparr>) (\<lambda>term.
     bindE (compile_budget_ledger t p calls) (\<lambda>ledger.
     let plan = assemble_plan sha t p m calls sts ds verification term ledger live in
     thenE (raise_if (reject = Some (compiled_semantic_dg plan))
       (InertProtocolError ''candidate protocol compiles to an exact semantic no-op''))
     (validate_run_plan sha plan)))))))))"

definition compile_composite_run_plan :: "sha256 \<Rightarrow> compiler_metadata \<Rightarrow> task_envelope \<Rightarrow> harness_protocol \<Rightarrow>
    dependency_manifest \<Rightarrow> string option \<Rightarrow> run_plan res" where
  "compile_composite_run_plan sha md task protocol manifest reject =
     bindE (normalize_task sha task) (\<lambda>t.
     bindE (normalize_protocol protocol) (\<lambda>p.
     bindE (normalize_dependencies manifest) (\<lambda>m.
     thenE (validate_dependency_contract t p m md)
     (compile_normalized sha t p m reject))))"

definition assert_semantic_change :: "run_plan \<Rightarrow> run_plan \<Rightarrow> unit res" where
  "assert_semantic_change parent child =
     thenE (raise_if (task_envelope_dg parent \<noteq> task_envelope_dg child)
       (CompositeCompilationError ''semantic-change comparison requires the same TaskEnvelope'')) (
     thenE (raise_if (plan_manifest_dg parent \<noteq> plan_manifest_dg child)
       (CompositeCompilationError ''semantic-change comparison requires the same runtime dependencies''))
     (raise_if (compiled_semantic_dg parent = compiled_semantic_dg child)
       (InertProtocolError ''candidate protocol compiles to an exact semantic no-op'')))"

text \<open>The seed document is a resource of the package: its reference and its protocol.\<close>

definition load_canonical_harness_seed :: "sha256 \<Rightarrow> compiler_metadata \<Rightarrow> seed_reference option \<Rightarrow>
    (string \<Rightarrow> (seed_reference \<times> harness_protocol) res) \<Rightarrow> (seed_reference \<times> harness_protocol) res" where
  "load_canonical_harness_seed sha md reference read_resource =
     (let expected = (case reference of None \<Rightarrow> canonical_seed md | Some r \<Rightarrow> r) in
      bindE (read_resource (resource_path expected)) (\<lambda>(raw_reference, raw_protocol).
      bindE (validated (bindE (validate_seed_reference raw_reference) (\<lambda>r.
        bindE (validate_harness_protocol raw_protocol) (\<lambda>p. Inr (r, p))))) (\<lambda>(r, p).
      thenE (raise_if (r \<noteq> expected) (CompositeCompilationError
        ''canonical harness seed reference does not match compiler metadata'')) (
      thenE (raise_if (source_digest sha p \<noteq> seed_source_digest r) (CompositeCompilationError
        ''canonical harness seed source_protocol_digest does not match its protocol''))
      (Inr (r, p))))))"

section \<open>The plan of a well-formed protocol\<close>

text \<open>What each pass computes when no lookup fails, as plain functions of the protocol.\<close>

definition actor_of :: "harness_protocol \<Rightarrow> string \<Rightarrow> harness_actor" where
  "actor_of p i = the (find (\<lambda>x. act_id x = i) (actors p))"

definition delivery_of :: "harness_protocol \<Rightarrow> channel \<Rightarrow> artifact_delivery" where
  "delivery_of p c = \<lparr>ad_channel_id = channel_id c, ad_artifact_id = artifact_id_of (channel_id c),
     ad_producer_call_id = initial_call_id (producer_actor_id c),
     ad_consumer_call_id = (if is_feedback (protocol_feedback p) c then revision_call_id (consumer_actor_id c)
       else initial_call_id (consumer_actor_id c))\<rparr>"

abbreviation deliveries_of :: "harness_protocol \<Rightarrow> artifact_delivery list" where
  "deliveries_of p \<equiv> map (delivery_of p) (artifact_channels p)"

definition writes_of :: "task_envelope \<Rightarrow> harness_protocol \<Rightarrow> string \<Rightarrow> artifact_write list" where
  "writes_of t p i = map (\<lambda>c. \<lparr>aw_channel_id = channel_id c, aw_artifact_id = artifact_id_of (channel_id c),
     aw_producer_call_id = initial_call_id i, aw_max_bytes = max_artifact_bytes (ceilings t)\<rparr>)
     (filter (\<lambda>c. producer_actor_id c = i) (artifact_channels p))"

definition initial_call_of :: "task_envelope \<Rightarrow> harness_protocol \<Rightarrow> string \<Rightarrow> actor_call" where
  "initial_call_of t p i = (let a = actor_of p i in
     \<lparr>call_id = initial_call_id i, call_actor_id = i, call_kind = InitialCall,
      call_instruction = instruction a, call_revision_instruction = None,
      context_reads = map task_context_read (task_view a) @
        map artifact_read (deliveries_to (deliveries_of p) (initial_call_id i)),
      artifact_writes = writes_of t p i, call_tool_ids = tool_ids a, call_bps = budget_share_bps a,
      emits_final_patch = (revision p = None \<and> i = final_actor p)\<rparr>)"

definition revision_call_of :: "harness_protocol \<Rightarrow> harness_revision \<Rightarrow> actor_call" where
  "revision_call_of p r = (let a = actor_of p (final_actor p); initial = initial_call_id (final_actor p) in
     \<lparr>call_id = revision_call_id (final_actor p), call_actor_id = final_actor p, call_kind = RevisionCall,
      call_instruction = instruction a, call_revision_instruction = Some (rev_instruction r),
      context_reads = map task_context_read (task_view a) @
        map artifact_read (deliveries_to (deliveries_of p) initial) @
        [\<lparr>read_id = ''prior.'' @ initial, source_kind = SourcePriorOutput, source_ref = initial\<rparr>] @
        map artifact_read (deliveries_to (deliveries_of p) (revision_call_id (final_actor p))),
      artifact_writes = [], call_tool_ids = tool_ids a, call_bps = budget_share_bps a,
      emits_final_patch = True\<rparr>)"

definition calls_of :: "task_envelope \<Rightarrow> harness_protocol \<Rightarrow> string list list \<Rightarrow> actor_call list" where
  "calls_of t p levels = map (initial_call_of t p) (concat levels) @
     (case revision p of None \<Rightarrow> [] | Some r \<Rightarrow> [revision_call_of p r])"

definition final_call_id :: "harness_protocol \<Rightarrow> string" where
  "final_call_id p = (if revision p = None then initial_call_id (final_actor p)
     else revision_call_id (final_actor p))"

lemma actor_of_ok:
  assumes "protocol_ok p" and "i \<in> set (actor_ids p)"
  shows "actor_of p i \<in> set (actors p) \<and> act_id (actor_of p i) = i \<and> lookup_actor p i = Inr (actor_of p i)"
proof -
  from assms(2) obtain x where "find (\<lambda>x. act_id x = i) (actors p) = Some x"
    by (cases "find (\<lambda>x. act_id x = i) (actors p)") (auto simp: find_key_None)
  with find_key_Some [OF this] show ?thesis by (simp add: actor_of_def lookup_actor_def)
qed

lemma protocol_ok_parts:
  assumes "protocol_ok p"
  shows "final_actor p \<in> set (actor_ids p)" and "distinct (actor_ids p)" and "distinct (channel_ids p)"
    and "\<And>a. a \<in> set (actors p) \<Longrightarrow> actor_ok a"
    and "\<And>c. c \<in> set (artifact_channels p) \<Longrightarrow> producer_actor_id c \<in> set (actor_ids p) \<and>
      consumer_actor_id c \<in> set (actor_ids p) \<and> producer_actor_id c \<noteq> consumer_actor_id c"
    and "\<And>r. revision p = Some r \<Longrightarrow> rev_actor_id r = final_actor p \<and> rev_instruction r \<noteq> []"
    and "sum_list (map budget_share_bps (actors p)) = 10000" and "actors p \<noteq> []"
  using assms by (auto simp: protocol_ok_def refs_ok_def feedback_ok_def channel_ok_def revision_ok_def)

lemma feedback_is_channel:
  assumes "protocol_ok p" and "protocol_feedback p = Some f" and "c \<in> set (artifact_channels p)"
  shows "is_feedback (protocol_feedback p) c \<longleftrightarrow> c = f"
proof -
  note f = protocol_feedback_Some(1) [OF assms(1,2)]
  show ?thesis
    using assms(2) distinct_map_eq [OF protocol_ok_parts(3) [OF assms(1)] assms(3) f]
    by (auto simp: is_feedback_def)
qed

lemma compile_delivery_ok:
  assumes "protocol_ok p" and "c \<in> set (artifact_channels p)"
  shows "compile_delivery p (protocol_feedback p) c = Inr (delivery_of p c)"
proof -
  note ends = protocol_ok_parts(5) [OF assms]
  show ?thesis
  proof (cases "is_feedback (protocol_feedback p) c")
    case False
    then show ?thesis using ends by (simp add: compile_delivery_def delivery_of_def initial_id_of_def)
  next
    case True
    then obtain f where f: "protocol_feedback p = Some f" by (auto simp: is_feedback_def split: option.splits)
    then obtain r where r: "revision p = Some r"
      using feedback_channel_ok [OF assms(1)] by (cases "revision p") auto
    have "c = f" using feedback_is_channel [OF assms(1) f assms(2)] True by simp
    then have "consumer_actor_id c = rev_actor_id r"
      using protocol_feedback_Some(2) [OF assms(1) f] protocol_ok_parts(6) [OF assms(1) r] by simp
    then show ?thesis using True r ends by (simp add: compile_delivery_def delivery_of_def initial_id_of_def)
  qed
qed

lemma mapE_map: "(\<And>x. x \<in> set xs \<Longrightarrow> f x = Inr (g x)) \<Longrightarrow> mapE f xs = Inr (map g xs)"
  by (induction xs) auto

lemma compile_initial_call_ok:
  assumes "protocol_ok p" and "i \<in> set (actor_ids p)" and "0 < max_artifact_bytes (ceilings t)"
  shows "compile_initial_call t p (deliveries_of p) i = Inr (initial_call_of t p i)"
proof -
  note a = actor_of_ok [OF assms(1,2)]
  have "compile_writes t p i = Inr (writes_of t p i)"
    unfolding compile_writes_def writes_of_def
    by (rule mapE_map) (use assms(3) in \<open>simp add: validate_artifact_write_def res_simps\<close>)
  moreover have "actor_ok (actor_of p i)" using a protocol_ok_parts(4) [OF assms(1)] by blast
  ultimately show ?thesis using a
    by (simp add: compile_initial_call_def initial_call_of_def validate_actor_call_def validate_call_kind_def
        res_simps actor_ok_def Let_def)
qed

lemma compile_revision_call_ok:
  assumes "protocol_ok p" and "revision p = Some r"
  shows "compile_revision_call p (deliveries_of p) r = Inr (revision_call_of p r)"
proof -
  note a = actor_of_ok [OF assms(1) protocol_ok_parts(1) [OF assms(1)]]
  have "actor_ok (actor_of p (final_actor p))" using a protocol_ok_parts(4) [OF assms(1)] by blast
  then show ?thesis using a protocol_ok_parts(6) [OF assms]
    by (simp add: compile_revision_call_def revision_call_of_def validate_actor_call_def validate_call_kind_def
        res_simps actor_ok_def Let_def)
qed

lemma compile_calls_ok:
  assumes "protocol_ok p" and "set (concat levels) \<subseteq> set (actor_ids p)" and "0 < max_artifact_bytes (ceilings t)"
  shows "compile_calls_and_deliveries t p levels (protocol_feedback p) =
    Inr (calls_of t p levels, deliveries_of p, final_call_id p)"
proof -
  have d: "mapE (compile_delivery p (protocol_feedback p)) (artifact_channels p) = Inr (deliveries_of p)"
    by (rule mapE_map) (rule compile_delivery_ok [OF assms(1)])
  have c: "mapE (compile_initial_call t p (deliveries_of p)) (concat levels) =
      Inr (map (initial_call_of t p) (concat levels))"
    by (rule mapE_map) (use assms(2) in \<open>blast intro: compile_initial_call_ok [OF assms(1) _ assms(3)]\<close>)
  show ?thesis
    using protocol_ok_parts(1,6) [OF assms(1)] compile_revision_call_ok [OF assms(1)]
    by (cases "revision p")
      (simp_all add: compile_calls_and_deliveries_def d c calls_of_def final_call_id_def initial_id_of_def)
qed


subsection \<open>Stages\<close>

definition inbound_of :: "harness_protocol \<Rightarrow> string list \<Rightarrow> string list" where
  "inbound_of p level = map channel_id (filter (\<lambda>c. \<not> is_feedback (protocol_feedback p) c \<and>
     consumer_actor_id c \<in> set level) (artifact_channels p))"

definition parents_of :: "harness_protocol \<Rightarrow> string list list \<Rightarrow> string list \<Rightarrow> nat list" where
  "parents_of p levels level = sort (remdups (map (\<lambda>c. phase_of levels (producer_actor_id c))
     (filter (\<lambda>c. channel_id c \<in> set (inbound_of p level)) (artifact_channels p))))"

definition stage_of :: "harness_protocol \<Rightarrow> string list list \<Rightarrow> nat \<Rightarrow> string list \<Rightarrow> plan_stage" where
  "stage_of p levels i level =
     \<lparr>stage_id = stage_name i, stage_index = i, stage_call_ids = map initial_call_id level,
      depends_on_stage_ids = map stage_name (parents_of p levels level),
      inbound_channel_ids = inbound_of p level, stage_fork = (1 < length level),
      stage_join = (1 < length (parents_of p levels level) \<or> 1 < length (inbound_of p level)),
      stage_revision = False\<rparr>"

definition revision_stage_of :: "harness_protocol \<Rightarrow> string list list \<Rightarrow> channel \<Rightarrow> plan_stage" where
  "revision_stage_of p levels f =
     \<lparr>stage_id = stage_name (length levels), stage_index = length levels,
      stage_call_ids = [revision_call_id (final_actor p)],
      depends_on_stage_ids = [stage_name (phase_of levels (producer_actor_id f))],
      inbound_channel_ids = [channel_id f], stage_fork = False, stage_join = False, stage_revision = True\<rparr>"

definition stages_of :: "harness_protocol \<Rightarrow> string list list \<Rightarrow> plan_stage list" where
  "stages_of p levels = map (\<lambda>(i, l). stage_of p levels i l) (enumerate 0 levels) @
     (case protocol_feedback p of None \<Rightarrow> [] | Some f \<Rightarrow> [revision_stage_of p levels f])"

lemma compile_stages_ok:
  assumes "protocol_ok p" and "[] \<notin> set levels"
  shows "compile_stages p levels (phase_of levels) (protocol_feedback p) = Inr (stages_of p levels)"
proof -
  have l: "mapE (\<lambda>(i, l). compile_stage p (phase_of levels) (protocol_feedback p) i l) (enumerate 0 levels) =
      Inr (map (\<lambda>(i, l). stage_of p levels i l) (enumerate 0 levels))"
  proof (rule mapE_map)
    fix il assume "il \<in> set (enumerate 0 levels)"
    then have "(fst il, snd il) \<in> set (zip [0..<0 + length levels] levels)" by (simp add: enumerate_eq_zip)
    then have "snd il \<in> set levels" by (rule set_zip_rightD)
    then have "snd il \<noteq> []" using assms(2) by metis
    then show "(case il of (i, l) \<Rightarrow> compile_stage p (phase_of levels) (protocol_feedback p) i l) =
        Inr (case il of (i, l) \<Rightarrow> stage_of p levels i l)"
      by (cases il) (simp add: compile_stage_def stage_of_def validate_plan_stage_def res_simps Let_def
          parents_of_def inbound_of_def)
  qed
  show ?thesis
  proof (cases "protocol_feedback p")
    case None
    with l show ?thesis by (simp add: compile_stages_def stages_of_def)
  next
    case (Some f)
    then obtain r where r: "revision p = Some r"
      using feedback_channel_ok [OF assms(1)] by (cases "revision p") auto
    with Some l protocol_ok_parts(6) [OF assms(1) r] show ?thesis
      by (simp add: compile_stages_def stages_of_def compile_revision_stage_def revision_stage_of_def
          validate_plan_stage_def res_simps)
  qed
qed

subsection \<open>Bindings\<close>

definition binding_of :: "sha256 \<Rightarrow> field_entry \<Rightarrow> consumed_field_binding" where
  "binding_of sha e = (case e of (path, value, consumers, owners) \<Rightarrow>
     \<lparr>binding_source_path = path, source_value_digest = source_field_digest sha value,
      plan_consumer_paths = consumers, runtime_owners = owners\<rparr>)"

definition final_call_of :: "task_envelope \<Rightarrow> harness_protocol \<Rightarrow> actor_call" where
  "final_call_of t p = (case revision p of None \<Rightarrow> initial_call_of t p (final_actor p)
     | Some r \<Rightarrow> revision_call_of p r)"

definition entries_of :: "task_envelope \<Rightarrow> harness_protocol \<Rightarrow> actor_call list \<Rightarrow> field_entry list" where
  "entries_of t p calls =
     concat (map (actor_entries calls) (actors p)) @
     concat (map (\<lambda>c. channel_entries c (delivery_of p c)) (artifact_channels p)) @
     (case revision p of None \<Rightarrow> [] | Some r \<Rightarrow> revision_entries r) @
     [final_entry p (final_call_of t p)]"

definition liveness_of :: "sha256 \<Rightarrow> task_envelope \<Rightarrow> harness_protocol \<Rightarrow> actor_call list \<Rightarrow> liveness_manifest" where
  "liveness_of sha t p calls = \<lparr>lm_source_digest = source_digest sha p,
     bindings = map (binding_of sha) (entries_of t p calls)\<rparr>"

lemma source_digests_are_digests [simp]: "is_digest (source_field_digest sha v)" "is_digest (source_digest sha p)"
  by (simp_all add: source_field_digest_def source_digest_def protocol_digest_def)

lemma add_binding_ok:
  assumes "fst (snd (snd e)) \<noteq> []" and "snd (snd (snd e)) \<noteq> []"
  shows "add_binding sha e = Inr (binding_of sha e)"
  using assms by (cases e) (simp add: add_binding_def binding_of_def validate_consumed_field_binding_def
      res_simps is_digest_stable)

lemma entries_paths: "map fst (entries_of t p calls) = mutable_field_paths p"
proof -
  have "map fst (actor_entries calls a) = [actor_prefix (act_id a) @ ''.task_view'',
      actor_prefix (act_id a) @ ''.instruction'', actor_prefix (act_id a) @ ''.tool_ids'',
      actor_prefix (act_id a) @ ''.budget_share_bps'']" for a
    by (simp add: actor_entries_def Let_def)
  moreover have "map fst (channel_entries c d) = [channel_prefix (channel_id c) @ ''.producer_actor_id'',
      channel_prefix (channel_id c) @ ''.consumer_actor_id'']" for c d
    by (simp add: channel_entries_def)
  ultimately show ?thesis
    by (cases "revision p")
      (simp_all add: entries_of_def mutable_field_paths_def map_concat comp_def revision_entries_def
        final_entry_def Let_def)
qed

lemma call_id_of_initial [simp]: "call_id (initial_call_of t p i) = initial_call_id i"
    "call_actor_id (initial_call_of t p i) = i" "call_kind (initial_call_of t p i) = InitialCall"
    "emits_final_patch (initial_call_of t p i) \<longleftrightarrow> revision p = None \<and> i = final_actor p"
    "artifact_writes (initial_call_of t p i) = writes_of t p i"
  by (simp_all add: initial_call_of_def Let_def)

lemma call_id_of_revision [simp]: "call_id (revision_call_of p r) = revision_call_id (final_actor p)"
    "call_actor_id (revision_call_of p r) = final_actor p" "call_kind (revision_call_of p r) = RevisionCall"
    "emits_final_patch (revision_call_of p r)" "artifact_writes (revision_call_of p r) = []"
  by (simp_all add: revision_call_of_def Let_def)

lemma find_final_call:
  assumes "final_actor p \<in> set (concat levels)"
  shows "find emits_final_patch (calls_of t p levels) = Some (final_call_of t p)"
proof (cases "revision p")
  case None
  have "find emits_final_patch (map (initial_call_of t p) xs) = Some (initial_call_of t p (final_actor p))"
    if "final_actor p \<in> set xs" for xs
    using that None by (induction xs) auto
  with assms None show ?thesis by (simp add: calls_of_def final_call_of_def)
next
  case (Some r)
  have "find emits_final_patch (map (initial_call_of t p) xs @ ys) = find emits_final_patch ys" for xs ys
    using Some by (induction xs) auto
  with Some show ?thesis by (simp add: calls_of_def final_call_of_def)
qed

lemma actor_has_call:
  assumes "a \<in> set (actors p)" and "set (concat levels) = set (actor_ids p)"
  shows "compiled_call_ids_for_actor (act_id a) (calls_of t p levels) \<noteq> []"
proof -
  have "initial_call_of t p (act_id a) \<in> set (calls_of t p levels)"
    using assms by (auto simp: calls_of_def)
  then show ?thesis
    by (auto simp: compiled_call_ids_for_actor_def filter_empty_conv intro!: bexI [of _ "initial_call_of t p (act_id a)"])
qed

lemma lookup_delivery_ok:
  assumes "protocol_ok p" and "c \<in> set (artifact_channels p)"
  shows "lookup_delivery (deliveries_of p) (channel_id c) = Inr (delivery_of p c)"
proof -
  have id: "ad_channel_id (delivery_of p c) = channel_id c" for c by (simp add: delivery_of_def)
  have "distinct (map ad_channel_id (deliveries_of p))"
    using protocol_ok_parts(3) [OF assms(1)] by (simp add: comp_def id)
  from find_Some_unique [OF this, of "delivery_of p c"] assms(2) show ?thesis
    by (simp add: lookup_delivery_def id)
qed

lemma concat_map_singles: "concat (map (\<lambda>x. map g (h x)) xs) = map g (concat (map h xs))"
  by (induction xs) simp_all

lemma compile_liveness_ok:
  assumes ok: "protocol_ok p" and lv: "set (concat levels) = set (actor_ids p)"
  shows "compile_liveness_manifest sha p (source_digest sha p) (calls_of t p levels) (deliveries_of p) =
    Inr (liveness_of sha t p (calls_of t p levels))"
proof -
  let ?calls = "calls_of t p levels"
  have b1: "mapE (\<lambda>a. mapE (add_binding sha) (actor_entries ?calls a)) (actors p) =
      Inr (map (\<lambda>a. map (binding_of sha) (actor_entries ?calls a)) (actors p))"
    by (rule mapE_map, rule mapE_map, rule add_binding_ok)
      (use actor_has_call [OF _ lv] in \<open>auto simp: actor_entries_def Let_def\<close>)
  have b2: "mapE (\<lambda>c. bindE (lookup_delivery (deliveries_of p) (channel_id c)) (\<lambda>d.
       mapE (add_binding sha) (channel_entries c d))) (artifact_channels p) =
      Inr (map (\<lambda>c. map (binding_of sha) (channel_entries c (delivery_of p c))) (artifact_channels p))"
  proof (rule mapE_map)
    fix c assume c: "c \<in> set (artifact_channels p)"
    have "mapE (add_binding sha) (channel_entries c (delivery_of p c)) =
        Inr (map (binding_of sha) (channel_entries c (delivery_of p c)))"
      by (rule mapE_map, rule add_binding_ok) (auto simp: channel_entries_def)
    then show "bindE (lookup_delivery (deliveries_of p) (channel_id c)) (\<lambda>d.
       mapE (add_binding sha) (channel_entries c d)) = Inr (map (binding_of sha) (channel_entries c (delivery_of p c)))"
      by (simp add: lookup_delivery_ok [OF ok c])
  qed
  have b3: "(case revision p of None \<Rightarrow> Inr [] | Some r \<Rightarrow> mapE (add_binding sha) (revision_entries r)) =
      Inr (map (binding_of sha) (case revision p of None \<Rightarrow> [] | Some r \<Rightarrow> revision_entries r))"
  proof (cases "revision p")
    case (Some r)
    have "mapE (add_binding sha) (revision_entries r) = Inr (map (binding_of sha) (revision_entries r))"
      by (rule mapE_map, rule add_binding_ok) (auto simp: revision_entries_def Let_def)
    with Some show ?thesis by simp
  qed simp
  have fin: "final_actor p \<in> set (concat levels)" using protocol_ok_parts(1) [OF ok] lv by simp
  have b4: "add_binding sha (final_entry p c) = Inr (binding_of sha (final_entry p c))" for c
    by (rule add_binding_ok) (simp_all add: final_entry_def)
  let ?m = "liveness_of sha t p ?calls"
  have m: "\<lparr>lm_source_digest = source_digest sha p, bindings =
      concat (map (\<lambda>a. map (binding_of sha) (actor_entries ?calls a)) (actors p)) @
      concat (map (\<lambda>c. map (binding_of sha) (channel_entries c (delivery_of p c))) (artifact_channels p)) @
      map (binding_of sha) (case revision p of None \<Rightarrow> [] | Some r \<Rightarrow> revision_entries r) @
      [binding_of sha (final_entry p (final_call_of t p))]\<rparr> = ?m"
    by (simp add: liveness_of_def entries_of_def concat_map_singles)
  have path: "binding_source_path (binding_of sha e) = fst e" for e by (cases e) (simp add: binding_of_def)
  have paths: "map binding_source_path (bindings ?m) = mutable_field_paths p"
    using entries_paths [of t p ?calls] by (simp add: liveness_of_def comp_def path)
  have v: "validate_liveness_manifest ?m = Inr ?m"
    using mutable_field_paths_distinct [OF ok] paths
    by (simp add: validate_liveness_manifest_def res_simps)
      (simp add: liveness_of_def entries_of_def is_digest_stable)
  show ?thesis
    unfolding compile_liveness_manifest_def b1 b2 b3 find_final_call [OF fin]
    by (simp only: b4 m v paths Let_def bindE_simps option.case subset_list_iff subset_refl simp_thms
        raise_if_simps thenE_simps)
qed


subsection \<open>The whole plan\<close>

definition task_ok :: "task_envelope \<Rightarrow> bool" where
  "task_ok t \<longleftrightarrow> 0 < max_artifact_bytes (ceilings t) \<and> 0 < max_patch_bytes (ceilings t) \<and>
     public_reproduction t \<noteq> [] \<and> is_digest (task_manifest_digest t) \<and>
     (\<forall>s\<in>set (public_reproduction t). step_argv s \<noteq> [] \<and> 0 < step_timeout_ms s \<and> expected_exit_codes s \<noteq> [])"

lemma validated_task_ok:
  assumes "validate_task_envelope sha t = Inr u"
  shows "task_ok u"
  using validated_task_steps [OF assms] validated_task_step_fields [OF assms] validated_task_digest [OF assms]
    validate_task_ceilings_Inr [OF validated_task_ceilings [OF assms]]
  by (simp add: task_ok_def task_envelope_digest_def task_digest_def)

definition action_of :: "public_reproduction_step \<Rightarrow> verification_action" where
  "action_of s = \<lparr>va_step_id = py_trim (step_id s), va_argv = map py_trim (step_argv s),
     va_cwd = py_trim (step_cwd s), va_timeout_ms = step_timeout_ms s, va_exit_codes = expected_exit_codes s\<rparr>"

definition verification_of :: "task_envelope \<Rightarrow> harness_protocol \<Rightarrow> public_verification_plan" where
  "verification_of t p = \<lparr>pv_actions = map action_of (public_reproduction t), run_after_call_id = final_call_id p\<rparr>"

definition termination_of :: "task_envelope \<Rightarrow> harness_protocol \<Rightarrow> termination_plan" where
  "termination_of t p = \<lparr>final_actor_call_id = final_call_id p, tp_max_patch_bytes = max_patch_bytes (ceilings t)\<rparr>"

definition ledger_of :: "task_envelope \<Rightarrow> harness_protocol \<Rightarrow> actor_call list \<Rightarrow> budget_ledger_plan" where
  "ledger_of t p calls = \<lparr>aggregate_ceiling = ceilings t,
     actor_shares = map (\<lambda>a. (act_id a, budget_share_bps a)) (actors p),
     scheduled_model_calls = length calls,
     scheduled_revision_calls = (if revision p = None then 0 else 1)\<rparr>"

definition levels_of :: "harness_protocol \<Rightarrow> string list list" where
  "levels_of p = (case compile_topology p of Inl _ \<Rightarrow> [] | Inr (levels, _) \<Rightarrow> levels)"

definition plan_of :: "sha256 \<Rightarrow> task_envelope \<Rightarrow> harness_protocol \<Rightarrow> dependency_manifest \<Rightarrow> run_plan" where
  "plan_of sha t p m = (let calls = calls_of t p (levels_of p) in
     assemble_plan sha t p m calls (stages_of p (levels_of p)) (deliveries_of p) (verification_of t p)
       (termination_of t p) (ledger_of t p calls) (liveness_of sha t p calls))"

text \<open>No two actors would run the same call.\<close>

definition differentiated :: "task_envelope \<Rightarrow> harness_protocol \<Rightarrow> bool" where
  "differentiated t p \<longleftrightarrow> inj_on (\<lambda>i. call_signature (initial_call_of t p i)) (set (actor_ids p))"

definition scheduled_calls :: "harness_protocol \<Rightarrow> nat" where
  "scheduled_calls p = length (actors p) + (if revision p = None then 0 else 1)"

lemma plan_of_fields [simp]:
  "task_envelope_dg (plan_of sha t p m) = task_manifest_digest t"
  "source_protocol_dg (plan_of sha t p m) = source_digest sha p"
  "plan_manifest (plan_of sha t p m) = m"
  "plan_manifest_dg (plan_of sha t p m) = manifest_digest sha m"
  "actor_calls (plan_of sha t p m) = calls_of t p (levels_of p)"
  "stages (plan_of sha t p m) = stages_of p (levels_of p)"
  "artifact_deliveries (plan_of sha t p m) = deliveries_of p"
  "public_verification (plan_of sha t p m) = verification_of t p"
  "plan_termination (plan_of sha t p m) = termination_of t p"
  "budget_ledger (plan_of sha t p m) = ledger_of t p (calls_of t p (levels_of p))"
  "plan_liveness (plan_of sha t p m) = liveness_of sha t p (calls_of t p (levels_of p))"
  by (simp_all add: plan_of_def assemble_plan_def Let_def)

lemma plan_of_semantic_digest:
  "compiled_semantic_dg (plan_of sha t p m) = composite_plan_digest sha (semantic_payload (plan_of sha t p m))"
  by (simp add: plan_of_def assemble_plan_def Let_def semantic_payload_def)

lemma call_ids_inject [simp]:
  "initial_call_id a = initial_call_id b \<longleftrightarrow> a = b" "revision_call_id a = revision_call_id b \<longleftrightarrow> a = b"
  by (simp_all add: initial_call_id_def revision_call_id_def)

lemma call_ids_differ [simp]: "initial_call_id a \<noteq> revision_call_id b" "revision_call_id b \<noteq> initial_call_id a"
proof -
  have "last (initial_call_id a) \<noteq> last (revision_call_id b)"
    by (simp add: initial_call_id_def revision_call_id_def)
  then show "initial_call_id a \<noteq> revision_call_id b" "revision_call_id b \<noteq> initial_call_id a" by metis+
qed

lemma call_ids_of_calls:
  "map call_id (calls_of t p levels) = map initial_call_id (concat levels) @
     (case revision p of None \<Rightarrow> [] | Some r \<Rightarrow> [revision_call_id (final_actor p)])"
  by (simp add: calls_of_def comp_def split: option.split)

lemma stage_call_ids_of [simp]:
  "stage_call_ids (stage_of p levels i l) = map initial_call_id l"
  "stage_call_ids (revision_stage_of p levels f) = [revision_call_id (final_actor p)]"
  by (simp_all add: stage_of_def revision_stage_of_def)

lemma concat_enumerate: "concat (map (\<lambda>(i, l). map g l) (enumerate n ls)) = map g (concat ls)"
  by (induction ls arbitrary: n) simp_all

lemma staged_call_ids:
  assumes "protocol_ok p"
  shows "concat (map stage_call_ids (stages_of p levels)) = map call_id (calls_of t p levels)"
proof -
  have "map stage_call_ids (map (\<lambda>(i, l). stage_of p levels i l) xs) = map (\<lambda>(i, l). map initial_call_id l) xs" for xs
    by (induction xs) auto
  then have "concat (map stage_call_ids (map (\<lambda>(i, l). stage_of p levels i l) (enumerate 0 levels))) =
      map initial_call_id (concat levels)"
    by (simp only: concat_enumerate)
  then show ?thesis using feedback_channel_ok [OF assms]
    by (cases "revision p"; cases "protocol_feedback p") (simp_all add: stages_of_def call_ids_of_calls)
qed

lemma levels_of_good:
  assumes "protocol_ok p" and "topology_ok p"
  shows "compile_topology p = Inr (levels_of p, phase_of (levels_of p), protocol_feedback p)"
    and "good_levels (primary_channels p (protocol_feedback p)) (actor_ids p) (levels_of p)"
proof -
  obtain l ph f where c: "compile_topology p = Inr (l, ph, f)"
    using topology_decision [OF assms(1)] assms(2) by (cases "compile_topology p") auto
  note r = compile_topology_Inr [OF assms(1) c]
  have "levels_of p = l" by (simp add: levels_of_def c)
  with c r show "compile_topology p = Inr (levels_of p, phase_of (levels_of p), protocol_feedback p)"
    "good_levels (primary_channels p (protocol_feedback p)) (actor_ids p) (levels_of p)" by simp_all
qed

lemma good_levels_parts:
  assumes "good_levels cs nodes levels"
  shows "set (concat levels) = set nodes" "distinct (concat levels)" "[] \<notin> set levels"
  using assms by (simp_all add: good_levels_def)

lemma distinct_call_ids:
  assumes "distinct (concat levels)"
  shows "distinct (map call_id (calls_of t p levels))"
  unfolding call_ids_of_calls using assms
  by (auto simp: distinct_map inj_on_def split: option.split)

lemma length_calls_of:
  assumes "protocol_ok p" and "good_levels cs (actor_ids p) levels"
  shows "length (calls_of t p levels) = scheduled_calls p"
proof -
  have "length (concat levels) = length (actor_ids p)"
    using good_levels_parts [OF assms(2)] protocol_ok_parts(2) [OF assms(1)] by (metis distinct_card)
  then show ?thesis by (simp add: calls_of_def scheduled_calls_def split: option.split)
qed

lemma differentiation_check:
  assumes "good_levels cs (actor_ids p) levels"
  shows "validate_actor_differentiation (calls_of t p levels) = (if differentiated t p then Inr () else
    Inl (CompositeCompilationError ''actors must have differentiated executable instructions, views, tools, artifact responsibilities, or termination roles''))"
proof -
  have f: "filter (\<lambda>c. call_kind c = InitialCall) (calls_of t p levels) = map (initial_call_of t p) (concat levels)"
    by (auto simp: calls_of_def filter_empty_conv split: option.split intro: filter_True)
  have "distinct (map call_signature (map (initial_call_of t p) (concat levels))) \<longleftrightarrow> differentiated t p"
    using good_levels_parts(1,2) [OF assms] by (simp add: differentiated_def distinct_map comp_def)
  then show ?thesis by (simp add: validate_actor_differentiation_def f raise_if_def)
qed


lemma compile_public_verification_ok:
  assumes "task_ok t"
  shows "compile_public_verification t (final_call_id p) = Inr (verification_of t p)"
proof -
  have "mapE compile_verification_step (public_reproduction t) = Inr (map action_of (public_reproduction t))"
    by (rule mapE_map) (use assms in \<open>simp add: task_ok_def compile_verification_step_def
        validate_verification_action_def action_of_def res_simps\<close>)
  then show ?thesis using assms
    by (simp add: compile_public_verification_def verification_of_def validate_public_verification_plan_def
        task_ok_def res_simps)
qed

lemma compile_budget_ledger_eq:
  assumes "protocol_ok p" and "length calls = scheduled_calls p"
  shows "compile_budget_ledger t p calls = (if int (scheduled_calls p) \<le> max_model_calls (ceilings t)
    then Inr (ledger_of t p calls) else Inl (ValidationError ''compiled actor calls exceed max_model_calls''))"
proof -
  note parts = protocol_ok_parts [OF assms(1)]
  have shares: "forE (\<lambda>s. require_share (snd s)) (map (\<lambda>a. (act_id a, budget_share_bps a)) (actors p)) = Inr ()"
    using parts(4) by (simp add: res_simps actor_ok_def)
  have ne: "require_min_length1 (map (\<lambda>a. (act_id a, budget_share_bps a)) (actors p)) n = Inr ()" for n
    using parts(8) by (simp add: res_simps)
  have "scheduled_calls p \<noteq> 0" using parts(8) by (simp add: scheduled_calls_def)
  then show ?thesis using parts(7) assms(2)
    by (simp add: compile_budget_ledger_def validate_budget_ledger_plan_def ledger_of_def ne shares
        raise_if_def comp_def)
qed

lemma validate_plan_ok:
  assumes "protocol_ok p" and "task_ok t" and "good_levels cs (actor_ids p) (levels_of p)"
  shows "validate_run_plan sha (plan_of sha t p m) = Inr (plan_of sha t p m)"
proof -
  let ?plan = "plan_of sha t p m" and ?calls = "calls_of t p (levels_of p)"
  note good = good_levels_parts [OF assms(3)]
  have fin: "final_call_id p \<in> set (map call_id ?calls)"
    using protocol_ok_parts(1) [OF assms(1)] good(1)
    by (cases "revision p") (simp_all add: call_ids_of_calls final_call_id_def)
  have ne: "?calls \<noteq> []" "stages_of p (levels_of p) \<noteq> []"
    using fin staged_call_ids [OF assms(1), of "levels_of p" t] by auto
  have dg: "is_digest (task_manifest_digest t)" using assms(2) by (simp add: task_ok_def)
  have refs: "validate_plan_references sha ?plan = Inr ()"
    unfolding validate_plan_references_def Let_def plan_of_fields staged_call_ids [OF assms(1), of "levels_of p" t]
    using fin distinct_call_ids [OF good(2), of t p]
    by (simp add: res_simps termination_of_def verification_of_def liveness_of_def plan_of_semantic_digest)
  have eq: "?plan\<lparr>task_envelope_dg := task_envelope_dg ?plan, source_protocol_dg := source_protocol_dg ?plan,
      compiled_semantic_dg := compiled_semantic_dg ?plan, plan_manifest_dg := plan_manifest_dg ?plan\<rparr> = ?plan"
    by simp
  have dgs: "require_digest (task_envelope_dg ?plan) n = Inr (task_envelope_dg ?plan)"
    "require_digest (source_protocol_dg ?plan) n = Inr (source_protocol_dg ?plan)"
    "require_digest (compiled_semantic_dg ?plan) n = Inr (compiled_semantic_dg ?plan)"
    "require_digest (plan_manifest_dg ?plan) n = Inr (plan_manifest_dg ?plan)" for n
    using dg by (simp_all add: require_digest_Inr plan_of_semantic_digest composite_plan_digest_def manifest_digest_def)
  have lens: "require_min_length1 (actor_calls ?plan) n = Inr ()" "require_min_length1 (stages ?plan) n = Inr ()" for n
    using ne by (simp_all add: require_min_length1_Inr)
  show ?thesis
    by (simp only: validate_run_plan_def dgs lens refs eq Let_def bindE_simps thenE_simps validated_simps)
qed

lemma compile_decision:
  assumes "protocol_ok p" and "task_ok t"
  shows "case compile_normalized sha t p m reject of
      Inr plan \<Rightarrow> plan = plan_of sha t p m \<and> topology_ok p \<and> differentiated t p \<and>
        int (scheduled_calls p) \<le> max_model_calls (ceilings t) \<and> reject \<noteq> Some (compiled_semantic_dg plan)
    | Inl (CompositeCompilationError _) \<Rightarrow> \<not> topology_ok p \<or> \<not> differentiated t p
    | Inl (ValidationError msg) \<Rightarrow> msg = ''compiled actor calls exceed max_model_calls'' \<and>
        max_model_calls (ceilings t) < int (scheduled_calls p)
    | Inl (InertProtocolError _) \<Rightarrow> reject = Some (compiled_semantic_dg (plan_of sha t p m))
    | Inl _ \<Rightarrow> False"
proof (cases "topology_ok p")
  case False
  then obtain msg where "compile_topology p = Inl (CompositeCompilationError msg)"
    using topology_decision [OF assms(1)] by (cases "compile_topology p") auto
  then show ?thesis using False by (simp add: compile_normalized_def)
next
  case True
  note top = levels_of_good [OF assms(1) True]
  note good = good_levels_parts [OF top(2)]
  let ?calls = "calls_of t p (levels_of p)"
  have calls: "compile_calls_and_deliveries t p (levels_of p) (protocol_feedback p) =
      Inr (?calls, deliveries_of p, final_call_id p)"
    by (rule compile_calls_ok [OF assms(1)]) (use good(1) assms(2) in \<open>simp_all add: task_ok_def\<close>)
  note live = compile_liveness_ok [OF assms(1) good(1)]
  note sts = compile_stages_ok [OF assms(1) good(3)]
  note ledger = compile_budget_ledger_eq [OF assms(1) length_calls_of [OF assms(1) top(2)]]
  note ver = compile_public_verification_ok [OF assms(2)]
  have tp: "validate_termination_plan \<lparr>final_actor_call_id = final_call_id p,
      tp_max_patch_bytes = max_patch_bytes (ceilings t)\<rparr> = Inr (termination_of t p)"
    using assms(2) by (simp add: validate_termination_plan_def termination_of_def task_ok_def res_simps)
  have plan: "assemble_plan sha t p m ?calls (stages_of p (levels_of p)) (deliveries_of p)
      (verification_of t p) (termination_of t p) (ledger_of t p ?calls) (liveness_of sha t p ?calls) = plan_of sha t p m"
    by (simp add: plan_of_def Let_def)
  show ?thesis
    by (simp add: compile_normalized_def top(1) calls differentiation_check [OF top(2)] sts live ver tp ledger
        plan validate_plan_ok [OF assms top(2)] True raise_if_def Let_def)
qed

lemma compile_Inr:
  assumes "compile_composite_run_plan sha md task protocol manifest reject = Inr plan"
  obtains t p m where "validate_task_envelope sha task = Inr t" and "validate_harness_protocol protocol = Inr p"
    and "validate_dependency_manifest manifest = Inr m" and "validate_dependency_contract t p m md = Inr ()"
    and "task_ok t" and "protocol_ok p" and "plan = plan_of sha t p m" and "topology_ok p"
    and "differentiated t p" and "int (scheduled_calls p) \<le> max_model_calls (ceilings t)"
    and "reject \<noteq> Some (compiled_semantic_dg plan)"
    and "good_levels (primary_channels p (protocol_feedback p)) (actor_ids p) (levels_of p)"
proof -
  from assms obtain t p m where v: "validate_task_envelope sha task = Inr t"
    "validate_harness_protocol protocol = Inr p" "validate_dependency_manifest manifest = Inr m"
    "validate_dependency_contract t p m md = Inr ()" and c: "compile_normalized sha t p m reject = Inr plan"
    unfolding compile_composite_run_plan_def normalize_task_def normalize_protocol_def normalize_dependencies_def
    by (auto simp only: bindE_Inr thenE_Inr catchE_Inr)
  note ok = validate_harness_protocol_ok [OF v(2)] validated_task_ok [OF v(1)]
  have "plan = plan_of sha t p m \<and> topology_ok p \<and> differentiated t p \<and>
        int (scheduled_calls p) \<le> max_model_calls (ceilings t) \<and> reject \<noteq> Some (compiled_semantic_dg plan)"
    using compile_decision [OF ok, where sha = sha and m = m and reject = reject, unfolded c sum.case] .
  with that v ok levels_of_good [OF ok(1)] show ?thesis by blast
qed


section \<open>What a compiled plan guarantees\<close>

text \<open>C6: on a validated task and protocol the compiler either returns the plan of the protocol, when
  the topology is accepted, the actors are differentiated, the calls fit \<open>max_model_calls\<close> and the
  semantic digest is not the rejected one, or it raises the error of the first of these that
  fails. The lookups, the liveness cover and the plan's own validator never fail.\<close>

theorem compile_normalized_decides:
  assumes "protocol_ok p" and "task_ok t"
  shows "case compile_normalized sha t p m reject of
      Inr plan \<Rightarrow> plan = plan_of sha t p m \<and> topology_ok p \<and> differentiated t p \<and>
        int (scheduled_calls p) \<le> max_model_calls (ceilings t) \<and> reject \<noteq> Some (compiled_semantic_dg plan)
    | Inl (CompositeCompilationError _) \<Rightarrow> \<not> topology_ok p \<or> \<not> differentiated t p
    | Inl (ValidationError msg) \<Rightarrow> msg = ''compiled actor calls exceed max_model_calls'' \<and>
        max_model_calls (ceilings t) < int (scheduled_calls p)
    | Inl (InertProtocolError _) \<Rightarrow> reject = Some (compiled_semantic_dg (plan_of sha t p m))
    | Inl _ \<Rightarrow> False"
  by (rule compile_decision [OF assms])

text \<open>The index of the stage that schedules a call.\<close>

definition call_stage :: "plan_stage list \<Rightarrow> string \<Rightarrow> nat" where
  "call_stage sts cid = length (takeWhile (\<lambda>l. cid \<notin> set l) (map stage_call_ids sts))"

lemma stage_call_lists:
  assumes "protocol_ok p"
  shows "map stage_call_ids (stages_of p ls) = map (map initial_call_id) ls @
    (if revision p = None then [] else [[revision_call_id (final_actor p)]])"
proof -
  have "map stage_call_ids (map (\<lambda>(i, l). stage_of p ls i l) (enumerate n xs)) = map (map initial_call_id) xs" for n xs
    by (induction xs arbitrary: n) auto
  then show ?thesis using feedback_channel_ok [OF assms]
    by (auto simp: stages_of_def split: option.splits)
qed

lemma call_stage_initial:
  assumes "protocol_ok p" and "a \<in> set (concat ls)"
  shows "call_stage (stages_of p ls) (initial_call_id a) = phase_of ls a"
proof -
  obtain l where "l \<in> set ls" "a \<in> set l" using assms(2) by auto
  then have "takeWhile (\<lambda>l. initial_call_id a \<notin> set l) (map (map initial_call_id) ls @ ys) =
      takeWhile (\<lambda>l. initial_call_id a \<notin> set l) (map (map initial_call_id) ls)" for ys
    by (intro takeWhile_append1) auto
  moreover have "initial_call_id a \<in> set (map initial_call_id l) \<longleftrightarrow> a \<in> set l" for l by auto
  ultimately show ?thesis
    by (simp add: call_stage_def phase_of_def stage_call_lists [OF assms(1)] takeWhile_map comp_def del: set_map)
qed

lemma call_stage_revision:
  assumes "protocol_ok p" and "revision p \<noteq> None"
  shows "call_stage (stages_of p ls) (revision_call_id (final_actor p)) = length ls"
proof -
  have "takeWhile (\<lambda>l. revision_call_id (final_actor p) \<notin> set l) (map (map initial_call_id) ls @ [[revision_call_id (final_actor p)]]) =
    map (map initial_call_id) ls"
    by (subst takeWhile_append2) auto
  then show ?thesis unfolding call_stage_def stage_call_lists [OF assms(1)] using assms(2)
    by (simp only: if_False length_map)
qed

lemma phase_of_less: "a \<in> set (concat ls) \<Longrightarrow> phase_of ls a < length ls"
  by (induction ls) (auto simp: phase_of_Cons)

lemma delivery_forward:
  assumes ok: "protocol_ok p" and c: "c \<in> set (artifact_channels p)"
    and good: "good_levels (primary_channels p (protocol_feedback p)) (actor_ids p) ls"
  shows "call_stage (stages_of p ls) (ad_producer_call_id (delivery_of p c)) <
    call_stage (stages_of p ls) (ad_consumer_call_id (delivery_of p c))"
proof -
  note ends = protocol_ok_parts(5) [OF ok c] and parts = good_levels_parts [OF good]
  have in_ls: "producer_actor_id c \<in> set (concat ls)" "consumer_actor_id c \<in> set (concat ls)"
    using ends by (simp_all only: parts(1))
  have prod: "call_stage (stages_of p ls) (ad_producer_call_id (delivery_of p c)) = phase_of ls (producer_actor_id c)"
    using call_stage_initial [OF ok in_ls(1)] by (simp add: delivery_of_def)
  show ?thesis
  proof (cases "is_feedback (protocol_feedback p) c")
    case True
    then obtain f where f: "protocol_feedback p = Some f" by (auto simp: is_feedback_def split: option.splits)
    have "c = f" using feedback_is_channel [OF ok f c] True by simp
    then have "consumer_actor_id c = final_actor p" using protocol_feedback_Some(2) [OF ok f] by simp
    moreover have "revision p \<noteq> None" using feedback_channel_ok [OF ok] f by simp
    ultimately have "call_stage (stages_of p ls) (ad_consumer_call_id (delivery_of p c)) = length ls"
      using call_stage_revision [OF ok] True by (simp add: delivery_of_def)
    then show ?thesis using prod phase_of_less [OF in_ls(1)] by simp
  next
    case False
    have "(producer_actor_id c, consumer_actor_id c) \<in> edge_set (primary_channels p (protocol_feedback p))"
      using c False by (auto simp: in_edge_set primary_channels_def)
    then have "phase_of ls (producer_actor_id c) < phase_of ls (consumer_actor_id c)"
      using good ends unfolding good_levels_def by blast
    moreover have "call_stage (stages_of p ls) (ad_consumer_call_id (delivery_of p c)) = phase_of ls (consumer_actor_id c)"
      using call_stage_initial [OF ok in_ls(2)] False by (simp add: delivery_of_def)
    ultimately show ?thesis using prod by simp
  qed
qed

text \<open>C2: a compiled plan schedules every call exactly once, and every artifact, the revision feedback
  included, is produced in an earlier stage than the call that consumes it.\<close>

theorem plan_schedule_sound:
  assumes "compile_composite_run_plan sha md task protocol manifest reject = Inr plan"
  shows "distinct (map call_id (actor_calls plan)) \<and>
    concat (map stage_call_ids (stages plan)) = map call_id (actor_calls plan) \<and>
    (\<forall>d\<in>set (artifact_deliveries plan).
      ad_producer_call_id d \<in> set (map call_id (actor_calls plan)) \<and>
      ad_consumer_call_id d \<in> set (map call_id (actor_calls plan)) \<and>
      call_stage (stages plan) (ad_producer_call_id d) < call_stage (stages plan) (ad_consumer_call_id d))"
proof -
  obtain t p m where ok: "protocol_ok p" and plan: "plan = plan_of sha t p m"
    and good: "good_levels (primary_channels p (protocol_feedback p)) (actor_ids p) (levels_of p)"
    by (rule compile_Inr [OF assms]) blast
  let ?ids = "map call_id (calls_of t p (levels_of p))"
  note parts = good_levels_parts [OF good]
  have in_ids: "ad_producer_call_id (delivery_of p c) \<in> set ?ids \<and> ad_consumer_call_id (delivery_of p c) \<in> set ?ids"
    if c: "c \<in> set (artifact_channels p)" for c
  proof (cases "is_feedback (protocol_feedback p) c")
    case True
    then obtain f where f: "protocol_feedback p = Some f" by (auto simp: is_feedback_def split: option.splits)
    have "c = f" using feedback_is_channel [OF ok f c] True by simp
    then have "consumer_actor_id c = final_actor p" using protocol_feedback_Some(2) [OF ok f] by simp
    moreover obtain r where "revision p = Some r" using feedback_channel_ok [OF ok] f by (cases "revision p") auto
    ultimately show ?thesis using protocol_ok_parts(5) [OF ok c] parts(1) True
      unfolding call_ids_of_calls by (simp add: delivery_of_def)
  next
    case False
    then show ?thesis using protocol_ok_parts(5) [OF ok c] parts(1)
      unfolding call_ids_of_calls by (simp add: delivery_of_def)
  qed
  show ?thesis unfolding plan plan_of_fields
    using distinct_call_ids [OF parts(2), of t p] staged_call_ids [OF ok, of "levels_of p" t] in_ids
      delivery_forward [OF ok _ good] by auto
qed


subsection \<open>A compiled sample\<close>

definition sample_dependency :: "string \<Rightarrow> string \<Rightarrow> dependency_ref" where
  "sample_dependency i v = \<lparr>dependency_id = i, dr_interface_version = v, dr_implementation_digest = sample_digest\<rparr>"

definition sample_manifest :: dependency_manifest where
  "sample_manifest = \<lparr>dm_contract_version = ''0.1.0'',
     dm_compiler = sample_dependency ''composite-compiler'' ''v1'',
     dm_harness_contract = sample_dependency ''harness-contract'' ''repo-repair-harness-v1'',
     dm_kernel = sample_dependency ''kernel'' ''v1'',
     trusted_tools = map (\<lambda>i. \<lparr>tt_tool_id = i, tt_interface_version = ''v1'',
       tt_implementation_digest = sample_digest, tt_policy_digest = sample_digest\<rparr>)
       [RepoDiff, RepoEdit, RepoPublicTest, RepoRead, RepoSearch]\<rparr>"

definition sample_metadata :: compiler_metadata where
  "sample_metadata = \<lparr>compiler_id = ''composite-compiler'', compiler_version = ''v1'',
     harness_contract_id = ''harness-contract'', required_kernel_capabilities = [''artifacts''],
     md_trusted_tool_ids = repo_repair_trusted_tool_ids,
     canonical_seed = \<lparr>seed_id = ''seed'', resource_path = ''seed.json'', seed_source_digest = sample_digest\<rparr>\<rparr>"

lemma sample_manifest_valid: "validate_dependency_manifest sample_manifest = Inr sample_manifest"
proof -
  have dg: "require_digest (py_trim sample_digest) n = Inr sample_digest" for n
    using sample_digest_valid is_digest_stable [of sample_digest] by (simp add: require_digest_Inr)
  have dep: "validate_dependency_ref (sample_dependency i v) = Inr (sample_dependency i v)"
    if "require_identifier (py_trim i) ''dependency_id'' = Inr i" "py_trim v = v" "v \<noteq> []" for i v
    using that by (simp add: validate_dependency_ref_def sample_dependency_def dg require_min_length1_def raise_if_def)
  have strings: "require_identifier (py_trim ''composite-compiler'') ''dependency_id'' = Inr ''composite-compiler''"
    "require_identifier (py_trim ''harness-contract'') ''dependency_id'' = Inr ''harness-contract''"
    "require_identifier (py_trim ''kernel'') ''dependency_id'' = Inr ''kernel''"
    "py_trim ''v1'' = ''v1''" "py_trim ''repo-repair-harness-v1'' = ''repo-repair-harness-v1''"
    "py_trim ''0.1.0'' = ''0.1.0''" by code_simp+
  have tools: "mapE validate_trusted_tool_dependency (trusted_tools sample_manifest) = Inr (trusted_tools sample_manifest)"
    by (simp add: sample_manifest_def validate_trusted_tool_dependency_def dg strings require_min_length1_def raise_if_def)
  have order: "distinct (map tt_tool_id (trusted_tools sample_manifest))"
    "sorted (map tt_tool_id (trusted_tools sample_manifest))" by code_simp+
  show ?thesis
    unfolding validate_dependency_manifest_def tools
    by (simp add: order) (simp add: sample_manifest_def dep strings)
qed

lemma sample_differentiated: "differentiated t sample_protocol"
  by (simp add: differentiated_def inj_on_def call_signature_def initial_call_of_def actor_of_def
      sample_protocol_def sample_actor_def Let_def)

lemma sample_compiles:
  "\<exists>plan. compile_composite_run_plan zero_sha sample_metadata sample_task sample_protocol sample_manifest None = Inr plan"
proof -
  let ?t = "sample_task_validated ''fix the bug''"
  have t: "validate_task_envelope zero_sha sample_task = Inr ?t"
    by (rule sample_task_valid) code_simp
  have contract: "validate_dependency_contract ?t sample_protocol sample_manifest sample_metadata = Inr ()"
    by (simp add: validate_dependency_contract_def sample_task_validated_def sample_task_of_def sample_protocol_def
        sample_manifest_def sample_metadata_def sample_dependency_def sample_actor_def check_actor_tools_def
        repo_repair_trusted_tool_ids_def Let_def)
  have "compile_normalized zero_sha ?t sample_protocol sample_manifest None = Inr (plan_of zero_sha ?t sample_protocol sample_manifest)"
  proof -
    have "int (scheduled_calls sample_protocol) \<le> max_model_calls (ceilings ?t)"
      by (simp add: scheduled_calls_def sample_protocol_def sample_task_validated_def sample_task_of_def sample_ceilings_def)
    then show ?thesis
      using compile_decision [OF sample_protocol_ok validated_task_ok [OF t], where sha = zero_sha and m = sample_manifest and reject = None]
        sample_topology_ok(1) sample_differentiated
      by (cases "compile_normalized zero_sha ?t sample_protocol sample_manifest None") (auto split: exn.splits)
  qed
  with t contract show ?thesis
    by (simp add: compile_composite_run_plan_def normalize_task_def normalize_protocol_def
        normalize_dependencies_def sample_protocol_valid sample_manifest_valid)
qed


theorem plan_schedule_sound_witness:
  "\<exists>plan. compile_composite_run_plan zero_sha sample_metadata sample_task sample_protocol sample_manifest None = Inr plan \<and>
     concat (map stage_call_ids (stages plan)) = map call_id (actor_calls plan)"
  using sample_compiles plan_schedule_sound by blast

theorem compile_normalized_decides_witness:
  "\<exists>msg. compile_normalized zero_sha (sample_task_validated ''fix the bug'')
     (sample_review_protocol\<lparr>revision := None\<rparr>) sample_manifest None = Inl (CompositeCompilationError msg)"
proof -
  let ?p = "sample_review_protocol\<lparr>revision := None\<rparr>"
  have t: "validate_task_envelope zero_sha sample_task = Inr (sample_task_validated ''fix the bug'')"
    by (rule sample_task_valid) code_simp
  have p: "protocol_ok ?p" unfolding protocol_ok_iff by code_simp
  have "isl (compile_topology ?p)" by code_simp
  then have n: "\<not> topology_ok ?p" using topology_decision [OF p] by (auto split: sum.splits)
  have "max_model_calls (ceilings (sample_task_validated ''fix the bug'')) \<ge> int (scheduled_calls ?p)"
    by (simp add: sample_task_validated_def sample_task_of_def sample_ceilings_def scheduled_calls_def
        sample_review_protocol_def)
  then show ?thesis
    using compile_normalized_decides [OF p validated_task_ok [OF t], where sha = zero_sha and m = sample_manifest and reject = None] n
    by (cases "compile_normalized zero_sha (sample_task_validated ''fix the bug'') ?p sample_manifest None") (auto split: exn.splits)
qed


lemma phase_of_last:
  "distinct (concat ls) \<Longrightarrow> ls \<noteq> [] \<Longrightarrow> x \<in> set (last ls) \<Longrightarrow> Suc (phase_of ls x) = length ls"
proof (induction ls)
  case (Cons l ls)
  show ?case
  proof (cases "ls = []")
    case False
    then have "x \<in> set (concat ls)" using Cons.prems(3) last_in_set [of ls] by auto
    then have "x \<notin> set l" using Cons.prems(1) by auto
    with Cons False show ?thesis by (simp add: phase_of_Cons)
  qed (use Cons.prems in \<open>simp add: phase_of_Cons\<close>)
qed simp

lemma last_level:
  assumes ok: "protocol_ok p" and top: "topology_ok p" and rev: "revision p = None"
  shows "levels_of p \<noteq> [] \<and> last (levels_of p) = [final_actor p]"
proof -
  note good = levels_of_good(2) [OF ok top] let ?ls = "levels_of p"
  note parts = good_levels_parts [OF good]
  have fin: "final_actor p \<in> set (concat ?ls)" using protocol_ok_parts(1) [OF ok] parts(1) by simp
  then have ne: "?ls \<noteq> []" by auto
  have fb: "protocol_feedback p = None" using feedback_channel_ok [OF ok] rev by simp
  have "x = final_actor p" if x: "x \<in> set (last ?ls)" for x
  proof (rule ccontr)
    assume n: "x \<noteq> final_actor p"
    have "x \<in> set (concat ?ls)" using x ne last_in_set [of ?ls] by auto
    then have "x \<in> set (actor_ids p)" by (simp only: parts(1))
    then have "(x, final_actor p) \<in> (primary_edges p)\<^sup>*"
      using top fb by (auto simp: topology_ok_def paths_ok_def)
    then have "(x, final_actor p) \<in> (edge_set (primary_channels p (protocol_feedback p)))\<^sup>+"
      using n by (simp add: primary_edges_def rtrancl_eq_or_trancl)
    then have "phase_of ?ls x < phase_of ?ls (final_actor p)"
      by (rule good_levels_trancl [OF good primary_endpoints [OF ok]])
    then show False using phase_of_less [OF fin] phase_of_last [OF parts(2) ne x] by simp
  qed
  moreover have "last ?ls \<noteq> []" using ne parts(3) last_in_set by metis
  moreover have "distinct (last ?ls)"
    using parts(2) last_in_set [OF ne] by (simp add: distinct_concat_iff)
  ultimately have "last ?ls = [final_actor p]"
    by (cases "last ?ls"; cases "tl (last ?ls)") auto
  with ne show ?thesis by simp
qed

lemma final_calls:
  assumes "protocol_ok p" and "good_levels cs (actor_ids p) ls"
  shows "map call_id (filter emits_final_patch (calls_of t p ls)) = [final_call_id p]"
proof (cases "revision p")
  case None
  note parts = good_levels_parts [OF assms(2)]
  have "filter emits_final_patch (map (initial_call_of t p) xs) = map (initial_call_of t p) (filter (\<lambda>i. i = final_actor p) xs)" for xs
    using None by (induction xs) auto
  moreover have "filter (\<lambda>i. i = final_actor p) (concat ls) = [final_actor p]"
    using parts(2) protocol_ok_parts(1) [OF assms(1)] parts(1) by (intro filter_single) simp_all
  ultimately show ?thesis using None by (simp add: calls_of_def final_call_id_def)
next
  case (Some r)
  then have "filter emits_final_patch (map (initial_call_of t p) xs) = []" for xs
    by (induction xs) auto
  with Some show ?thesis by (simp add: calls_of_def final_call_id_def)
qed

text \<open>C13: exactly one call of a compiled plan emits the final patch. It is the termination call, it is
  the only call of the last stage, nothing consumes an artifact of it, and public verification runs
  after it.\<close>

theorem plan_final_patch:
  assumes "compile_composite_run_plan sha md task protocol manifest reject = Inr plan"
  shows "map call_id (filter emits_final_patch (actor_calls plan)) = [final_actor_call_id (plan_termination plan)] \<and>
    stage_call_ids (last (stages plan)) = [final_actor_call_id (plan_termination plan)] \<and>
    run_after_call_id (public_verification plan) = final_actor_call_id (plan_termination plan) \<and>
    (\<forall>d\<in>set (artifact_deliveries plan). ad_producer_call_id d \<noteq> final_actor_call_id (plan_termination plan))"
proof -
  obtain t p m where ok: "protocol_ok p" and plan: "plan = plan_of sha t p m" and top: "topology_ok p"
    and good: "good_levels (primary_channels p (protocol_feedback p)) (actor_ids p) (levels_of p)"
    by (rule compile_Inr [OF assms]) blast
  note parts = good_levels_parts [OF good]
  note emits = final_calls [OF ok good, of t]
  have last: "stage_call_ids (last (stages_of p (levels_of p))) = [final_call_id p]"
  proof -
    let ?l = "map stage_call_ids (stages_of p (levels_of p))"
    have "?l \<noteq> [] \<and> last ?l = [final_call_id p]"
      using last_level [OF ok top] unfolding stage_call_lists [OF ok]
      by (cases "revision p") (simp_all add: final_call_id_def last_map)
    then show ?thesis by (auto simp: last_map)
  qed
  have "ad_producer_call_id (delivery_of p c) \<noteq> final_call_id p" if c: "c \<in> set (artifact_channels p)" for c
  proof (cases "revision p")
    case None
    then have "producer_actor_id c \<noteq> final_actor p"
      using top c feedback_channel_ok [OF ok] by (simp add: topology_ok_def paths_ok_def)
    with None show ?thesis by (simp add: delivery_of_def final_call_id_def)
  qed (simp add: delivery_of_def final_call_id_def)
  with emits last show ?thesis
    by (simp add: plan termination_of_def verification_of_def)
qed

theorem plan_final_patch_witness:
  "\<exists>plan. compile_composite_run_plan zero_sha sample_metadata sample_task sample_protocol sample_manifest None = Inr plan \<and>
     stage_call_ids (last (stages plan)) = [final_actor_call_id (plan_termination plan)]"
  using sample_compiles plan_final_patch by blast

text \<open>C15: the liveness manifest of a compiled plan binds exactly the mutable field paths of the
  protocol, in order and once each, and \<open>consumer_paths_for\<close> finds at least one consumer for each;
  for any other path it raises \<open>KeyError\<close>.\<close>

theorem plan_liveness_complete:
  assumes "compile_composite_run_plan sha md task protocol manifest reject = Inr plan"
    and "validate_harness_protocol protocol = Inr p"
  shows "map binding_source_path (bindings (plan_liveness plan)) = mutable_field_paths p \<and>
    distinct (mutable_field_paths p) \<and>
    (\<forall>path. case consumer_paths_for (plan_liveness plan) path of
        Inr consumers \<Rightarrow> path \<in> set (mutable_field_paths p) \<and> consumers \<noteq> []
      | Inl e \<Rightarrow> path \<notin> set (mutable_field_paths p) \<and> e = KeyError path)"
proof -
  obtain t m where ok: "protocol_ok p" and plan: "plan = plan_of sha t p m"
    and good: "good_levels (primary_channels p (protocol_feedback p)) (actor_ids p) (levels_of p)"
    by (rule compile_Inr [OF assms(1)]) (use assms(2) in auto)
  let ?calls = "calls_of t p (levels_of p)" let ?b = "map (binding_of sha) (entries_of t p ?calls)"
  have path: "binding_source_path (binding_of sha e) = fst e" and
    cons: "plan_consumer_paths (binding_of sha e) = fst (snd (snd e))" for e
    by (simp_all add: binding_of_def split: prod.split)
  have paths: "map binding_source_path ?b = mutable_field_paths p"
    using entries_paths [of t p ?calls] by (simp add: comp_def path)
  have nonempty: "fst (snd (snd e)) \<noteq> []" if "e \<in> set (entries_of t p ?calls)" for e
    using that actor_has_call [OF _ good_levels_parts(1) [OF good]]
    by (auto simp: entries_of_def actor_entries_def channel_entries_def revision_entries_def final_entry_def
        Let_def split: option.splits)
  have "case consumer_paths_for (plan_liveness plan) x of
        Inr consumers \<Rightarrow> x \<in> set (mutable_field_paths p) \<and> consumers \<noteq> []
      | Inl e \<Rightarrow> x \<notin> set (mutable_field_paths p) \<and> e = KeyError x" for x
  proof (cases "find (\<lambda>b. binding_source_path b = x) ?b")
    case None
    then have "x \<notin> set (mutable_field_paths p)" by (simp only: paths [symmetric] find_key_None set_map not_False_eq_True)
    with None show ?thesis by (simp add: plan liveness_of_def consumer_paths_for_def)
  next
    case (Some b)
    note f = find_key_Some [OF Some]
    then have "x \<in> set (mutable_field_paths p)" unfolding paths [symmetric] by auto
    moreover have "plan_consumer_paths b \<noteq> []" using f nonempty by (auto simp: cons)
    ultimately show ?thesis using Some by (simp add: plan liveness_of_def consumer_paths_for_def)
  qed
  then show ?thesis
    using paths mutable_field_paths_distinct [OF ok] by (simp add: plan liveness_of_def)
qed

theorem plan_liveness_complete_witness:
  "\<exists>plan. compile_composite_run_plan zero_sha sample_metadata sample_task sample_protocol sample_manifest None = Inr plan \<and>
     map binding_source_path (bindings (plan_liveness plan)) = mutable_field_paths sample_protocol"
  using sample_compiles plan_liveness_complete [OF _ sample_protocol_valid] by blast


lemma task_read_kind [simp]: "source_kind (task_context_read v) \<noteq> SourceArtifact"
  by (cases v) simp_all

lemma artifact_read_simps [simp]:
  "source_kind (artifact_read d) = SourceArtifact" "source_ref (artifact_read d) = ad_artifact_id d"
  by (simp_all add: artifact_read_def)

lemma artifact_reads_initial:
  "{r \<in> set (context_reads (initial_call_of t p i)). source_kind r = SourceArtifact} =
     artifact_read ` {d \<in> set (deliveries_of p). ad_consumer_call_id d = initial_call_id i}"
  by (auto simp: initial_call_of_def deliveries_to_def Let_def)

lemma artifact_reads_revision:
  "{r \<in> set (context_reads (revision_call_of p r')). source_kind r = SourceArtifact} =
     artifact_read ` {d \<in> set (deliveries_of p). ad_consumer_call_id d = initial_call_id (final_actor p) \<or>
       ad_consumer_call_id d = revision_call_id (final_actor p)}"
  by (auto simp: revision_call_of_def deliveries_to_def Let_def)

lemma consumer_call_cases:
  assumes ok: "protocol_ok p" and c: "c \<in> set (artifact_channels p)"
  obtains (initial) "ad_consumer_call_id (delivery_of p c) = initial_call_id (consumer_actor_id c)"
    | (revision) r where "revision p = Some r" "ad_consumer_call_id (delivery_of p c) = revision_call_id (final_actor p)"
proof (cases "is_feedback (protocol_feedback p) c")
  case True
  then obtain f where f: "protocol_feedback p = Some f" by (auto simp: is_feedback_def split: option.splits)
  have "c = f" using feedback_is_channel [OF ok f c] True by simp
  then have "consumer_actor_id c = final_actor p" using protocol_feedback_Some(2) [OF ok f] by simp
  moreover obtain r where "revision p = Some r" using feedback_channel_ok [OF ok] f by (cases "revision p") auto
  ultimately show ?thesis using True revision by (simp add: delivery_of_def)
qed (use initial in \<open>simp add: delivery_of_def\<close>)

lemma delivery_is_read:
  assumes ok: "protocol_ok p" and good: "good_levels cs (actor_ids p) (levels_of p)" and d: "d \<in> set (deliveries_of p)"
  shows "\<exists>c\<in>set (calls_of t p (levels_of p)). call_id c = ad_consumer_call_id d \<and> artifact_read d \<in> set (context_reads c)"
proof -
  note nodes = good_levels_parts(1) [OF good]
  have calls: "set (calls_of t p (levels_of p)) = initial_call_of t p ` set (actor_ids p) \<union>
      (case revision p of None \<Rightarrow> {} | Some r \<Rightarrow> {revision_call_of p r})"
    unfolding calls_of_def set_append set_map nodes by (simp split: option.split)
  obtain c where c: "c \<in> set (artifact_channels p)" and eq: "d = delivery_of p c" using d by auto
  show ?thesis
  proof (cases rule: consumer_call_cases [OF ok c, case_names initial revision])
    case initial
    have "artifact_read d \<in> set (context_reads (initial_call_of t p (consumer_actor_id c)))"
      using artifact_reads_initial [of t p "consumer_actor_id c"] d initial eq by auto
    moreover have "initial_call_of t p (consumer_actor_id c) \<in> set (calls_of t p (levels_of p))"
      using calls protocol_ok_parts(5) [OF ok c] by blast
    ultimately show ?thesis unfolding eq
      by (intro bexI [of _ "initial_call_of t p (consumer_actor_id c)"]) (simp_all add: initial)
  next
    case (revision r)
    have "artifact_read d \<in> set (context_reads (revision_call_of p r))"
      using artifact_reads_revision [of p r] d revision eq by auto
    moreover have "revision_call_of p r \<in> set (calls_of t p (levels_of p))" using calls revision by simp
    ultimately show ?thesis unfolding eq
      by (intro bexI [of _ "revision_call_of p r"]) (simp_all add: revision)
  qed
qed

lemma calls_of_set:
  assumes "good_levels (primary_channels p (protocol_feedback p)) (actor_ids p) (levels_of p)"
  shows "set (calls_of t p (levels_of p)) = initial_call_of t p ` set (actor_ids p) \<union>
    (case revision p of None \<Rightarrow> {} | Some r \<Rightarrow> {revision_call_of p r})"
  unfolding calls_of_def set_append set_map good_levels_parts(1) [OF assms] by (simp split: option.split)

lemma call_reads_scheduled:
  assumes ok: "protocol_ok p" and good: "good_levels (primary_channels p (protocol_feedback p)) (actor_ids p) (levels_of p)"
    and c: "c \<in> set (calls_of t p (levels_of p))" and r: "r \<in> set (context_reads c)" "source_kind r = SourceArtifact"
  shows "\<exists>d\<in>set (deliveries_of p). r = artifact_read d \<and>
    call_stage (stages_of p (levels_of p)) (ad_producer_call_id d) < call_stage (stages_of p (levels_of p)) (call_id c)"
proof -
  let ?ls = "levels_of p" let ?sts = "stages_of p ?ls"
  note nodes = good_levels_parts(1) [OF good]
  have fwd: "call_stage ?sts (ad_producer_call_id d) < call_stage ?sts (ad_consumer_call_id d)"
    if "d \<in> set (deliveries_of p)" for d
    using that delivery_forward [OF ok _ good] by auto
  have fin: "final_actor p \<in> set (concat ?ls)" using protocol_ok_parts(1) [OF ok] by (simp only: nodes)
  have late: "call_stage ?sts (initial_call_id (final_actor p)) < call_stage ?sts (revision_call_id (final_actor p))"
    if "revision p \<noteq> None"
    using call_stage_initial [OF ok fin] call_stage_revision [OF ok that] phase_of_less [OF fin] by simp
  show ?thesis
  proof (cases "c \<in> initial_call_of t p ` set (actor_ids p)")
    case True
    then obtain i where i: "c = initial_call_of t p i" by blast
    then obtain d where "d \<in> set (deliveries_of p)" "r = artifact_read d" "ad_consumer_call_id d = initial_call_id i"
      using r artifact_reads_initial [of t p i] by blast
    with i fwd show ?thesis by (metis call_id_of_initial(1))
  next
    case False
    then obtain r' where r': "revision p = Some r'" "c = revision_call_of p r'"
      using c calls_of_set [OF good] by (auto split: option.splits)
    then obtain d where d: "d \<in> set (deliveries_of p)" "r = artifact_read d"
      "ad_consumer_call_id d = initial_call_id (final_actor p) \<or> ad_consumer_call_id d = revision_call_id (final_actor p)"
      using r artifact_reads_revision [of p r'] by blast
    moreover have "call_stage ?sts (ad_producer_call_id d) < call_stage ?sts (revision_call_id (final_actor p))"
      using fwd [OF d(1)] d(3) late r'(1) by auto
    ultimately show ?thesis using r'(2) by (metis call_id_of_revision(1))
  qed
qed

lemma delivery_is_written:
  assumes ok: "protocol_ok p" and good: "good_levels (primary_channels p (protocol_feedback p)) (actor_ids p) (levels_of p)"
    and d: "d \<in> set (deliveries_of p)"
  shows "\<exists>c\<in>set (calls_of t p (levels_of p)). call_id c = ad_producer_call_id d \<and>
    ad_artifact_id d \<in> set (map aw_artifact_id (artifact_writes c))"
proof -
  obtain c where c: "c \<in> set (artifact_channels p)" and d: "d = delivery_of p c" using d by auto
  have "initial_call_of t p (producer_actor_id c) \<in> set (calls_of t p (levels_of p))"
    using calls_of_set [OF good] protocol_ok_parts(5) [OF ok c] by blast
  moreover have "ad_artifact_id d \<in> set (map aw_artifact_id (writes_of t p (producer_actor_id c)))"
    using c by (force simp: d delivery_of_def writes_of_def)
  ultimately show ?thesis
    by (intro bexI [of _ "initial_call_of t p (producer_actor_id c)"]) (simp_all add: d delivery_of_def)
qed

text \<open>C14: every artifact a call of a compiled plan reads was written in an earlier stage; every
  delivery is written by its producer call and read by its consumer call. Task fields, the
  workspace and the reviser's prior output are the only other reads.\<close>

theorem plan_context_complete:
  assumes "compile_composite_run_plan sha md task protocol manifest reject = Inr plan"
  shows "(\<forall>c\<in>set (actor_calls plan). \<forall>r\<in>set (context_reads c). source_kind r = SourceArtifact \<longrightarrow>
      (\<exists>d\<in>set (artifact_deliveries plan). source_ref r = ad_artifact_id d \<and>
         call_stage (stages plan) (ad_producer_call_id d) < call_stage (stages plan) (call_id c))) \<and>
    (\<forall>d\<in>set (artifact_deliveries plan). \<exists>c\<in>set (actor_calls plan). call_id c = ad_consumer_call_id d \<and>
      artifact_read d \<in> set (context_reads c)) \<and>
    (\<forall>d\<in>set (artifact_deliveries plan). \<exists>c\<in>set (actor_calls plan). call_id c = ad_producer_call_id d \<and>
      ad_artifact_id d \<in> set (map aw_artifact_id (artifact_writes c)))" (is "?reads \<and> ?consumed \<and> ?written")
proof -
  obtain t p m where ok: "protocol_ok p" and plan: "plan = plan_of sha t p m"
    and good: "good_levels (primary_channels p (protocol_feedback p)) (actor_ids p) (levels_of p)"
    by (rule compile_Inr [OF assms]) blast
  have ?reads
    using call_reads_scheduled [OF ok good] unfolding plan plan_of_fields by (metis artifact_read_simps(2))
  moreover have ?consumed
    using delivery_is_read [OF ok good] by (simp add: plan)
  moreover have ?written
    using delivery_is_written [OF ok good] unfolding plan plan_of_fields by blast
  ultimately show ?thesis by blast
qed

theorem plan_context_complete_witness:
  "\<exists>plan. compile_composite_run_plan zero_sha sample_metadata sample_task sample_protocol sample_manifest None = Inr plan \<and>
    (\<forall>d\<in>set (artifact_deliveries plan). \<exists>c\<in>set (actor_calls plan). call_id c = ad_consumer_call_id d)"
  using sample_compiles plan_context_complete by blast


lemma compile_reject:
  assumes "compile_composite_run_plan sha md task protocol manifest None = Inr plan"
  shows "compile_composite_run_plan sha md task protocol manifest (Some d) =
    (if d = compiled_semantic_dg plan
     then Inl (InertProtocolError ''candidate protocol compiles to an exact semantic no-op'') else Inr plan)"
proof -
  have n: "compile_normalized sha t p m None = Inr plan \<Longrightarrow> compile_normalized sha t p m (Some d) =
    (if d = compiled_semantic_dg plan
     then Inl (InertProtocolError ''candidate protocol compiles to an exact semantic no-op'') else Inr plan)" for t p m
  proof -
    assume a: "compile_normalized sha t p m None = Inr plan"
    have same: "validate_run_plan sha x = Inr y \<Longrightarrow> compiled_semantic_dg x = composite_plan_digest sha (semantic_payload x) \<Longrightarrow>
        compiled_semantic_dg y = compiled_semantic_dg x" for x y
      by (auto simp: validate_run_plan_def res_simps Let_def composite_plan_digest_def)
    have dg: "compiled_semantic_dg (assemble_plan sha t p m calls sts ds ver tp ledger live) =
      composite_plan_digest sha (semantic_payload (assemble_plan sha t p m calls sts ds ver tp ledger live))"
      for calls sts ds ver tp ledger live
      by (simp add: assemble_plan_def Let_def semantic_payload_def)
    show ?thesis using a unfolding compile_normalized_def
      by (auto simp: res_simps Let_def split: prod.splits) (auto simp: raise_if_def dest: same [OF _ dg])
  qed
  obtain t p m where "normalize_task sha task = Inr t" "normalize_protocol protocol = Inr p"
    "normalize_dependencies manifest = Inr m" "validate_dependency_contract t p m md = Inr ()"
    and c: "compile_normalized sha t p m None = Inr plan"
    using assms unfolding compile_composite_run_plan_def by (auto simp only: bindE_Inr thenE_Inr)
  then show ?thesis unfolding compile_composite_run_plan_def by (simp add: n [OF c])
qed

text \<open>C16: compiling with the parent's semantic digest as \<open>reject_semantic_digest\<close> refuses the parent
  itself as inert, and every candidate it accepts is a real change: \<open>assert_semantic_change\<close> passes
  and the semantic payloads differ.\<close>

theorem inert_candidates_rejected:
  assumes "compile_composite_run_plan sha md task protocol manifest None = Inr parent"
  shows "compile_composite_run_plan sha md task protocol manifest (Some (compiled_semantic_dg parent)) =
      Inl (InertProtocolError ''candidate protocol compiles to an exact semantic no-op'') \<and>
    (\<forall>candidate child. compile_composite_run_plan sha md task candidate manifest
        (Some (compiled_semantic_dg parent)) = Inr child \<longrightarrow>
      assert_semantic_change parent child = Inr () \<and> semantic_payload child \<noteq> semantic_payload parent)"
proof (intro conjI allI impI)
  show "compile_composite_run_plan sha md task protocol manifest (Some (compiled_semantic_dg parent)) =
      Inl (InertProtocolError ''candidate protocol compiles to an exact semantic no-op'')"
    by (simp add: compile_reject [OF assms])
  fix candidate child
  assume c: "compile_composite_run_plan sha md task candidate manifest (Some (compiled_semantic_dg parent)) = Inr child"
  obtain t p m where v: "validate_task_envelope sha task = Inr t" "validate_dependency_manifest manifest = Inr m"
    and parent: "parent = plan_of sha t p m" by (rule compile_Inr [OF assms]) blast
  obtain t' q m' where w: "validate_task_envelope sha task = Inr t'" "validate_dependency_manifest manifest = Inr m'"
    and child: "child = plan_of sha t' q m'" and ne: "compiled_semantic_dg parent \<noteq> compiled_semantic_dg child"
    by (rule compile_Inr [OF c]) blast
  have "t' = t" "m' = m" using v w by simp_all
  then show "assert_semantic_change parent child = Inr ()"
    using ne by (simp add: assert_semantic_change_def parent child res_simps)
  show "semantic_payload child \<noteq> semantic_payload parent"
    using ne plan_of_semantic_digest parent child by metis
qed

theorem inert_candidates_rejected_witness:
  "\<exists>parent. compile_composite_run_plan zero_sha sample_metadata sample_task sample_protocol sample_manifest None = Inr parent \<and>
    compile_composite_run_plan zero_sha sample_metadata sample_task sample_protocol sample_manifest
      (Some (compiled_semantic_dg parent)) =
      Inl (InertProtocolError ''candidate protocol compiles to an exact semantic no-op'')"
  using sample_compiles inert_candidates_rejected by blast

text \<open>C17: the budget ledger of a compiled plan keeps the task ceilings, one share per actor summing to
  10000 basis points, each call carrying its actor's share, and schedules one call per actor and
  at most one revision, within \<open>max_model_calls\<close>.\<close>

theorem plan_budget_conserved:
  assumes "compile_composite_run_plan sha md task protocol manifest reject = Inr plan"
  shows "sum_list (map snd (actor_shares (budget_ledger plan))) = 10000 \<and>
    (\<forall>c\<in>set (actor_calls plan). (call_actor_id c, call_bps c) \<in> set (actor_shares (budget_ledger plan)) \<and> 0 < call_bps c) \<and>
    scheduled_model_calls (budget_ledger plan) = length (actor_calls plan) \<and>
    length (actor_calls plan) = length (actor_shares (budget_ledger plan)) + scheduled_revision_calls (budget_ledger plan) \<and>
    int (length (actor_calls plan)) \<le> max_model_calls (aggregate_ceiling (budget_ledger plan))"
proof -
  obtain t p m where ok: "protocol_ok p" and plan: "plan = plan_of sha t p m"
    and fits: "int (scheduled_calls p) \<le> max_model_calls (ceilings t)"
    and good: "good_levels (primary_channels p (protocol_feedback p)) (actor_ids p) (levels_of p)"
    by (rule compile_Inr [OF assms]) blast
  have share: "(i, budget_share_bps (actor_of p i)) \<in> set (actor_shares (ledger_of t p cs)) \<and> 0 < budget_share_bps (actor_of p i)"
    if "i \<in> set (actor_ids p)" for i cs
    using actor_of_ok [OF ok that] protocol_ok_parts(4) [OF ok] by (force simp: ledger_of_def actor_ok_def)
  have "(call_actor_id c, call_bps c) \<in> set (actor_shares (ledger_of t p cs)) \<and> 0 < call_bps c"
    if "c \<in> set (calls_of t p (levels_of p))" for c cs
  proof -
    obtain i where "i \<in> set (actor_ids p)" "call_actor_id c = i" "call_bps c = budget_share_bps (actor_of p i)"
    proof (cases "c \<in> initial_call_of t p ` set (actor_ids p)")
      case True
      then obtain i where "i \<in> set (actor_ids p)" "c = initial_call_of t p i" by blast
      then show ?thesis using that by (simp add: initial_call_of_def Let_def)
    next
      case False
      then obtain r where "c = revision_call_of p r"
        using \<open>c \<in> set (calls_of t p (levels_of p))\<close>
        unfolding calls_of_def set_append set_map good_levels_parts(1) [OF good] by (auto split: option.splits)
      then show ?thesis using that [OF protocol_ok_parts(1) [OF ok]] by (simp add: revision_call_of_def Let_def)
    qed
    then show ?thesis using share [of i cs] by (simp only:)
  qed
  moreover have "sum_list (map snd (actor_shares (ledger_of t p cs))) = 10000" for cs
    using protocol_ok_parts(7) [OF ok] by (simp add: ledger_of_def comp_def)
  ultimately show ?thesis
    using length_calls_of [OF ok good] fits
    by (simp add: plan) (simp add: ledger_of_def scheduled_calls_def)
qed

theorem plan_budget_conserved_witness:
  "\<exists>plan. compile_composite_run_plan zero_sha sample_metadata sample_task sample_protocol sample_manifest None = Inr plan \<and>
    sum_list (map snd (actor_shares (budget_ledger plan))) = 10000"
  using sample_compiles plan_budget_conserved by blast

text \<open>Public verification replays the public reproduction steps in order with their timeouts and
  exit codes, but with every argument trimmed: a step whose argument begins or ends with white
  space is accepted by the task contract and verified with a different command.\<close>

theorem verification_trims_arguments:
  assumes "compile_composite_run_plan sha md task protocol manifest reject = Inr plan"
    and "validate_task_envelope sha task = Inr t"
  shows "map va_argv (pv_actions (public_verification plan)) = map (\<lambda>s. map py_trim (step_argv s)) (public_reproduction t) \<and>
    map va_exit_codes (pv_actions (public_verification plan)) = map expected_exit_codes (public_reproduction t) \<and>
    map va_timeout_ms (pv_actions (public_verification plan)) = map step_timeout_ms (public_reproduction t) \<and>
    validate_argv [''grep'', '' x''] = Inr [''grep'', '' x''] \<and> map py_trim [''grep'', '' x''] = [''grep'', ''x'']"
proof -
  obtain p m where plan: "plan = plan_of sha t p m"
    by (rule compile_Inr [OF assms(1)]) (use assms(2) in auto)
  have "validate_argv [''grep'', '' x''] = Inr [''grep'', '' x'']" "map py_trim [''grep'', '' x''] = [''grep'', ''x'']"
    by code_simp+
  then show ?thesis by (simp add: plan verification_of_def action_of_def comp_def)
qed

theorem verification_trims_arguments_witness:
  "\<exists>plan. compile_composite_run_plan zero_sha sample_metadata sample_task sample_protocol sample_manifest None = Inr plan \<and>
    map va_argv (pv_actions (public_verification plan)) = [[''pytest'', ''-q'']]"
proof -
  have t: "validate_task_envelope zero_sha sample_task = Inr (sample_task_validated ''fix the bug'')"
    by (rule sample_task_valid) code_simp
  have "map (\<lambda>s. map py_trim (step_argv s)) (public_reproduction (sample_task_validated ''fix the bug'')) = [[''pytest'', ''-q'']]"
    by code_simp
  then show ?thesis using sample_compiles verification_trims_arguments [OF _ t] by metis
qed

end
