(* ===== verification/HarnessActions.thy ===== *)
theory HarnessActions
  imports Compiler
begin

text \<open>
  Semantic transactions over protocols (\<open>contracts/harness_actions.py\<close>): the typed patches, their
  applicability, budget effect and trace prediction, the proposal, the stored inverse and the
  recorded transaction, each with its validators. A patch is a datatype with one constructor per
  \<open>operator\<close>; \<open>SemanticActionModel\<close> trims every string. The main results: an accepted proposal
  is a fixed point of validation, and a recorded transaction binds its inverse.
\<close>

section \<open>Identifiers\<close>

definition require_tx_identifier :: "string \<Rightarrow> string \<Rightarrow> string res" where
  "require_tx_identifier value field_name =
     (let normalized = py_strip value
      in if is_identifier 127 normalized then Inr normalized
         else Inl (ValueError (field_name @ '' is not a canonical transaction identifier'')))"

definition normalize_identifiers :: "string list \<Rightarrow> string \<Rightarrow> string list res" where
  "normalize_identifiers values field_name =
     bindE (mapE (\<lambda>v. require_tx_identifier (py_trim v) field_name) values) (\<lambda>ids.
     thenE (raise_if (\<not> distinct ids) (ValueError (field_name @ '' may not contain duplicates'')))
     (Inr (sort ids)))"

definition normalize_paths :: "string list \<Rightarrow> string \<Rightarrow> string list res" where
  "normalize_paths values field_name =
     (let normalized = sort (map (\<lambda>v. py_strip (py_trim v)) values) in
      thenE (raise_if ([] \<in> set normalized) (ValueError (field_name @ '' may not contain empty paths''))) (
      thenE (raise_if (\<not> distinct normalized) (ValueError (field_name @ '' may not contain duplicates'')))
      (Inr normalized)))"

section \<open>Applicability\<close>

record path_precondition =
  pre_source_path :: string
  expected_value_digest :: string

datatype revision_state = AnyRevision | RevisionAbsent | RevisionPresent

fun revision_state_name :: "revision_state \<Rightarrow> string" where
  "revision_state_name AnyRevision = ''any''"
| "revision_state_name RevisionAbsent = ''absent''"
| "revision_state_name RevisionPresent = ''present''"

record applicability =
  required_actor_ids :: "string list"
  absent_actor_ids :: "string list"
  required_channel_ids :: "string list"
  absent_channel_ids :: "string list"
  required_revision_state :: revision_state
  path_preconditions :: "path_precondition list"

definition validate_path_precondition :: "path_precondition \<Rightarrow> path_precondition res" where
  "validate_path_precondition c = validated (
     thenE (require_min_length1 (py_trim (pre_source_path c)) ''source_path'') (
     bindE (require_digest (py_trim (expected_value_digest c)) ''expected_value_digest'') (\<lambda>d.
     Inr \<lparr>pre_source_path = py_trim (pre_source_path c), expected_value_digest = d\<rparr>)))"

definition validate_disjoint_requirements :: "applicability \<Rightarrow> unit res" where
  "validate_disjoint_requirements a =
     thenE (raise_if (\<not> disjoint_list (required_actor_ids a) (absent_actor_ids a))
       (ValueError ''actors cannot be both required and absent'')) (
     thenE (raise_if (\<not> disjoint_list (required_channel_ids a) (absent_channel_ids a))
       (ValueError ''channels cannot be both required and absent''))
     (raise_if (\<not> distinct (map pre_source_path (path_preconditions a)))
       (ValueError ''source path preconditions must have unique paths'')))"

definition validate_applicability_model :: "applicability \<Rightarrow> applicability res" where
  "validate_applicability_model a = validated (
     bindE (normalize_identifiers (required_actor_ids a) ''required_actor_ids'') (\<lambda>ra.
     bindE (normalize_identifiers (absent_actor_ids a) ''absent_actor_ids'') (\<lambda>aa.
     bindE (normalize_identifiers (required_channel_ids a) ''required_channel_ids'') (\<lambda>rc.
     bindE (normalize_identifiers (absent_channel_ids a) ''absent_channel_ids'') (\<lambda>ac.
     bindE (mapE validate_path_precondition (path_preconditions a)) (\<lambda>pre.
     let b = \<lparr>required_actor_ids = ra, absent_actor_ids = aa, required_channel_ids = rc,
       absent_channel_ids = ac, required_revision_state = required_revision_state a,
       path_preconditions = pre\<rparr> in
     thenE (validate_disjoint_requirements b) (Inr b)))))))"

section \<open>Budget and trace effects\<close>

record share_change =
  sc_actor_id :: string
  before_bps :: int
  after_bps :: int

definition require_bps :: "int \<Rightarrow> unit res" where
  "require_bps b = raise_if (b < 0 \<or> b > 10000) (ValueError ''bps out of range'')"

definition validate_share_change :: "share_change \<Rightarrow> share_change res" where
  "validate_share_change c = validated (
     bindE (require_tx_identifier (py_trim (sc_actor_id c)) ''actor_id'') (\<lambda>i.
     thenE (require_bps (before_bps c)) (
     thenE (require_bps (after_bps c)) (
     thenE (raise_if (before_bps c = after_bps c)
       (ValueError ''budget share change must change the actor allocation''))
     (Inr (c\<lparr>sc_actor_id := i\<rparr>))))))"

datatype budget_mode = BudgetUnchanged | SharesRebalanced

fun budget_mode_name :: "budget_mode \<Rightarrow> string" where
  "budget_mode_name BudgetUnchanged = ''unchanged''"
| "budget_mode_name SharesRebalanced = ''shares_rebalanced''"

record budget_effect =
  effect_mode :: budget_mode
  share_changes :: "share_change list"

definition validate_rebalance :: "budget_effect \<Rightarrow> unit res" where
  "validate_rebalance e =
     thenE (raise_if (\<not> distinct (map sc_actor_id (share_changes e)))
       (ValueError ''budget share changes must have unique actor ids'')) (
     thenE (raise_if (effect_mode e = BudgetUnchanged \<and> share_changes e \<noteq> [])
       (ValueError ''unchanged budget effect may not contain share changes'')) (
     if effect_mode e = SharesRebalanced then
       thenE (raise_if (share_changes e = [])
         (ValueError ''shares_rebalanced requires explicit share changes''))
       (raise_if (sum_list (map (\<lambda>c. after_bps c - before_bps c) (share_changes e)) \<noteq> 0)
         (ValueError ''budget rebalance may not expand or shrink the total''))
     else Inr ()))"

definition validate_budget_effect_model :: "budget_effect \<Rightarrow> budget_effect res" where
  "validate_budget_effect_model e = validated (
     bindE (mapE validate_share_change (share_changes e)) (\<lambda>cs.
     let b = e\<lparr>share_changes := cs\<rparr> in
     thenE (validate_rebalance b) (Inr b)))"

datatype trace_observation =
    ObserveActorCalls | ObserveDeliveries | ObservePreCallContext | ObserveRevisionCalls
  | ObserveInstructionBlocks | ObserveBudgetShares | ObserveStageTopology

fun observation_name :: "trace_observation \<Rightarrow> string" where
  "observation_name ObserveActorCalls = ''actor_calls''"
| "observation_name ObserveDeliveries = ''artifact_deliveries''"
| "observation_name ObservePreCallContext = ''pre_call_context''"
| "observation_name ObserveRevisionCalls = ''revision_calls''"
| "observation_name ObserveInstructionBlocks = ''instruction_blocks''"
| "observation_name ObserveBudgetShares = ''budget_shares''"
| "observation_name ObserveStageTopology = ''stage_topology''"

fun owner_name :: "runtime_owner \<Rightarrow> string" where
  "owner_name ActorContext = ''actor_context''"
| "owner_name ArtifactStore = ''artifact_store''"
| "owner_name ToolAuthority = ''tool_authority''"
| "owner_name BudgetLedger = ''budget_ledger''"
| "owner_name Scheduler = ''scheduler''"
| "owner_name RevisionController = ''revision_controller''"
| "owner_name TerminationController = ''termination_controller''"

record trace_effect =
  effect_owner :: runtime_owner
  effect_observation :: trace_observation
  expected_effect :: string

text \<open>The transaction's \<open>RuntimeOwner\<close> literal has five of the seven owners of a plan.\<close>

definition validate_trace_effect :: "trace_effect \<Rightarrow> trace_effect res" where
  "validate_trace_effect e = validated (
     thenE (raise_if (effect_owner e \<notin> {ActorContext, ArtifactStore, BudgetLedger, Scheduler, RevisionController})
       (ValueError ''literal_error'')) (
     let t = py_trim (expected_effect e) in
     thenE (require_min_length1 t ''expected_effect'') (Inr (e\<lparr>expected_effect := t\<rparr>))))"

section \<open>Patches\<close>

datatype operator = ActorSplitOp | ChannelAddOp | ChannelRewireOp | RevisionInsertOp | RevisionRemoveOp
  | InstructionRewriteOp

fun operator_name :: "operator \<Rightarrow> string" where
  "operator_name ActorSplitOp = ''actor_split''"
| "operator_name ChannelAddOp = ''channel_add''"
| "operator_name ChannelRewireOp = ''channel_rewire''"
| "operator_name RevisionInsertOp = ''revision_insert''"
| "operator_name RevisionRemoveOp = ''revision_remove''"
| "operator_name InstructionRewriteOp = ''instruction_rewrite''"

text \<open>The fields in the order of the classes: the source actor before and after, the new actor and
  channel; the channel; the channel before and after; draft channel, feedback channel and
  revision (twice); actor id, instruction before and after.\<close>

datatype semantic_patch =
    ActorSplit harness_actor harness_actor harness_actor channel
  | ChannelAdd channel
  | ChannelRewire channel channel
  | RevisionInsert channel channel harness_revision
  | RevisionRemove channel channel harness_revision
  | InstructionRewrite string string string

fun patch_operator :: "semantic_patch \<Rightarrow> operator" where
  "patch_operator (ActorSplit _ _ _ _) = ActorSplitOp"
| "patch_operator (ChannelAdd _) = ChannelAddOp"
| "patch_operator (ChannelRewire _ _) = ChannelRewireOp"
| "patch_operator (RevisionInsert _ _ _) = RevisionInsertOp"
| "patch_operator (RevisionRemove _ _ _) = RevisionRemoveOp"
| "patch_operator (InstructionRewrite _ _ _) = InstructionRewriteOp"

definition validate_split_shape :: "harness_actor \<Rightarrow> harness_actor \<Rightarrow> harness_actor \<Rightarrow> channel \<Rightarrow> unit res" where
  "validate_split_shape before after new ch =
     thenE (raise_if (act_id before \<noteq> act_id after)
       (ValueError ''actor split may not rename the source actor'')) (
     thenE (raise_if (before\<lparr>budget_share_bps := 0\<rparr> \<noteq> after\<lparr>budget_share_bps := 0\<rparr>)
       (ValueError ''actor split may change the source actor budget only; other changes belong to separate transactions'')) (
     thenE (raise_if (act_id new = act_id before)
       (ValueError ''new split actor must have a distinct actor_id'')) (
     thenE (raise_if (producer_actor_id ch \<noteq> act_id new)
       (ValueError ''split channel must be produced by the new actor'')) (
     thenE (raise_if (consumer_actor_id ch \<noteq> act_id before)
       (ValueError ''split channel must feed the source actor''))
     (raise_if (budget_share_bps after + budget_share_bps new \<noteq> budget_share_bps before)
       (ValueError ''split actor shares must exactly replace the source actor share''))))))"

definition validate_rewire_shape :: "channel \<Rightarrow> channel \<Rightarrow> unit res" where
  "validate_rewire_shape before after =
     thenE (raise_if (channel_id before \<noteq> channel_id after)
       (ValueError ''channel rewire may not rename the channel''))
     (raise_if (producer_actor_id before = producer_actor_id after \<and>
         consumer_actor_id before = consumer_actor_id after)
       (ValueError ''channel rewire must change an endpoint''))"

definition validate_revision_shape :: "channel \<Rightarrow> channel \<Rightarrow> harness_revision \<Rightarrow> unit res" where
  "validate_revision_shape draft feedback r =
     thenE (raise_if (channel_id feedback \<noteq> feedback_channel_id r)
       (ValueError ''revision must name the existing feedback channel'')) (
     thenE (raise_if (consumer_actor_id feedback \<noteq> rev_actor_id r)
       (ValueError ''existing feedback channel must feed the revising actor'')) (
     thenE (raise_if (producer_actor_id draft \<noteq> rev_actor_id r)
       (ValueError ''draft channel must be produced by the revising actor'')) (
     thenE (raise_if (consumer_actor_id draft \<noteq> producer_actor_id feedback)
       (ValueError ''draft channel must feed the feedback producer''))
     (raise_if (channel_id draft = channel_id feedback)
       (ValueError ''draft and feedback channels must be distinct'')))))"

definition validate_instruction_change :: "string \<Rightarrow> string \<Rightarrow> unit res" where
  "validate_instruction_change before after =
     raise_if (before = after) (ValueError ''instruction rewrite may not be an exact or whitespace no-op'')"

fun validate_patch :: "semantic_patch \<Rightarrow> semantic_patch res" where
  "validate_patch (ActorSplit before after new ch) = validated (
     bindE (validate_harness_actor before) (\<lambda>b.
     bindE (validate_harness_actor after) (\<lambda>a.
     bindE (validate_harness_actor new) (\<lambda>n.
     bindE (validate_channel ch) (\<lambda>c.
     thenE (validate_split_shape b a n c) (Inr (ActorSplit b a n c)))))))"
| "validate_patch (ChannelAdd ch) = validated (bindE (validate_channel ch) (\<lambda>c. Inr (ChannelAdd c)))"
| "validate_patch (ChannelRewire before after) = validated (
     bindE (validate_channel before) (\<lambda>b.
     bindE (validate_channel after) (\<lambda>a.
     thenE (validate_rewire_shape b a) (Inr (ChannelRewire b a)))))"
| "validate_patch (RevisionInsert draft feedback r) = validated (
     bindE (validate_channel draft) (\<lambda>d.
     bindE (validate_channel feedback) (\<lambda>f.
     bindE (validate_revision r) (\<lambda>v.
     thenE (validate_revision_shape d f v) (Inr (RevisionInsert d f v))))))"
| "validate_patch (RevisionRemove draft feedback r) = validated (
     bindE (validate_channel draft) (\<lambda>d.
     bindE (validate_channel feedback) (\<lambda>f.
     bindE (validate_revision r) (\<lambda>v.
     thenE (validate_revision_shape d f v) (Inr (RevisionRemove d f v))))))"
| "validate_patch (InstructionRewrite i before after) = validated (
     bindE (require_tx_identifier (py_trim i) ''actor_id'') (\<lambda>a.
     let b = py_trim before; c = py_trim after in
     thenE (require_min_length1 b ''before_instruction'') (
     thenE (require_min_length1 c ''after_instruction'') (
     thenE (validate_instruction_change b c) (Inr (InstructionRewrite a b c))))))"

section \<open>Proposals\<close>

datatype treatment_class = Structural | PromptOnlyControl

datatype proposal_source = Manual | MatchedRandom | EvidenceGuided

record proposal =
  transaction_id :: string
  tx_operator :: operator
  tx_treatment :: treatment_class
  tx_source :: proposal_source
  parent_source_digest :: string
  parent_compiled_digest :: string
  tx_task_digest :: string
  tx_manifest_digest :: string
  mechanism_hypothesis :: string
  tx_applicability :: applicability
  normalized_patch :: semantic_patch
  touched_source_paths :: "string list"
  tx_budget_effect :: budget_effect
  dependency_transaction_ids :: "string list"
  predicted_trace_effect :: trace_effect

definition validate_operator_labels :: "proposal \<Rightarrow> unit res" where
  "validate_operator_labels p =
     thenE (raise_if (tx_operator p \<noteq> patch_operator (normalized_patch p))
       (ValueError ''operator must match normalized_patch.operator'')) (
     if tx_operator p = InstructionRewriteOp then
       thenE (raise_if (tx_treatment p \<noteq> PromptOnlyControl)
         (ValueError ''instruction rewrite must be labeled prompt_only_control''))
       (raise_if (effect_mode (tx_budget_effect p) \<noteq> BudgetUnchanged)
         (ValueError ''instruction rewrite may not change budget shares''))
     else raise_if (tx_treatment p \<noteq> Structural)
       (ValueError ''structural operators must be labeled structural''))"

definition validate_proposal :: "proposal \<Rightarrow> proposal res" where
  "validate_proposal p = validated (
     bindE (require_tx_identifier (py_trim (transaction_id p)) ''transaction_id'') (\<lambda>i.
     bindE (require_digest (py_trim (parent_source_digest p)) ''parent_source_protocol_digest'') (\<lambda>ps.
     bindE (require_digest (py_trim (parent_compiled_digest p)) ''parent_compiled_semantic_digest'') (\<lambda>pc.
     bindE (require_digest (py_trim (tx_task_digest p)) ''task_envelope_digest'') (\<lambda>td.
     bindE (require_digest (py_trim (tx_manifest_digest p)) ''dependency_manifest_digest'') (\<lambda>md.
     let mech = py_trim (mechanism_hypothesis p) in
     thenE (require_min_length1 mech ''mechanism_hypothesis'') (
     bindE (validate_applicability_model (tx_applicability p)) (\<lambda>app.
     bindE (validate_patch (normalized_patch p)) (\<lambda>patch.
     thenE (require_min_length1 (touched_source_paths p) ''touched_source_paths'') (
     bindE (normalize_paths (touched_source_paths p) ''touched_source_paths'') (\<lambda>paths.
     bindE (validate_budget_effect_model (tx_budget_effect p)) (\<lambda>budget.
     bindE (normalize_identifiers (dependency_transaction_ids p) ''dependency_transaction_ids'') (\<lambda>deps.
     bindE (validate_trace_effect (predicted_trace_effect p)) (\<lambda>trace.
     let q = \<lparr>transaction_id = i, tx_operator = tx_operator p, tx_treatment = tx_treatment p,
       tx_source = tx_source p, parent_source_digest = ps, parent_compiled_digest = pc,
       tx_task_digest = td, tx_manifest_digest = md, mechanism_hypothesis = mech,
       tx_applicability = app, normalized_patch = patch, touched_source_paths = paths,
       tx_budget_effect = budget, dependency_transaction_ids = deps, predicted_trace_effect = trace\<rparr> in
     thenE (validate_operator_labels q) (Inr q)))))))))))))))"


section \<open>Recorded transactions\<close>

record reversion =
  inv_child_source :: string
  inv_child_compiled :: string
  inv_task_digest :: string
  inv_manifest_digest :: string
  restored_protocol :: harness_protocol
  restored_source :: string
  restored_compiled :: string
  protected_source_paths :: "string list"

definition validate_reversion :: "reversion \<Rightarrow> reversion res" where
  "validate_reversion v = validated (
     bindE (require_digest (py_trim (inv_child_source v)) ''expected_child_source_protocol_digest'') (\<lambda>cs.
     bindE (require_digest (py_trim (inv_child_compiled v)) ''expected_child_compiled_semantic_digest'') (\<lambda>cc.
     bindE (require_digest (py_trim (inv_task_digest v)) ''task_envelope_digest'') (\<lambda>td.
     bindE (require_digest (py_trim (inv_manifest_digest v)) ''dependency_manifest_digest'') (\<lambda>md.
     bindE (validate_harness_protocol (restored_protocol v)) (\<lambda>p.
     bindE (require_digest (py_trim (restored_source v)) ''restored_source_protocol_digest'') (\<lambda>rs.
     bindE (require_digest (py_trim (restored_compiled v)) ''restored_compiled_semantic_digest'') (\<lambda>rc.
     thenE (require_min_length1 (protected_source_paths v) ''protected_source_paths'') (
     bindE (normalize_paths (protected_source_paths v) ''protected_source_paths'') (\<lambda>paths.
     Inr \<lparr>inv_child_source = cs, inv_child_compiled = cc, inv_task_digest = td, inv_manifest_digest = md,
       restored_protocol = p, restored_source = rs, restored_compiled = rc,
       protected_source_paths = paths\<rparr>))))))))))"

record semantic_transaction =
  tx_proposal :: proposal
  child_source_digest :: string
  child_compiled_digest :: string
  tx_inverse :: reversion
  tx_record_digest :: string

subsection \<open>The identity payload\<close>

text \<open>\<open>model_dump(mode="python", exclude_none=True)\<close>: tuples stay tuples and absent values are
  dropped.\<close>

definition strings_dump :: "string list \<Rightarrow> pyval" where
  "strings_dump xs = PTuple (map PStr xs)"

definition actor_dump :: "harness_actor \<Rightarrow> pyval" where
  "actor_dump a = obj
     [(''actor_id'', PStr (act_id a)), (''task_view'', PTuple (map (\<lambda>v. PStr (view_name v)) (task_view a))),
      (''instruction'', PStr (instruction a)),
      (''tool_ids'', PTuple (map (\<lambda>t. PStr (tool_name t)) (tool_ids a))),
      (''budget_share_bps'', PInt (budget_share_bps a))]"

definition protocol_dump :: "harness_protocol \<Rightarrow> pyval" where
  "protocol_dump p = obj
     ([(''schema_version'', PStr ''repo-repair-harness-v1''),
       (''actors'', PTuple (map actor_dump (actors p))),
       (''artifact_channels'', PTuple (map channel_payload (artifact_channels p)))] @
      (case revision p of None \<Rightarrow> [] | Some r \<Rightarrow> [(''revision'', revision_payload r)]) @
      [(''termination'', termination_payload (protocol_termination p))])"

definition applicability_dump :: "applicability \<Rightarrow> pyval" where
  "applicability_dump a = obj
     [(''required_actor_ids'', strings_dump (required_actor_ids a)),
      (''absent_actor_ids'', strings_dump (absent_actor_ids a)),
      (''required_channel_ids'', strings_dump (required_channel_ids a)),
      (''absent_channel_ids'', strings_dump (absent_channel_ids a)),
      (''revision_state'', PStr (revision_state_name (required_revision_state a))),
      (''source_path_preconditions'', PTuple (map (\<lambda>c. obj
        [(''source_path'', PStr (pre_source_path c)),
         (''expected_value_digest'', PStr (expected_value_digest c))]) (path_preconditions a)))]"

definition budget_effect_dump :: "budget_effect \<Rightarrow> pyval" where
  "budget_effect_dump e = obj
     [(''mode'', PStr (budget_mode_name (effect_mode e))), (''total_before_bps'', PInt 10000),
      (''total_after_bps'', PInt 10000),
      (''share_changes'', PTuple (map (\<lambda>c. obj [(''actor_id'', PStr (sc_actor_id c)),
         (''before_bps'', PInt (before_bps c)), (''after_bps'', PInt (after_bps c))]) (share_changes e)))]"

definition trace_effect_dump :: "trace_effect \<Rightarrow> pyval" where
  "trace_effect_dump e = obj
     [(''runtime_owner'', PStr (owner_name (effect_owner e))),
      (''trace_observation'', PStr (observation_name (effect_observation e))),
      (''expected_effect'', PStr (expected_effect e))]"

fun patch_fields :: "semantic_patch \<Rightarrow> (string \<times> pyval) list" where
  "patch_fields (ActorSplit b a n c) = [(''source_actor_before'', actor_dump b),
     (''source_actor_after'', actor_dump a), (''new_actor'', actor_dump n), (''new_channel'', channel_payload c)]"
| "patch_fields (ChannelAdd c) = [(''channel'', channel_payload c)]"
| "patch_fields (ChannelRewire b a) = [(''channel_before'', channel_payload b), (''channel_after'', channel_payload a)]"
| "patch_fields (RevisionInsert d f r) = [(''draft_channel'', channel_payload d),
     (''feedback_channel_before'', channel_payload f), (''revision'', revision_payload r)]"
| "patch_fields (RevisionRemove d f r) = [(''draft_channel'', channel_payload d),
     (''feedback_channel'', channel_payload f), (''revision'', revision_payload r)]"
| "patch_fields (InstructionRewrite i b a) = [(''actor_id'', PStr i), (''before_instruction'', PStr b),
     (''after_instruction'', PStr a), (''control_label'', PStr ''prompt_only'')]"

definition patch_dump :: "semantic_patch \<Rightarrow> pyval" where
  "patch_dump p = obj ((''operator'', PStr (operator_name (patch_operator p))) # patch_fields p)"

fun treatment_name :: "treatment_class \<Rightarrow> string" where
  "treatment_name Structural = ''structural''"
| "treatment_name PromptOnlyControl = ''prompt_only_control''"

fun source_name :: "proposal_source \<Rightarrow> string" where
  "source_name Manual = ''manual''"
| "source_name MatchedRandom = ''matched_random''"
| "source_name EvidenceGuided = ''evidence_guided''"

definition reversion_dump :: "reversion \<Rightarrow> pyval" where
  "reversion_dump v = obj
     [(''expected_child_source_protocol_digest'', PStr (inv_child_source v)),
      (''expected_child_compiled_semantic_digest'', PStr (inv_child_compiled v)),
      (''task_envelope_digest'', PStr (inv_task_digest v)),
      (''dependency_manifest_digest'', PStr (inv_manifest_digest v)),
      (''restored_protocol'', protocol_dump (restored_protocol v)),
      (''restored_source_protocol_digest'', PStr (restored_source v)),
      (''restored_compiled_semantic_digest'', PStr (restored_compiled v)),
      (''protected_source_paths'', strings_dump (protected_source_paths v))]"

definition semantic_transaction_identity_payload :: "semantic_transaction \<Rightarrow> pyval" where
  "semantic_transaction_identity_payload t = (let p = tx_proposal t in obj
     [(''schema_version'', PStr ''repo-repair-semantic-transaction-v1''),
      (''transaction_id'', PStr (transaction_id p)),
      (''operator'', PStr (operator_name (tx_operator p))),
      (''treatment_class'', PStr (treatment_name (tx_treatment p))),
      (''proposal_source'', PStr (source_name (tx_source p))),
      (''parent_source_protocol_digest'', PStr (parent_source_digest p)),
      (''parent_compiled_semantic_digest'', PStr (parent_compiled_digest p)),
      (''task_envelope_digest'', PStr (tx_task_digest p)),
      (''dependency_manifest_digest'', PStr (tx_manifest_digest p)),
      (''mechanism_hypothesis'', PStr (mechanism_hypothesis p)),
      (''applicability'', applicability_dump (tx_applicability p)),
      (''normalized_patch'', patch_dump (normalized_patch p)),
      (''touched_source_paths'', strings_dump (touched_source_paths p)),
      (''budget_effect'', budget_effect_dump (tx_budget_effect p)),
      (''dependency_transaction_ids'', strings_dump (dependency_transaction_ids p)),
      (''predicted_trace_effect'', trace_effect_dump (predicted_trace_effect p)),
      (''child_source_protocol_digest'', PStr (child_source_digest t)),
      (''child_compiled_semantic_digest'', PStr (child_compiled_digest t)),
      (''inverse'', reversion_dump (tx_inverse t))])"

definition semantic_transaction_digest :: "sha256 \<Rightarrow> semantic_transaction \<Rightarrow> string" where
  "semantic_transaction_digest sha t = transaction_digest sha (semantic_transaction_identity_payload t)"

definition bind_transaction :: "sha256 \<Rightarrow> semantic_transaction \<Rightarrow> semantic_transaction res" where
  "bind_transaction sha t = (let p = tx_proposal t; v = tx_inverse t in
     thenE (raise_if (inv_child_source v \<noteq> child_source_digest t \<or> inv_child_compiled v \<noteq> child_compiled_digest t)
       (ValueError ''inverse is not bound to this transaction child'')) (
     thenE (raise_if (restored_source v \<noteq> parent_source_digest p \<or> restored_compiled v \<noteq> parent_compiled_digest p)
       (ValueError ''inverse does not restore this transaction parent'')) (
     thenE (raise_if (inv_task_digest v \<noteq> tx_task_digest p) (ValueError ''inverse is bound to another task'')) (
     thenE (raise_if (inv_manifest_digest v \<noteq> tx_manifest_digest p)
       (ValueError ''inverse is bound to other runtime dependencies'')) (
     thenE (raise_if (protected_source_paths v \<noteq> touched_source_paths p)
       (ValueError ''inverse protected paths must match transaction touched paths'')) (
     let computed = semantic_transaction_digest sha t in
     thenE (raise_if (tx_record_digest t \<noteq> [] \<and> tx_record_digest t \<noteq> computed)
       (ValueError ''transaction_record_digest does not match the transaction''))
     (Inr (if tx_record_digest t = [] then t\<lparr>tx_record_digest := computed\<rparr> else t))))))))"

definition validate_transaction :: "sha256 \<Rightarrow> semantic_transaction \<Rightarrow> semantic_transaction res" where
  "validate_transaction sha t = validated (
     bindE (validate_proposal (tx_proposal t)) (\<lambda>p.
     bindE (require_digest (py_trim (child_source_digest t)) ''child_source_protocol_digest'') (\<lambda>cs.
     bindE (require_digest (py_trim (child_compiled_digest t)) ''child_compiled_semantic_digest'') (\<lambda>cc.
     bindE (validate_reversion (tx_inverse t)) (\<lambda>v.
     bind_transaction sha \<lparr>tx_proposal = p, child_source_digest = cs, child_compiled_digest = cc,
       tx_inverse = v, tx_record_digest = py_trim (tx_record_digest t)\<rparr>)))))"


section \<open>Well-formed proposals\<close>

lemma require_tx_identifier_Inr [res_simps]:
  "require_tx_identifier v n = Inr s \<longleftrightarrow> s = py_strip v \<and> is_identifier 127 s"
  by (auto simp: require_tx_identifier_def Let_def)

definition ids_ok :: "string list \<Rightarrow> bool" where
  "ids_ok ids \<longleftrightarrow> (\<forall>i\<in>set ids. is_identifier 127 i) \<and> distinct ids \<and> sorted ids"

definition paths_normal :: "string list \<Rightarrow> bool" where
  "paths_normal ps \<longleftrightarrow> (\<forall>v\<in>set ps. v \<noteq> [] \<and> py_strip (py_trim v) = v) \<and> distinct ps \<and> sorted ps"

interpretation identifiers_validator: validator "\<lambda>ids. normalize_identifiers ids n" ids_ok
proof
  show "ids_ok ids" if norm: "normalize_identifiers raw n = Inr ids" for raw ids
  proof -
    obtain xs where "mapE (\<lambda>v. require_tx_identifier (py_trim v) n) raw = Inr xs" "distinct xs" "ids = sort xs"
      using norm by (auto simp only: normalize_identifiers_def bindE_Inr thenE_Inr raise_if_Inr not_not sum.inject)
    moreover from this(1) have "\<forall>i\<in>set xs. is_identifier 127 i" by (rule mapE_all) (simp add: require_tx_identifier_Inr)
    ultimately show ?thesis by (simp add: ids_ok_def)
  qed
  show "normalize_identifiers ids n = Inr ids" if "ids_ok ids" for ids
  proof -
    have "mapE (\<lambda>v. require_tx_identifier (py_trim v) n) ids = Inr ids"
      using that by (auto simp: mapE_fixpoint require_tx_identifier_Inr ids_ok_def identifier_stable)
    then show ?thesis using that by (simp add: normalize_identifiers_def ids_ok_def sorted_sort_id)
  qed
qed

interpretation paths_validator: validator "\<lambda>ps. normalize_paths ps n" paths_normal
proof
  show "paths_normal ps" if "normalize_paths raw n = Inr ps" for raw ps
    using that by (auto simp: normalize_paths_def Let_def res_simps paths_normal_def)
  show "normalize_paths ps n = Inr ps" if "paths_normal ps" for ps
  proof -
    have "map (\<lambda>v. py_strip (py_trim v)) ps = ps" using that by (simp add: paths_normal_def map_idI)
    then show ?thesis using that by (auto simp: normalize_paths_def paths_normal_def sorted_sort_id)
  qed
qed

definition precondition_ok :: "path_precondition \<Rightarrow> bool" where
  "precondition_ok c \<longleftrightarrow> pre_source_path c \<noteq> [] \<and> py_trim (pre_source_path c) = pre_source_path c \<and>
     is_digest (expected_value_digest c)"

interpretation precondition_validator: validator validate_path_precondition precondition_ok
  by unfold_locales (auto simp: validate_path_precondition_def precondition_ok_def res_simps is_digest_stable)

definition applicability_ok :: "applicability \<Rightarrow> bool" where
  "applicability_ok a \<longleftrightarrow> ids_ok (required_actor_ids a) \<and> ids_ok (absent_actor_ids a) \<and>
     ids_ok (required_channel_ids a) \<and> ids_ok (absent_channel_ids a) \<and>
     list_all precondition_ok (path_preconditions a) \<and> distinct (map pre_source_path (path_preconditions a)) \<and>
     set (required_actor_ids a) \<inter> set (absent_actor_ids a) = {} \<and>
     set (required_channel_ids a) \<inter> set (absent_channel_ids a) = {}"

interpretation applicability_validator: validator validate_applicability_model applicability_ok
proof
  show "applicability_ok b" if "validate_applicability_model a = Inr b" for a b
    using that unfolding validate_applicability_model_def Let_def
    by (auto simp: bindE_Inr thenE_Inr validated_Inr validate_disjoint_requirements_def raise_if_Inr applicability_ok_def
        dest!: identifiers_validator.sound precondition_validator.list_sound)
  show "validate_applicability_model a = Inr a" if "applicability_ok a" for a
  proof -
    have "normalize_identifiers (required_actor_ids a) n = Inr (required_actor_ids a)"
      "normalize_identifiers (absent_actor_ids a) n = Inr (absent_actor_ids a)"
      "normalize_identifiers (required_channel_ids a) n = Inr (required_channel_ids a)"
      "normalize_identifiers (absent_channel_ids a) n = Inr (absent_channel_ids a)"
      "mapE validate_path_precondition (path_preconditions a) = Inr (path_preconditions a)" for n
      using that by (auto simp: applicability_ok_def intro: identifiers_validator.stable precondition_validator.list_stable)
    moreover have "validate_disjoint_requirements a = Inr ()"
      using that by (simp add: validate_disjoint_requirements_def res_simps applicability_ok_def)
    moreover have "\<lparr>required_actor_ids = required_actor_ids a, absent_actor_ids = absent_actor_ids a,
        required_channel_ids = required_channel_ids a, absent_channel_ids = absent_channel_ids a,
        required_revision_state = required_revision_state a, path_preconditions = path_preconditions a\<rparr> = a"
      by (cases a) simp
    ultimately show ?thesis
      by (simp only: validate_applicability_model_def bindE_simps Let_def thenE_simps validated_simps)
  qed
qed

definition share_change_ok :: "share_change \<Rightarrow> bool" where
  "share_change_ok c \<longleftrightarrow> is_identifier 127 (sc_actor_id c) \<and> 0 \<le> before_bps c \<and> before_bps c \<le> 10000 \<and>
     0 \<le> after_bps c \<and> after_bps c \<le> 10000 \<and> before_bps c \<noteq> after_bps c"

interpretation share_change_validator: validator validate_share_change share_change_ok
  by unfold_locales (auto simp: validate_share_change_def share_change_ok_def res_simps require_bps_def identifier_stable)

text \<open>A budget effect moves shares between actors and never changes the total.\<close>

definition budget_effect_ok :: "budget_effect \<Rightarrow> bool" where
  "budget_effect_ok e \<longleftrightarrow> list_all share_change_ok (share_changes e) \<and> distinct (map sc_actor_id (share_changes e)) \<and>
     (effect_mode e = BudgetUnchanged \<longleftrightarrow> share_changes e = []) \<and>
     sum_list (map (\<lambda>c. after_bps c - before_bps c) (share_changes e)) = 0"

lemma validate_rebalance_Inr: "validate_rebalance e = Inr u \<longleftrightarrow>
    distinct (map sc_actor_id (share_changes e)) \<and> (effect_mode e = BudgetUnchanged \<longleftrightarrow> share_changes e = []) \<and>
    sum_list (map (\<lambda>c. after_bps c - before_bps c) (share_changes e)) = 0"
  by (cases "effect_mode e") (auto simp: validate_rebalance_def res_simps)

interpretation budget_effect_validator: validator validate_budget_effect_model budget_effect_ok
proof
  show "budget_effect_ok b" if "validate_budget_effect_model e = Inr b" for e b
    using that unfolding validate_budget_effect_model_def Let_def
    by (auto simp: bindE_Inr thenE_Inr validated_Inr validate_rebalance_Inr budget_effect_ok_def
        dest!: share_change_validator.list_sound)
  show "validate_budget_effect_model e = Inr e" if "budget_effect_ok e" for e
  proof -
    have "mapE validate_share_change (share_changes e) = Inr (share_changes e)" "validate_rebalance e = Inr ()"
      using that by (auto simp: budget_effect_ok_def validate_rebalance_Inr intro: share_change_validator.list_stable)
    then show ?thesis by (simp add: validate_budget_effect_model_def)
  qed
qed

definition trace_effect_ok :: "trace_effect \<Rightarrow> bool" where
  "trace_effect_ok e \<longleftrightarrow> effect_owner e \<in> {ActorContext, ArtifactStore, BudgetLedger, Scheduler, RevisionController} \<and>
     expected_effect e \<noteq> [] \<and> py_trim (expected_effect e) = expected_effect e"

interpretation trace_effect_validator: validator validate_trace_effect trace_effect_ok
  by unfold_locales (auto simp: validate_trace_effect_def trace_effect_ok_def res_simps Let_def)

fun patch_ok :: "semantic_patch \<Rightarrow> bool" where
  "patch_ok (ActorSplit b a n c) \<longleftrightarrow> actor_ok b \<and> actor_ok a \<and> actor_ok n \<and> channel_ok c \<and>
     validate_split_shape b a n c = Inr ()"
| "patch_ok (ChannelAdd c) \<longleftrightarrow> channel_ok c"
| "patch_ok (ChannelRewire b a) \<longleftrightarrow> channel_ok b \<and> channel_ok a \<and> validate_rewire_shape b a = Inr ()"
| "patch_ok (RevisionInsert d f r) \<longleftrightarrow> channel_ok d \<and> channel_ok f \<and> revision_ok r \<and>
     validate_revision_shape d f r = Inr ()"
| "patch_ok (RevisionRemove d f r) \<longleftrightarrow> channel_ok d \<and> channel_ok f \<and> revision_ok r \<and>
     validate_revision_shape d f r = Inr ()"
| "patch_ok (InstructionRewrite i b a) \<longleftrightarrow> is_identifier 127 i \<and> b \<noteq> [] \<and> py_trim b = b \<and> a \<noteq> [] \<and>
     py_trim a = a \<and> b \<noteq> a"

interpretation patch_validator: validator validate_patch patch_ok
proof
  show "patch_ok q" if "validate_patch p = Inr q" for p q
    using that by (cases p)
      (auto simp: bindE_Inr thenE_Inr validated_Inr Let_def require_min_length1_Inr require_tx_identifier_Inr
        validate_instruction_change_def raise_if_Inr
        dest: actor_validator.sound channel_validator.sound revision_validator.sound)
  show "validate_patch p = Inr p" if "patch_ok p" for p
    using that by (cases p)
      (auto simp: actor_validator.stable channel_validator.stable revision_validator.stable bindE_Inr thenE_Inr
        validated_Inr require_min_length1_Inr require_tx_identifier_Inr validate_instruction_change_def raise_if_Inr
        identifier_stable Let_def)
qed


definition labels_ok :: "proposal \<Rightarrow> bool" where
  "labels_ok p \<longleftrightarrow> tx_operator p = patch_operator (normalized_patch p) \<and>
     (tx_treatment p = PromptOnlyControl \<longleftrightarrow> tx_operator p = InstructionRewriteOp) \<and>
     (tx_operator p = InstructionRewriteOp \<longrightarrow> effect_mode (tx_budget_effect p) = BudgetUnchanged)"

definition proposal_ok :: "proposal \<Rightarrow> bool" where
  "proposal_ok p \<longleftrightarrow> is_identifier 127 (transaction_id p) \<and> is_digest (parent_source_digest p) \<and>
     is_digest (parent_compiled_digest p) \<and> is_digest (tx_task_digest p) \<and> is_digest (tx_manifest_digest p) \<and>
     mechanism_hypothesis p \<noteq> [] \<and> py_trim (mechanism_hypothesis p) = mechanism_hypothesis p \<and>
     applicability_ok (tx_applicability p) \<and> patch_ok (normalized_patch p) \<and>
     touched_source_paths p \<noteq> [] \<and> paths_normal (touched_source_paths p) \<and>
     budget_effect_ok (tx_budget_effect p) \<and> ids_ok (dependency_transaction_ids p) \<and>
     trace_effect_ok (predicted_trace_effect p) \<and> labels_ok p"

lemma validate_operator_labels_Inr: "validate_operator_labels p = Inr u \<longleftrightarrow> labels_ok p"
  by (cases "tx_treatment p"; cases "tx_operator p = InstructionRewriteOp")
    (auto simp: validate_operator_labels_def labels_ok_def res_simps)

lemma digest_stable: "is_digest d \<Longrightarrow> require_digest (py_trim d) n = Inr d"
  by (simp add: require_digest_Inr is_digest_stable)

interpretation proposal_validator: validator validate_proposal proposal_ok
proof
  show "proposal_ok q" if "validate_proposal p = Inr q" for p q
  proof -
    have paths: "normalize_paths xs n = Inr ys \<Longrightarrow> xs \<noteq> [] \<Longrightarrow> ys \<noteq> []" for xs ys n
      by (auto simp: normalize_paths_def Let_def res_simps)
    show ?thesis
      using that unfolding validate_proposal_def Let_def
      by (auto simp only: bindE_Inr thenE_Inr validated_Inr sum.inject validate_operator_labels_Inr
          require_digest_Inr require_tx_identifier_Inr require_min_length1_Inr)
        (auto simp only: proposal_ok_def proposal.simps strip_with_idem simp_thms
          intro: applicability_validator.sound patch_validator.sound paths_validator.sound
          budget_effect_validator.sound identifiers_validator.sound trace_effect_validator.sound dest: paths)
  qed
  show "validate_proposal p = Inr p" if ok: "proposal_ok p" for p
  proof -
    have fields: "require_tx_identifier (py_trim (transaction_id p)) n = Inr (transaction_id p)"
      "require_digest (py_trim (parent_source_digest p)) n = Inr (parent_source_digest p)"
      "require_digest (py_trim (parent_compiled_digest p)) n = Inr (parent_compiled_digest p)"
      "require_digest (py_trim (tx_task_digest p)) n = Inr (tx_task_digest p)"
      "require_digest (py_trim (tx_manifest_digest p)) n = Inr (tx_manifest_digest p)"
      "require_min_length1 (mechanism_hypothesis p) n = Inr ()" "require_min_length1 (touched_source_paths p) n = Inr ()"
      "validate_applicability_model (tx_applicability p) = Inr (tx_applicability p)"
      "validate_patch (normalized_patch p) = Inr (normalized_patch p)"
      "normalize_paths (touched_source_paths p) n = Inr (touched_source_paths p)"
      "validate_budget_effect_model (tx_budget_effect p) = Inr (tx_budget_effect p)"
      "normalize_identifiers (dependency_transaction_ids p) n = Inr (dependency_transaction_ids p)"
      "validate_trace_effect (predicted_trace_effect p) = Inr (predicted_trace_effect p)"
      "validate_operator_labels p = Inr ()" for n
      using ok unfolding proposal_ok_def
      by (simp_all add: digest_stable identifier_stable [of 127] require_tx_identifier_Inr require_min_length1_Inr
          validate_operator_labels_Inr applicability_validator.stable patch_validator.stable paths_validator.stable
          budget_effect_validator.stable identifiers_validator.stable trace_effect_validator.stable)
    have mech: "py_trim (mechanism_hypothesis p) = mechanism_hypothesis p" using ok by (simp add: proposal_ok_def)
    have eta: "\<lparr>transaction_id = transaction_id p, tx_operator = tx_operator p, tx_treatment = tx_treatment p,
       tx_source = tx_source p, parent_source_digest = parent_source_digest p,
       parent_compiled_digest = parent_compiled_digest p, tx_task_digest = tx_task_digest p,
       tx_manifest_digest = tx_manifest_digest p, mechanism_hypothesis = mechanism_hypothesis p,
       tx_applicability = tx_applicability p, normalized_patch = normalized_patch p,
       touched_source_paths = touched_source_paths p, tx_budget_effect = tx_budget_effect p,
       dependency_transaction_ids = dependency_transaction_ids p,
       predicted_trace_effect = predicted_trace_effect p\<rparr> = p" by (cases p) simp
    show ?thesis
      by (simp only: validate_proposal_def fields mech eta Let_def bindE_simps thenE_simps validated_simps)
  qed
qed

definition reversion_ok :: "reversion \<Rightarrow> bool" where
  "reversion_ok v \<longleftrightarrow> is_digest (inv_child_source v) \<and> is_digest (inv_child_compiled v) \<and>
     is_digest (inv_task_digest v) \<and> is_digest (inv_manifest_digest v) \<and> protocol_ok (restored_protocol v) \<and>
     is_digest (restored_source v) \<and> is_digest (restored_compiled v) \<and>
     protected_source_paths v \<noteq> [] \<and> paths_normal (protected_source_paths v)"

lemma reversion_stable: "reversion_ok v \<Longrightarrow> validate_reversion v = Inr v"
  by (cases v) (simp add: reversion_ok_def validate_reversion_def digest_stable protocol_validator.stable
      paths_validator.stable require_min_length1_def raise_if_def)

end
