(* ===== verification/HarnessMutator.thy ===== *)
theory HarnessMutator
  imports HarnessActions
begin

text \<open>
  The semantic mutator (\<open>search/harness_mutator.py\<close>): a proposal is checked against its parent
  protocol, plan, task and retained lineage, its typed patch is applied, the child is compiled,
  and the transaction is recorded with an inverse that a later reversion replays. Plans are
  compiled by the compiler of \<open>Compiler\<close> with its metadata as an argument. The results: an
  applied child is well-formed, budget-preserving and not inert; a patch changes nothing outside
  its touched paths; reverting the newest transaction restores the parent; a reversion never
  removes a transaction that a later one depends on or overlaps.
\<close>

section \<open>Inputs\<close>

fun is_validation_error :: "exn \<Rightarrow> bool" where
  "is_validation_error (ValidationError _) = True"
| "is_validation_error _ = False"

definition mutator_protocol :: "harness_protocol \<Rightarrow> harness_protocol res" where
  "mutator_protocol p = catchE is_value_error
     (\<lambda>_. SemanticMutationError ''invalid parent HarnessProtocol'') (validate_harness_protocol p)"

definition mutator_task :: "sha256 \<Rightarrow> task_envelope \<Rightarrow> task_envelope res" where
  "mutator_task sha t = catchE is_value_error
     (\<lambda>_. SemanticMutationError ''invalid TaskEnvelope'') (validate_task_envelope sha t)"

definition mutator_dependencies :: "dependency_manifest \<Rightarrow> dependency_manifest res" where
  "mutator_dependencies m = catchE is_value_error
     (\<lambda>_. SemanticMutationError ''invalid RuntimeDependencyManifest'') (validate_dependency_manifest m)"

definition mutator_proposal :: "proposal \<Rightarrow> proposal res" where
  "mutator_proposal p = catchE is_value_error
     (\<lambda>_. SemanticMutationError ''invalid SemanticTransactionProposal'') (validate_proposal p)"

section \<open>Source paths\<close>

text \<open>\<open>prefix[identifier]\<close> followed by nothing or by \<open>.field\<close>: what the two path patterns match.\<close>

definition match_path :: "string \<Rightarrow> string list \<Rightarrow> string \<Rightarrow> (string \<times> string option) option" where
  "match_path prefix names s =
     (if \<not> starts_with s prefix then None
      else let r = drop (length prefix) s;
               i = takeWhile (\<lambda>c. c \<noteq> CHR '']'') r;
               t = dropWhile (\<lambda>c. c \<noteq> CHR '']'') r in
        if t = [] \<or> \<not> is_identifier 63 i then None
        else if tl t = [] then Some (i, None)
        else (case find (\<lambda>f. tl t = CHR ''.'' # f) names of None \<Rightarrow> None | Some f \<Rightarrow> Some (i, Some f)))"

definition actor_path_match :: "string \<Rightarrow> (string \<times> string option) option" where
  "actor_path_match = match_path ''actors['' [''instruction'', ''task_view'', ''tool_ids'', ''budget_share_bps'']"

definition channel_path_match :: "string \<Rightarrow> (string \<times> string option) option" where
  "channel_path_match = match_path ''artifact_channels['' [''producer_actor_id'', ''consumer_actor_id'']"

definition actor_field :: "harness_actor \<Rightarrow> string option \<Rightarrow> pyval" where
  "actor_field a f = (case f of
       None \<Rightarrow> actor_payload a
     | Some n \<Rightarrow>
         if n = ''instruction'' then PStr (instruction a)
         else if n = ''task_view'' then PList (map (\<lambda>v. PStr (view_name v)) (task_view a))
         else if n = ''tool_ids'' then PList (map (\<lambda>t. PStr (tool_name t)) (tool_ids a))
         else PInt (budget_share_bps a))"

definition channel_field :: "channel \<Rightarrow> string option \<Rightarrow> pyval" where
  "channel_field c f = (case f of
       None \<Rightarrow> channel_payload c
     | Some n \<Rightarrow> PStr (if n = ''producer_actor_id'' then producer_actor_id c else consumer_actor_id c))"

abbreviation find_actor :: "harness_protocol \<Rightarrow> string \<Rightarrow> harness_actor option" where
  "find_actor p i \<equiv> find (\<lambda>a. act_id a = i) (actors p)"

definition source_path_value :: "harness_protocol \<Rightarrow> string \<Rightarrow> pyval res" where
  "source_path_value p path =
     (case actor_path_match path of
        Some (i, f) \<Rightarrow> (case find_actor p i of
            None \<Rightarrow> Inl (TransactionApplicabilityError ''source path references missing actor'')
          | Some a \<Rightarrow> Inr (actor_field a f))
      | None \<Rightarrow> (case channel_path_match path of
            Some (i, f) \<Rightarrow> (case find_channel i (artifact_channels p) of
                None \<Rightarrow> Inl (TransactionApplicabilityError ''source path references missing channel'')
              | Some c \<Rightarrow> Inr (channel_field c f))
          | None \<Rightarrow>
              if path = ''revision'' then (case revision p of
                  None \<Rightarrow> Inl (TransactionApplicabilityError ''source path requires a present revision'')
                | Some r \<Rightarrow> Inr (revision_payload r))
              else if path = ''termination.final_actor_id'' then Inr (PStr (final_actor p))
              else Inl (TransactionApplicabilityError ''unsupported source-path precondition'')))"

section \<open>Preconditions\<close>

definition validate_applicability :: "sha256 \<Rightarrow> harness_protocol \<Rightarrow> applicability \<Rightarrow> unit res" where
  "validate_applicability sha p a =
     thenE (raise_if (\<not> subset_list (required_actor_ids a) (actor_ids p))
       (TransactionApplicabilityError ''required actors are absent'')) (
     thenE (raise_if (\<not> disjoint_list (absent_actor_ids a) (actor_ids p))
       (TransactionApplicabilityError ''actors required to be absent are present'')) (
     thenE (raise_if (\<not> subset_list (required_channel_ids a) (channel_ids p))
       (TransactionApplicabilityError ''required channels are absent'')) (
     thenE (raise_if (\<not> disjoint_list (absent_channel_ids a) (channel_ids p))
       (TransactionApplicabilityError ''channels required to be absent are present'')) (
     thenE (raise_if (required_revision_state a = RevisionAbsent \<and> revision p \<noteq> None)
       (TransactionApplicabilityError ''transaction requires no active revision'')) (
     thenE (raise_if (required_revision_state a = RevisionPresent \<and> revision p = None)
       (TransactionApplicabilityError ''transaction requires an active revision''))
     (forE (\<lambda>c. bindE (source_path_value p (pre_source_path c)) (\<lambda>v.
         raise_if (source_field_digest sha v \<noteq> expected_value_digest c)
           (TransactionApplicabilityError ''source path digest changed'')))
       (path_preconditions a)))))))"

fun required_applicability ::
    "semantic_patch \<Rightarrow> string list \<times> string list \<times> string list \<times> string list \<times> revision_state" where
  "required_applicability (ActorSplit b a n c) = ([act_id b], [act_id n], [], [channel_id c], AnyRevision)"
| "required_applicability (ChannelAdd c) =
     ([producer_actor_id c, consumer_actor_id c], [], [], [channel_id c], AnyRevision)"
| "required_applicability (ChannelRewire b a) =
     ([producer_actor_id b, consumer_actor_id b, producer_actor_id a, consumer_actor_id a], [],
      [channel_id b], [], AnyRevision)"
| "required_applicability (RevisionInsert d f r) =
     ([rev_actor_id r, producer_actor_id f], [], [channel_id f], [channel_id d], RevisionAbsent)"
| "required_applicability (RevisionRemove d f r) =
     ([rev_actor_id r, producer_actor_id f], [], [channel_id d, channel_id f], [], RevisionPresent)"
| "required_applicability (InstructionRewrite i b a) = ([i], [], [], [], AnyRevision)"

definition validate_declared_applicability :: "proposal \<Rightarrow> unit res" where
  "validate_declared_applicability pr = (case required_applicability (normalized_patch pr) of
     (ra, aa, rc, ac, state) \<Rightarrow> let d = tx_applicability pr in
     thenE (raise_if (\<not> subset_list ra (required_actor_ids d))
       (TransactionApplicabilityError ''applicability omits operator-required actor references'')) (
     thenE (raise_if (\<not> subset_list aa (absent_actor_ids d))
       (TransactionApplicabilityError ''applicability omits operator-required absent actors'')) (
     thenE (raise_if (\<not> subset_list rc (required_channel_ids d))
       (TransactionApplicabilityError ''applicability omits operator-required channel references'')) (
     thenE (raise_if (\<not> subset_list ac (absent_channel_ids d))
       (TransactionApplicabilityError ''applicability omits operator-required absent channels''))
     (raise_if (state \<noteq> AnyRevision \<and> required_revision_state d \<noteq> state)
       (TransactionApplicabilityError ''operator requires applicability.revision_state''))))))"

definition actor_budget_path :: "string \<Rightarrow> string" where
  "actor_budget_path i = actor_prefix i @ ''.budget_share_bps''"

fun expected_touched_paths :: "semantic_patch \<Rightarrow> string list" where
  "expected_touched_paths (ActorSplit b a n c) =
     sort [actor_budget_path (act_id b), actor_prefix (act_id n), channel_prefix (channel_id c)]"
| "expected_touched_paths (ChannelAdd c) = [channel_prefix (channel_id c)]"
| "expected_touched_paths (ChannelRewire b a) = [channel_prefix (channel_id b)]"
| "expected_touched_paths (RevisionInsert d f r) =
     sort [''revision'', channel_prefix (channel_id d), channel_prefix (channel_id f)]"
| "expected_touched_paths (RevisionRemove d f r) =
     sort [''revision'', channel_prefix (channel_id d), channel_prefix (channel_id f)]"
| "expected_touched_paths (InstructionRewrite i b a) = [actor_prefix i @ ''.instruction'']"

fun allowed_owners :: "operator \<Rightarrow> runtime_owner list" where
  "allowed_owners ActorSplitOp = [Scheduler, ArtifactStore, BudgetLedger]"
| "allowed_owners ChannelAddOp = [Scheduler, ArtifactStore, ActorContext]"
| "allowed_owners ChannelRewireOp = [Scheduler, ArtifactStore, ActorContext]"
| "allowed_owners RevisionInsertOp = [RevisionController, Scheduler]"
| "allowed_owners RevisionRemoveOp = [RevisionController, Scheduler]"
| "allowed_owners InstructionRewriteOp = [ActorContext]"

definition validate_operator_metadata :: "proposal \<Rightarrow> unit res" where
  "validate_operator_metadata pr =
     thenE (raise_if (touched_source_paths pr \<noteq> expected_touched_paths (normalized_patch pr))
       (SemanticMutationError ''touched_source_paths do not equal the typed patch surface'')) (
     thenE (raise_if (effect_owner (predicted_trace_effect pr) \<notin> set (allowed_owners (tx_operator pr)))
       (SemanticMutationError ''runtime owner cannot consume the operator''))
     (raise_if (effect_mode (tx_budget_effect pr) \<noteq>
         (if tx_operator pr = ActorSplitOp then SharesRebalanced else BudgetUnchanged))
       (BudgetExpansionError ''operator requires another budget mode'')))"

definition paths_overlap :: "string \<Rightarrow> string \<Rightarrow> bool" where
  "paths_overlap l r \<longleftrightarrow> l = r \<or> starts_with l (r @ ''.'') \<or> starts_with r (l @ ''.'')"

definition any_overlap :: "string list \<Rightarrow> string list \<Rightarrow> bool" where
  "any_overlap ls rs = list_ex (\<lambda>l. list_ex (paths_overlap l) rs) ls"

abbreviation tx_id :: "semantic_transaction \<Rightarrow> string" where
  "tx_id t \<equiv> transaction_id (tx_proposal t)"

abbreviation tx_dependencies :: "semantic_transaction \<Rightarrow> string list" where
  "tx_dependencies t \<equiv> dependency_transaction_ids (tx_proposal t)"

definition validate_lineage_dependencies :: "proposal \<Rightarrow> semantic_transaction list \<Rightarrow> unit res" where
  "validate_lineage_dependencies pr retained =
     (let ids = map tx_id retained in
      thenE (raise_if (\<not> distinct ids)
        (DependencyInvalidTransactionError ''retained transaction lineage contains duplicate ids'')) (
      thenE (raise_if (transaction_id pr \<in> set ids)
        (DependencyInvalidTransactionError ''transaction_id already exists in retained lineage'')) (
      thenE (raise_if (\<not> subset_list (dependency_transaction_ids pr) ids)
        (DependencyInvalidTransactionError ''transaction dependencies are not retained''))
      (forE (\<lambda>t. raise_if
          (any_overlap (touched_source_paths (tx_proposal t)) (touched_source_paths pr) \<and>
           tx_id t \<notin> set (dependency_transaction_ids pr))
          (DependencyInvalidTransactionError
            ''transaction must depend on retained mutations whose source paths it overlaps''))
        retained))))"

section \<open>Applying a patch\<close>

fun replace_actor :: "harness_actor list \<Rightarrow> harness_actor \<Rightarrow> harness_actor list res" where
  "replace_actor [] a = Inl (TransactionApplicabilityError ''patch references missing actor'')"
| "replace_actor (x # xs) a =
     (if act_id x = act_id a then Inr (a # xs)
      else bindE (replace_actor xs a) (\<lambda>ys. Inr (x # ys)))"

text \<open>\<open>insert\<close> at the index of the first actor with the given id.\<close>

fun insert_before :: "string \<Rightarrow> harness_actor \<Rightarrow> harness_actor list \<Rightarrow> harness_actor list res" where
  "insert_before i n [] = Inl StopIteration"
| "insert_before i n (x # xs) =
     (if act_id x = i then Inr (n # x # xs)
      else bindE (insert_before i n xs) (\<lambda>ys. Inr (x # ys)))"

fun rewire_channel :: "channel \<Rightarrow> channel \<Rightarrow> channel list \<Rightarrow> channel list res" where
  "rewire_channel b a [] = Inl (TransactionApplicabilityError ''rewire channel is absent'')"
| "rewire_channel b a (x # xs) =
     (if channel_id x = channel_id b then
        if x \<noteq> b then Inl (TransactionApplicabilityError ''channel_before does not match the parent route'')
        else Inr (a # xs)
      else bindE (rewire_channel b a xs) (\<lambda>ys. Inr (x # ys)))"

definition rebuild_protocol ::
    "harness_protocol \<Rightarrow> harness_actor list \<Rightarrow> channel list \<Rightarrow> harness_revision option \<Rightarrow> harness_protocol res" where
  "rebuild_protocol parent as cs r = catchE is_validation_error
     (\<lambda>_. SemanticMutationError ''semantic transaction violates HarnessProtocol invariants'')
     (validate_harness_protocol (parent\<lparr>actors := as, artifact_channels := cs, revision := r\<rparr>))"

fun apply_patch :: "harness_protocol \<Rightarrow> semantic_patch \<Rightarrow> harness_protocol res" where
  "apply_patch parent (ActorSplit before after new ch) =
     thenE (raise_if (find_actor parent (act_id before) \<noteq> Some before)
       (TransactionApplicabilityError ''actor split source_actor_before does not match the parent'')) (
     bindE (replace_actor (actors parent) after) (\<lambda>replaced.
     bindE (insert_before (act_id after) new replaced) (\<lambda>as.
     rebuild_protocol parent as (artifact_channels parent @ [ch]) (revision parent))))"
| "apply_patch parent (ChannelAdd ch) =
     rebuild_protocol parent (actors parent) (artifact_channels parent @ [ch]) (revision parent)"
| "apply_patch parent (ChannelRewire before after) =
     thenE (raise_if (case revision parent of None \<Rightarrow> False | Some r \<Rightarrow> channel_id before = feedback_channel_id r)
       (TransactionApplicabilityError ''revision feedback channels require revision remove/insert operators'')) (
     bindE (rewire_channel before after (artifact_channels parent)) (\<lambda>cs.
     rebuild_protocol parent (actors parent) cs (revision parent)))"
| "apply_patch parent (RevisionInsert draft feedback r) =
     thenE (raise_if (revision parent \<noteq> None)
       (TransactionApplicabilityError ''protocol already has a revision'')) (
     thenE (raise_if (find_channel (channel_id feedback) (artifact_channels parent) \<noteq> Some feedback)
       (TransactionApplicabilityError ''feedback_channel_before does not match the parent'')) (
     thenE (raise_if (rev_actor_id r \<noteq> final_actor parent)
       (TransactionApplicabilityError ''revision insert may not change the final actor''))
     (rebuild_protocol parent (actors parent) (artifact_channels parent @ [draft]) (Some r))))"
| "apply_patch parent (RevisionRemove draft feedback r) =
     thenE (raise_if (revision parent \<noteq> Some r)
       (TransactionApplicabilityError ''revision removal does not match the active revision'')) (
     thenE (raise_if (find_channel (channel_id draft) (artifact_channels parent) \<noteq> Some draft)
       (TransactionApplicabilityError ''revision draft channel does not match the parent'')) (
     thenE (raise_if (find_channel (channel_id feedback) (artifact_channels parent) \<noteq> Some feedback)
       (TransactionApplicabilityError ''revision feedback channel does not match the parent''))
     (rebuild_protocol parent (actors parent)
       (filter (\<lambda>c. channel_id c \<noteq> channel_id draft) (artifact_channels parent)) None)))"
| "apply_patch parent (InstructionRewrite i before after) =
     (case find_actor parent i of
        None \<Rightarrow> Inl (TransactionApplicabilityError ''rewrite actor is absent'')
      | Some current \<Rightarrow>
          thenE (raise_if (instruction current \<noteq> before)
            (TransactionApplicabilityError ''before_instruction does not match the parent'')) (
          bindE (replace_actor (actors parent) (current\<lparr>instruction := after\<rparr>)) (\<lambda>as.
          rebuild_protocol parent as (artifact_channels parent) (revision parent))))"

section \<open>Budget effect\<close>

definition share_of :: "harness_protocol \<Rightarrow> string \<Rightarrow> int" where
  "share_of p i = (case find_actor p i of None \<Rightarrow> 0 | Some a \<Rightarrow> budget_share_bps a)"

definition actual_budget_changes :: "harness_protocol \<Rightarrow> harness_protocol \<Rightarrow> share_change list res" where
  "actual_budget_changes parent child =
     mapE (\<lambda>i. validate_share_change \<lparr>sc_actor_id = i, before_bps = share_of parent i, after_bps = share_of child i\<rparr>)
       (filter (\<lambda>i. share_of parent i \<noteq> share_of child i)
         (sort (remdups (actor_ids parent @ actor_ids child))))"

definition validate_budget_effect :: "harness_protocol \<Rightarrow> harness_protocol \<Rightarrow> proposal \<Rightarrow> unit res" where
  "validate_budget_effect parent child pr =
     thenE (raise_if (sum_list (map budget_share_bps (actors parent)) \<noteq> 10000)
       (BudgetExpansionError ''parent protocol budget is not aggregate-bound'')) (
     thenE (raise_if (sum_list (map budget_share_bps (actors child)) \<noteq> 10000)
       (BudgetExpansionError ''transaction expands or shrinks aggregate budget'')) (
     bindE (actual_budget_changes parent child) (\<lambda>actual.
     raise_if (actual \<noteq> sort_key sc_actor_id (share_changes (tx_budget_effect pr)))
       (BudgetExpansionError ''declared budget rebalance does not match the normalized protocol patch''))))"

section \<open>Applying a transaction\<close>

definition mutator_compile :: "sha256 \<Rightarrow> compiler_metadata \<Rightarrow> task_envelope \<Rightarrow> harness_protocol \<Rightarrow>
    dependency_manifest \<Rightarrow> string option \<Rightarrow> run_plan res" where
  "mutator_compile sha md t p m reject = catchE (\<lambda>e. is_compilation_error e \<and> \<not> is_inert_error e)
     (\<lambda>_. SemanticMutationError ''transaction child does not compile'')
     (compile_composite_run_plan sha md t p m reject)"

record applied_mutation =
  child_protocol :: harness_protocol
  child_plan :: run_plan
  applied_transaction :: semantic_transaction

definition check_proposal_binding :: "sha256 \<Rightarrow> harness_protocol \<Rightarrow> run_plan \<Rightarrow> run_plan \<Rightarrow> task_envelope \<Rightarrow>
    dependency_manifest \<Rightarrow> proposal \<Rightarrow> unit res" where
  "check_proposal_binding sha parent verified parent_plan t m pr =
     thenE (raise_if (compiled_semantic_dg verified \<noteq> compiled_semantic_dg parent_plan)
       (TransactionApplicabilityError ''provided parent plan is not the authoritative compilation of the parent'')) (
     thenE (raise_if (parent_source_digest pr \<noteq> source_digest sha parent)
       (TransactionApplicabilityError ''parent source protocol digest precondition does not match'')) (
     thenE (raise_if (parent_compiled_digest pr \<noteq> compiled_semantic_dg parent_plan)
       (TransactionApplicabilityError ''parent compiled semantic digest precondition does not match'')) (
     thenE (raise_if (tx_task_digest pr \<noteq> task_manifest_digest t)
       (TransactionApplicabilityError ''transaction is bound to another TaskEnvelope''))
     (raise_if (tx_manifest_digest pr \<noteq> manifest_digest sha m)
       (TransactionApplicabilityError ''transaction is bound to another runtime dependency manifest'')))))"

definition make_inverse :: "sha256 \<Rightarrow> harness_protocol \<Rightarrow> run_plan \<Rightarrow> harness_protocol \<Rightarrow> run_plan \<Rightarrow>
    task_envelope \<Rightarrow> dependency_manifest \<Rightarrow> proposal \<Rightarrow> reversion" where
  "make_inverse sha parent parent_plan child plan t m pr =
     \<lparr>inv_child_source = source_digest sha child, inv_child_compiled = compiled_semantic_dg plan,
      inv_task_digest = task_manifest_digest t, inv_manifest_digest = manifest_digest sha m,
      restored_protocol = parent, restored_source = source_digest sha parent,
      restored_compiled = compiled_semantic_dg parent_plan,
      protected_source_paths = touched_source_paths pr\<rparr>"

definition apply_semantic_transaction :: "sha256 \<Rightarrow> compiler_metadata \<Rightarrow> harness_protocol \<Rightarrow> run_plan \<Rightarrow>
    task_envelope \<Rightarrow> dependency_manifest \<Rightarrow> proposal \<Rightarrow> semantic_transaction list \<Rightarrow> applied_mutation res" where
  "apply_semantic_transaction sha md raw_parent parent_plan raw_task raw_manifest raw_proposal retained =
     bindE (mutator_protocol raw_parent) (\<lambda>parent.
     bindE (mutator_task sha raw_task) (\<lambda>t.
     bindE (mutator_dependencies raw_manifest) (\<lambda>m.
     bindE (mutator_proposal raw_proposal) (\<lambda>pr.
     bindE (mutator_compile sha md t parent m None) (\<lambda>verified.
     thenE (check_proposal_binding sha parent verified parent_plan t m pr) (
     thenE (validate_operator_metadata pr) (
     thenE (validate_declared_applicability pr) (
     thenE (validate_applicability sha parent (tx_applicability pr)) (
     thenE (validate_lineage_dependencies pr retained) (
     bindE (apply_patch parent (normalized_patch pr)) (\<lambda>child.
     thenE (validate_budget_effect parent child pr) (
     bindE (catchE is_inert_error (\<lambda>_. SemanticMutationError ''semantic transaction compiles to an exact no-op'')
       (mutator_compile sha md t child m (Some (compiled_semantic_dg parent_plan)))) (\<lambda>plan.
     bindE (mutator_compile sha md t parent m None) (\<lambda>restored.
     thenE (raise_if (compiled_semantic_dg restored \<noteq> compiled_semantic_dg parent_plan)
       (TransactionReversionError ''parent cannot be mechanically recompiled for inverse validation'')) (
     bindE (validate_reversion (make_inverse sha parent parent_plan child plan t m pr)) (\<lambda>inverse.
     bindE (validate_transaction sha \<lparr>tx_proposal = pr, child_source_digest = source_digest sha child,
       child_compiled_digest = compiled_semantic_dg plan, tx_inverse = inverse, tx_record_digest = []\<rparr>) (\<lambda>tx.
     Inr \<lparr>child_protocol = child, child_plan = plan, applied_transaction = tx\<rparr>)))))))))))))))))"

section \<open>Reverting a transaction\<close>

definition unvisited :: "semantic_transaction list \<Rightarrow> string list \<Rightarrow> string set" where
  "unvisited by_id visiting = tx_id ` set by_id - set visiting"

lemma unvisited_step:
  "i \<notin> set visiting \<Longrightarrow> card (unvisited by_id (i # visiting)) < card (insert i (tx_id ` set by_id) - set visiting)"
  by (rule psubset_card_mono) (auto simp: unvisited_def)

text \<open>\<open>visiting\<close> is the code's \<open>active\<close> set; the loop over the dependencies stops at the first that
  reaches the target.\<close>

function depends_transitively :: "string \<Rightarrow> semantic_transaction list \<Rightarrow> string list \<Rightarrow> semantic_transaction \<Rightarrow> bool res"
  and any_depends :: "string \<Rightarrow> semantic_transaction list \<Rightarrow> string list \<Rightarrow> string list \<Rightarrow> bool res" where
  "depends_transitively target by_id visiting t =
     (if target \<in> set (tx_dependencies t) then Inr True
      else if tx_id t \<in> set visiting then Inl (DependencyInvalidTransactionError
        ''retained transaction dependency graph contains a cycle'')
      else any_depends target by_id (tx_id t # visiting) (tx_dependencies t))"
| "any_depends target by_id visiting [] = Inr False"
| "any_depends target by_id visiting (d # ds) =
     (case find (\<lambda>t. tx_id t = d) by_id of
        None \<Rightarrow> any_depends target by_id visiting ds
      | Some t \<Rightarrow> bindE (depends_transitively target by_id visiting t) (\<lambda>found.
          if found then Inr True else any_depends target by_id visiting ds))"
  by pat_completeness auto

termination
proof (relation "measures [case_sum (\<lambda>(_, by_id, visiting, t). card (insert (tx_id t) (tx_id ` set by_id) - set visiting))
      (\<lambda>(_, by_id, visiting, ds). card (unvisited by_id visiting)),
    case_sum (\<lambda>_. 0) (\<lambda>(_, _, _, ds). length ds)]", goal_cases)
  case (2 target by_id visiting t)
  then show ?case using unvisited_step [of "tx_id t" visiting by_id] by simp
next
  case (4 target by_id visiting d ds t)
  then have "t \<in> set by_id" by (auto dest: find_key_Some)
  then have "insert (tx_id t) (tx_id ` set by_id) = tx_id ` set by_id" by auto
  then show ?case by (simp add: unvisited_def)
qed simp_all

declare depends_transitively.simps [simp del]

definition later_than :: "string \<Rightarrow> semantic_transaction list \<Rightarrow> semantic_transaction list" where
  "later_than i active = tl (dropWhile (\<lambda>t. tx_id t \<noteq> i) active)"

definition validate_reversion_order :: "semantic_transaction \<Rightarrow> semantic_transaction list \<Rightarrow> unit res" where
  "validate_reversion_order t active =
     (let ids = map tx_id active in
      thenE (raise_if (\<not> distinct ids)
        (DependencyInvalidTransactionError ''active transaction lineage contains duplicate ids'')) (
      thenE (raise_if (tx_id t \<notin> set ids)
        (DependencyInvalidTransactionError ''transaction to revert is not active''))
      (forE (\<lambda>d. bindE (depends_transitively (tx_id t) active [] d) (\<lambda>dependent.
          raise_if (dependent \<or> any_overlap (protected_source_paths (tx_inverse t)) (touched_source_paths (tx_proposal d)))
            (DependencyInvalidTransactionError ''dependent or overlapping descendants must be reverted first'')))
        (later_than (tx_id t) active))))"

record reverted_mutation =
  reverted_protocol :: harness_protocol
  reverted_plan :: run_plan
  reverted_transaction_id :: string

definition revert_semantic_transaction :: "sha256 \<Rightarrow> compiler_metadata \<Rightarrow> harness_protocol \<Rightarrow> run_plan \<Rightarrow>
    task_envelope \<Rightarrow> dependency_manifest \<Rightarrow> semantic_transaction \<Rightarrow> semantic_transaction list \<Rightarrow> reverted_mutation res" where
  "revert_semantic_transaction sha md raw_current current_plan raw_task raw_manifest tx active =
     bindE (mutator_protocol raw_current) (\<lambda>current.
     bindE (mutator_task sha raw_task) (\<lambda>t.
     bindE (mutator_dependencies raw_manifest) (\<lambda>m.
     thenE (validate_reversion_order tx active) (
     bindE (mutator_compile sha md t current m None) (\<lambda>authoritative.
     let inverse = tx_inverse tx in
     thenE (raise_if (compiled_semantic_dg authoritative \<noteq> compiled_semantic_dg current_plan)
       (TransactionReversionError ''provided current plan is not authoritative for the current protocol'')) (
     thenE (raise_if (task_manifest_digest t \<noteq> inv_task_digest inverse)
       (TransactionReversionError ''inverse is bound to another task'')) (
     thenE (raise_if (manifest_digest sha m \<noteq> inv_manifest_digest inverse)
       (TransactionReversionError ''inverse is bound to another runtime dependency manifest'')) (
     thenE (raise_if (source_digest sha current \<noteq> inv_child_source inverse)
       (TransactionReversionError ''inverse requires the exact recorded child source protocol'')) (
     thenE (raise_if (compiled_semantic_dg current_plan \<noteq> inv_child_compiled inverse)
       (TransactionReversionError ''inverse requires the exact recorded child compiled semantics'')) (
     bindE (mutator_protocol (restored_protocol inverse)) (\<lambda>restored.
     bindE (mutator_compile sha md t restored m None) (\<lambda>plan.
     thenE (raise_if (source_digest sha restored \<noteq> restored_source inverse)
       (TransactionReversionError ''stored inverse does not restore its recorded source digest'')) (
     thenE (raise_if (compiled_semantic_dg plan \<noteq> restored_compiled inverse)
       (TransactionReversionError ''stored inverse does not restore its recorded compiled semantics''))
     (Inr \<lparr>reverted_protocol = restored, reverted_plan = plan,
        reverted_transaction_id = tx_id tx\<rparr>))))))))))))))"


section \<open>Children are well-formed\<close>

lemma rebuild_protocol_ok:
  assumes "rebuild_protocol parent as cs r = Inr q" and "protocol_ok parent"
    and "list_all actor_ok as" and "list_all channel_ok cs" and "pred_option revision_ok r"
  shows "q = parent\<lparr>actors := as, artifact_channels := cs, revision := r\<rparr>" and "protocol_ok q"
proof -
  let ?x = "parent\<lparr>actors := as, artifact_channels := cs, revision := r\<rparr>"
  have v: "validate_harness_protocol ?x = Inr q" using assms(1) by (simp add: rebuild_protocol_def catchE_Inr)
  then show "protocol_ok q" by (rule protocol_validator.sound)
  have "validate_termination (protocol_termination parent) = Inr (protocol_termination parent)"
    using assms(2) by (cases "protocol_termination parent")
      (auto simp: validate_termination_def res_simps protocol_ok_def identifier_stable)
  moreover have "mapE validate_harness_actor as = Inr as" "mapE validate_channel cs = Inr cs"
    "optE validate_revision r = Inr r"
    using assms(3-5) by (simp_all add: actor_validator.list_stable channel_validator.list_stable
        revision_validator.option_stable)
  ultimately show "q = ?x"
    using v unfolding validate_harness_protocol_def Let_def
    by (auto simp: bindE_Inr thenE_Inr validated_Inr)
qed

lemma protocol_ok_lists:
  assumes "protocol_ok p"
  shows "list_all actor_ok (actors p)" and "list_all channel_ok (artifact_channels p)"
    and "pred_option revision_ok (revision p)"
  using assms by (auto simp: protocol_ok_def list_all_iff pred_option_def)

text \<open>What the three list edits do to lookups.\<close>

lemma replace_actor_find:
  "replace_actor xs a = Inr ys \<Longrightarrow>
     find (\<lambda>x. act_id x = i) ys = (if i = act_id a then Some a else find (\<lambda>x. act_id x = i) xs)"
  by (induction xs arbitrary: ys) (auto simp: bindE_Inr split: if_splits)

lemma replace_actor_set: "replace_actor xs a = Inr ys \<Longrightarrow> set ys \<subseteq> insert a (set xs)"
  by (induction xs arbitrary: ys) (auto simp: bindE_Inr split: if_splits)

lemma replace_actor_ids: "replace_actor xs a = Inr ys \<Longrightarrow> map act_id ys = map act_id xs"
  by (induction xs arbitrary: ys) (auto simp: bindE_Inr split: if_splits)

lemma insert_before_find:
  "insert_before k n xs = Inr ys \<Longrightarrow> act_id n \<notin> act_id ` set xs \<Longrightarrow>
     find (\<lambda>x. act_id x = i) ys = (if i = act_id n then Some n else find (\<lambda>x. act_id x = i) xs)"
  by (induction xs arbitrary: ys) (auto simp: bindE_Inr split: if_splits)

lemma insert_before_set: "insert_before k n xs = Inr ys \<Longrightarrow> set ys = insert n (set xs)"
  by (induction xs arbitrary: ys) (auto simp: bindE_Inr split: if_splits)

lemma insert_before_mset: "insert_before k n xs = Inr ys \<Longrightarrow> mset ys = add_mset n (mset xs)"
  by (induction xs arbitrary: ys) (auto simp: bindE_Inr split: if_splits)

lemma rewire_channel_find:
  "rewire_channel b a xs = Inr ys \<Longrightarrow> channel_id a = channel_id b \<Longrightarrow>
     find_channel i ys = (if i = channel_id b then Some a else find_channel i xs)"
  by (induction xs arbitrary: ys) (auto simp: bindE_Inr find_channel_def split: if_splits)

lemma rewire_channel_set: "rewire_channel b a xs = Inr ys \<Longrightarrow> set ys \<subseteq> insert a (set xs)"
  by (induction xs arbitrary: ys) (auto simp: bindE_Inr split: if_splits)

lemma find_channel_append_Some: "find_channel i xs = Some c \<Longrightarrow> find_channel i (xs @ ys) = Some c"
  by (induction xs) (auto simp: find_channel_def)

lemma find_channel_remove:
  "i \<noteq> d \<Longrightarrow> find_channel i (filter (\<lambda>c. channel_id c \<noteq> d) xs) = find_channel i xs"
  by (induction xs) (auto simp: find_channel_def)

text \<open>The child of each patch, field by field.\<close>

definition patch_child :: "harness_protocol \<Rightarrow> semantic_patch \<Rightarrow> harness_protocol \<Rightarrow> bool" where
  "patch_child p patch q \<longleftrightarrow> (case patch of
       ActorSplit b a n c \<Rightarrow> \<exists>as. replace_actor (actors p) a = Inr as \<and> find_actor p (act_id b) = Some b \<and>
         insert_before (act_id a) n as = Inr (actors q) \<and>
         artifact_channels q = artifact_channels p @ [c] \<and> revision q = revision p
     | ChannelAdd c \<Rightarrow> actors q = actors p \<and> artifact_channels q = artifact_channels p @ [c] \<and> revision q = revision p
     | ChannelRewire b a \<Rightarrow> actors q = actors p \<and> rewire_channel b a (artifact_channels p) = Inr (artifact_channels q) \<and>
         revision q = revision p
     | RevisionInsert d f r \<Rightarrow> actors q = actors p \<and> artifact_channels q = artifact_channels p @ [d] \<and>
         revision p = None \<and> revision q = Some r
     | RevisionRemove d f r \<Rightarrow> actors q = actors p \<and>
         artifact_channels q = filter (\<lambda>c. channel_id c \<noteq> channel_id d) (artifact_channels p) \<and>
         revision p = Some r \<and> revision q = None
     | InstructionRewrite i b a \<Rightarrow> \<exists>current. find_actor p i = Some current \<and> instruction current = b \<and>
         replace_actor (actors p) (current\<lparr>instruction := a\<rparr>) = Inr (actors q) \<and>
         artifact_channels q = artifact_channels p \<and> revision q = revision p)"

lemma apply_patch_child:
  assumes "apply_patch p patch = Inr q" and ok: "protocol_ok p" and "patch_ok patch"
  shows "patch_child p patch q \<and> protocol_ok q \<and> protocol_termination q = protocol_termination p"
proof -
  note lists = protocol_ok_lists [OF ok]
  have rb: "q = p\<lparr>actors := as, artifact_channels := cs, revision := r\<rparr> \<and> protocol_ok q"
    if "rebuild_protocol p as cs r = Inr q" "list_all actor_ok as" "list_all channel_ok cs" "pred_option revision_ok r"
    for as cs r
    using rebuild_protocol_ok [OF that(1) ok that(2-4)] by blast
  show ?thesis
  proof (cases patch)
    case (ActorSplit b a n c)
    then obtain as bs where as: "replace_actor (actors p) a = Inr as" "insert_before (act_id a) n as = Inr bs"
      and f: "find_actor p (act_id b) = Some b"
      and r: "rebuild_protocol p bs (artifact_channels p @ [c]) (revision p) = Inr q"
      using assms(1) by (auto simp: bindE_Inr thenE_Inr raise_if_Inr)
    have "list_all actor_ok bs"
      using replace_actor_set [OF as(1)] insert_before_set [OF as(2)] lists(1) assms(3) ActorSplit
      by (auto simp: list_all_iff)
    then show ?thesis using rb [OF r] lists assms(3) ActorSplit as f by (auto simp: patch_child_def)
  next
    case (ChannelAdd c)
    then have r: "rebuild_protocol p (actors p) (artifact_channels p @ [c]) (revision p) = Inr q"
      using assms(1) by simp
    show ?thesis using rb [OF r] assms(3) lists ChannelAdd by (auto simp: patch_child_def)
  next
    case (ChannelRewire b a)
    then obtain cs where cs: "rewire_channel b a (artifact_channels p) = Inr cs"
      and r: "rebuild_protocol p (actors p) cs (revision p) = Inr q"
      using assms(1) by (auto simp: bindE_Inr thenE_Inr)
    have "list_all channel_ok cs"
      using rewire_channel_set [OF cs] lists(2) assms(3) ChannelRewire by (auto simp: list_all_iff)
    then show ?thesis using rb [OF r] lists ChannelRewire cs by (auto simp: patch_child_def)
  next
    case (RevisionInsert d f r)
    then have n: "revision p = None"
      and b: "rebuild_protocol p (actors p) (artifact_channels p @ [d]) (Some r) = Inr q"
      using assms(1) by (auto simp: thenE_Inr raise_if_Inr)
    show ?thesis using rb [OF b] n assms(3) lists RevisionInsert by (auto simp: patch_child_def)
  next
    case (RevisionRemove d f r)
    have "list_all channel_ok (filter (\<lambda>c. channel_id c \<noteq> channel_id d) (artifact_channels p))"
      using lists(2) by (auto simp: list_all_iff)
    moreover from RevisionRemove have n: "revision p = Some r"
      and b: "rebuild_protocol p (actors p) (filter (\<lambda>c. channel_id c \<noteq> channel_id d) (artifact_channels p)) None = Inr q"
      using assms(1) by (auto simp: thenE_Inr raise_if_Inr)
    ultimately show ?thesis using rb [OF b] n lists RevisionRemove by (auto simp: patch_child_def)
  next
    case (InstructionRewrite i b a)
    then obtain x as where x: "find_actor p i = Some x" "instruction x = b"
      and as: "replace_actor (actors p) (x\<lparr>instruction := a\<rparr>) = Inr as"
      and r: "rebuild_protocol p as (artifact_channels p) (revision p) = Inr q"
      using assms(1) by (auto simp: bindE_Inr thenE_Inr raise_if_Inr split: option.splits)
    have "actor_ok x" using find_key_Some [OF x(1)] lists(1) by (simp add: list_all_iff)
    then have "actor_ok (x\<lparr>instruction := a\<rparr>)" using assms(3) InstructionRewrite by (simp add: actor_ok_def)
    then have "list_all actor_ok as" using replace_actor_set [OF as] lists(1) by (auto simp: list_all_iff)
    then show ?thesis using rb [OF r] lists InstructionRewrite x as by (auto simp: patch_child_def)
  qed
qed


section \<open>A patch stays on its touched paths\<close>

definition path_suffix :: "string option \<Rightarrow> string" where
  "path_suffix f = (case f of None \<Rightarrow> [] | Some n \<Rightarrow> CHR ''.'' # n)"

lemma match_path_Some:
  assumes "match_path prefix names s = Some (i, f)"
  shows "s = prefix @ i @ '']'' @ path_suffix f" and "f = None \<or> the f \<in> set names"
proof -
  let ?r = "drop (length prefix) s"
  let ?t = "dropWhile (\<lambda>c. c \<noteq> CHR '']'') ?r"
  have pre: "s = prefix @ ?r" using assms
    by (auto simp: match_path_def starts_with_def split: if_splits) (metis append_take_drop_id)
  have i: "i = takeWhile (\<lambda>c. c \<noteq> CHR '']'') ?r" and t: "?t \<noteq> []"
    and tl: "tl ?t = path_suffix f" and names: "f = None \<or> the f \<in> set names"
    using assms by (auto simp: match_path_def Let_def path_suffix_def find_Some_iff split: if_splits option.splits)
  have "hd ?t = CHR '']''" using t hd_dropWhile [of "\<lambda>c. c \<noteq> CHR '']''" ?r] by simp
  then have "?t = '']'' @ path_suffix f" using t tl by (metis append_Cons append_Nil list.collapse)
  then have "?r = i @ '']'' @ path_suffix f" using i by (metis takeWhile_dropWhile_id)
  then show "s = prefix @ i @ '']'' @ path_suffix f" using pre by simp
  show "f = None \<or> the f \<in> set names" by (fact names)
qed

lemma actor_path_Some:
  assumes "actor_path_match s = Some (i, f)"
  shows "s = actor_prefix i @ path_suffix f"
    and "f = None \<or> the f \<in> {''instruction'', ''task_view'', ''tool_ids'', ''budget_share_bps''}"
  using match_path_Some [OF assms [unfolded actor_path_match_def]] by (simp_all add: actor_prefix_def)

lemma channel_path_Some:
  assumes "channel_path_match s = Some (i, f)"
  shows "s = channel_prefix i @ path_suffix f"
  using match_path_Some [OF assms [unfolded channel_path_match_def]] by (simp add: channel_prefix_def)

lemma overlap_whole: "paths_overlap x (x @ path_suffix f)"
  by (cases f) (simp_all add: paths_overlap_def path_suffix_def starts_with_def)

lemma overlap_field:
  "\<not> paths_overlap (x @ CHR ''.'' # n) (x @ path_suffix f) \<Longrightarrow> f \<noteq> None \<and> f \<noteq> Some n"
  by (cases f) (auto simp: paths_overlap_def path_suffix_def starts_with_def)

lemma paths_overlap_refl [simp]: "paths_overlap x x"
  by (simp add: paths_overlap_def)

lemma untouched_iff: "\<not> any_overlap ls [x] \<longleftrightarrow> (\<forall>l\<in>set ls. \<not> paths_overlap l x)"
  by (auto simp: any_overlap_def list_ex_iff)

lemma touches_revision:
  "''revision'' \<in> set (expected_touched_paths (RevisionInsert d f r))"
  "''revision'' \<in> set (expected_touched_paths (RevisionRemove d f r))"
  by (simp_all only: expected_touched_paths.simps set_sort list.set(2) insertI1)

text \<open>The value at an untouched actor path: the same actor, or one that differs in another field.\<close>

lemma actor_frame:
  assumes child: "patch_child p patch q" and ok: "protocol_ok p" "protocol_ok q"
    and shape: "patch_ok patch" and out: "\<forall>l\<in>set (expected_touched_paths patch). \<not> paths_overlap l (actor_prefix i @ path_suffix f)"
    and a: "find_actor p i = Some x"
    and f: "f = None \<or> the f \<in> {''instruction'', ''task_view'', ''tool_ids'', ''budget_share_bps''}"
  shows "\<exists>y. find_actor q i = Some y \<and> actor_field y f = actor_field x f"
proof (cases patch)
  case (ActorSplit b a n c)
  then obtain as where as: "replace_actor (actors p) a = Inr as" "insert_before (act_id a) n as = Inr (actors q)"
    and src: "find_actor p (act_id b) = Some b"
    using child by (auto simp: patch_child_def)
  have shp: "act_id b = act_id a" "b\<lparr>budget_share_bps := 0\<rparr> = a\<lparr>budget_share_bps := 0\<rparr>"
    using shape ActorSplit by (auto simp: validate_split_shape_def thenE_Inr raise_if_Inr)
  have "distinct (actor_ids q)" using ok(2) by (simp add: protocol_ok_def refs_ok_def)
  moreover have "mset (actor_ids q) = add_mset (act_id n) (mset (map act_id as))"
    using insert_before_mset [OF as(2)] by simp
  ultimately have "act_id n \<notin> act_id ` set as"
    by (metis distinct.simps(2) image_set mset.simps(2) mset_eq_imp_distinct_iff)
  note fnd = insert_before_find [OF as(2) this, of i] replace_actor_find [OF as(1), of i]
  have "i \<noteq> act_id n"
    using out ActorSplit overlap_whole [of "actor_prefix i" f] by auto
  then have find_q: "find_actor q i = (if i = act_id a then Some a else find_actor p i)"
    using fnd by simp
  show ?thesis
  proof (cases "i = act_id a")
    case False
    with find_q a show ?thesis by simp
  next
    case True
    then have x: "x = b" using a src shp(1) by simp
    have "\<not> paths_overlap (actor_budget_path i) (actor_prefix i @ path_suffix f)"
      using out ActorSplit True shp(1) by simp
    then have "f \<noteq> None \<and> f \<noteq> Some ''budget_share_bps''"
      unfolding actor_budget_path_def by (rule overlap_field)
    then have "f = Some ''instruction'' \<or> f = Some ''task_view'' \<or> f = Some ''tool_ids''" using f by auto
    moreover have "instruction b = instruction a" "task_view b = task_view a" "tool_ids b = tool_ids a"
      using shp(2) by (cases b; cases a; simp)+
    ultimately have "actor_field a f = actor_field b f" by (auto simp: actor_field_def)
    then show ?thesis using find_q True x by simp
  qed
next
  case (InstructionRewrite j b a)
  then obtain z where z: "find_actor p j = Some z"
    and rep: "replace_actor (actors p) (z\<lparr>instruction := a\<rparr>) = Inr (actors q)"
    using child by (auto simp: patch_child_def)
  have zj: "act_id z = j" using find_key_Some [OF z] by simp
  have find_q: "find_actor q i = (if i = j then Some (z\<lparr>instruction := a\<rparr>) else find_actor p i)"
    using replace_actor_find [OF rep, of i] zj by simp
  show ?thesis
  proof (cases "i = j")
    case False
    with find_q show ?thesis using assms(6) by simp
  next
    case True
    have "\<not> paths_overlap (actor_prefix i @ ''.instruction'') (actor_prefix i @ path_suffix f)"
      using out InstructionRewrite True by simp
    then have "f \<noteq> None \<and> f \<noteq> Some ''instruction''" by (rule overlap_field)
    then have "actor_field (z\<lparr>instruction := a\<rparr>) f = actor_field z f"
      by (auto simp: actor_field_def split: if_splits)
    then show ?thesis using find_q True z assms(6) by simp
  qed
qed (use child a in \<open>simp_all add: patch_child_def\<close>)

lemma channel_frame:
  assumes child: "patch_child p patch q" and shape: "patch_ok patch"
    and out: "\<forall>l\<in>set (expected_touched_paths patch). \<not> paths_overlap l (channel_prefix i @ path_suffix f)"
    and c: "find_channel i (artifact_channels p) = Some x"
  shows "find_channel i (artifact_channels q) = Some x"
proof (cases patch)
  case (ChannelRewire b a)
  have "i \<noteq> channel_id b" using out ChannelRewire overlap_whole [of "channel_prefix i" f] by auto
  moreover have "channel_id a = channel_id b"
    using shape ChannelRewire by (auto simp: validate_rewire_shape_def thenE_Inr raise_if_Inr)
  moreover have "rewire_channel b a (artifact_channels p) = Inr (artifact_channels q)"
    using child ChannelRewire by (simp add: patch_child_def)
  ultimately show ?thesis using rewire_channel_find c by metis
next
  case (RevisionRemove d f' r)
  have "i \<noteq> channel_id d" using out RevisionRemove overlap_whole [of "channel_prefix i" f] by auto
  with RevisionRemove child c show ?thesis by (simp add: patch_child_def find_channel_remove)
qed (use child c in \<open>auto simp: patch_child_def find_channel_append_Some\<close>)

lemma source_path_frame:
  assumes child: "patch_child p patch q" "protocol_termination q = protocol_termination p"
    and ok: "protocol_ok p" "protocol_ok q" and shape: "patch_ok patch"
    and out: "\<not> any_overlap (expected_touched_paths patch) [path]"
    and v: "source_path_value p path = Inr v"
  shows "source_path_value q path = Inr v"
proof -
  note out' = out [unfolded untouched_iff]
  show ?thesis
  proof (cases "actor_path_match path")
    case (Some m)
    obtain i f where af: "actor_path_match path = Some (i, f)" using Some by (cases m) auto
    note mp = actor_path_Some [OF af]
    obtain x where x: "find_actor p i = Some x" "v = actor_field x f"
      using v af by (auto simp: source_path_value_def split: option.splits)
    have "\<exists>y. find_actor q i = Some y \<and> actor_field y f = actor_field x f"
      by (rule actor_frame [OF child(1) ok shape _ x(1) mp(2)]) (use out' mp(1) in simp)
    then show ?thesis using af x by (auto simp: source_path_value_def)
  next
    case na: None
    show ?thesis
    proof (cases "channel_path_match path")
      case (Some m)
      obtain i f where cf: "channel_path_match path = Some (i, f)" using Some by (cases m) auto
      note mp = channel_path_Some [OF cf]
      obtain x where x: "find_channel i (artifact_channels p) = Some x" "v = channel_field x f"
        using v na cf by (auto simp: source_path_value_def split: option.splits)
      have "find_channel i (artifact_channels q) = Some x"
        by (rule channel_frame [OF child(1) shape _ x(1), of f]) (use out' mp in simp)
      then show ?thesis using na cf x by (simp add: source_path_value_def)
    next
      case None
      show ?thesis
      proof (cases "path = ''revision''")
        case True
        then have "\<not> (\<exists>d f r. patch = RevisionInsert d f r \<or> patch = RevisionRemove d f r)"
          using out' touches_revision paths_overlap_refl by metis
        then have "revision q = revision p"
          using child(1) by (cases patch) (auto simp: patch_child_def)
        then show ?thesis using v na None True by (simp add: source_path_value_def)
      next
        case False
        then show ?thesis using v na None child(2) by (simp add: source_path_value_def split: if_splits)
      qed
    qed
  qed
qed



section \<open>Applied transactions\<close>

lemma mutator_inputs_Inr [res_simps]:
  "mutator_protocol p = Inr q \<longleftrightarrow> validate_harness_protocol p = Inr q"
  "mutator_task sha t = Inr u \<longleftrightarrow> validate_task_envelope sha t = Inr u"
  "mutator_dependencies m = Inr n \<longleftrightarrow> validate_dependency_manifest m = Inr n"
  "mutator_proposal a = Inr b \<longleftrightarrow> validate_proposal a = Inr b"
  "mutator_compile sha md t p m r = Inr plan \<longleftrightarrow> compile_composite_run_plan sha md t p m r = Inr plan"
  by (simp_all add: mutator_protocol_def mutator_task_def mutator_dependencies_def mutator_proposal_def
      mutator_compile_def catchE_Inr)

lemma compile_accept:
  assumes "compile_composite_run_plan sha md task p m (Some d) = Inr plan"
  shows "compile_composite_run_plan sha md task p m None = Inr plan" and "compiled_semantic_dg plan \<noteq> d"
proof -
  obtain t q n where v: "validate_task_envelope sha task = Inr t" "validate_harness_protocol p = Inr q"
    "validate_dependency_manifest m = Inr n" "validate_dependency_contract t q n md = Inr ()"
    and ok: "task_ok t" "protocol_ok q" and plan: "plan = plan_of sha t q n"
    and conds: "topology_ok q" "differentiated t q" "int (scheduled_calls q) \<le> max_model_calls (ceilings t)"
    and ne: "Some d \<noteq> Some (compiled_semantic_dg plan)"
    by (rule compile_Inr [OF assms])
  have "compile_normalized sha t q n None = Inr plan"
    using compile_decision [OF ok(2,1), where sha = sha and m = n and reject = None] conds plan
    by (cases "compile_normalized sha t q n None") (auto split: exn.splits)
  then show "compile_composite_run_plan sha md task p m None = Inr plan"
    using v by (simp add: compile_composite_run_plan_def normalize_task_def normalize_protocol_def
        normalize_dependencies_def)
  show "compiled_semantic_dg plan \<noteq> d" using ne by simp
qed

lemma compiled_digest_is_digest:
  assumes "compile_composite_run_plan sha md task p m r = Inr plan"
  shows "is_digest (compiled_semantic_dg plan)"
  by (rule compile_Inr [OF assms]) (simp add: plan_of_semantic_digest composite_plan_digest_def)

lemma apply_Inr:
  assumes "apply_semantic_transaction sha md raw_parent parent_plan raw_task raw_manifest raw_proposal retained = Inr r"
  obtains parent t m pr verified where "validate_harness_protocol raw_parent = Inr parent"
    and "validate_task_envelope sha raw_task = Inr t" and "validate_dependency_manifest raw_manifest = Inr m"
    and "validate_proposal raw_proposal = Inr pr"
    and "compile_composite_run_plan sha md t parent m None = Inr verified"
    and "check_proposal_binding sha parent verified parent_plan t m pr = Inr ()"
    and "validate_operator_metadata pr = Inr ()"
    and "validate_applicability sha parent (tx_applicability pr) = Inr ()"
    and "validate_lineage_dependencies pr retained = Inr ()"
    and "apply_patch parent (normalized_patch pr) = Inr (child_protocol r)"
    and "validate_budget_effect parent (child_protocol r) pr = Inr ()"
    and "compile_composite_run_plan sha md t (child_protocol r) m (Some (compiled_semantic_dg parent_plan)) = Inr (child_plan r)"
    and "validate_transaction sha \<lparr>tx_proposal = pr, child_source_digest = source_digest sha (child_protocol r),
       child_compiled_digest = compiled_semantic_dg (child_plan r),
       tx_inverse = make_inverse sha parent parent_plan (child_protocol r) (child_plan r) t m pr,
       tx_record_digest = []\<rparr> = Inr (applied_transaction r)"
proof -
  obtain parent t m pr verified child plan restored inverse tx where
    a: "validate_harness_protocol raw_parent = Inr parent"
    "validate_task_envelope sha raw_task = Inr t" "validate_dependency_manifest raw_manifest = Inr m"
    "validate_proposal raw_proposal = Inr pr" "compile_composite_run_plan sha md t parent m None = Inr verified"
    "check_proposal_binding sha parent verified parent_plan t m pr = Inr ()"
    "validate_operator_metadata pr = Inr ()" "validate_applicability sha parent (tx_applicability pr) = Inr ()"
    "validate_lineage_dependencies pr retained = Inr ()"
    "apply_patch parent (normalized_patch pr) = Inr child" "validate_budget_effect parent child pr = Inr ()"
    "compile_composite_run_plan sha md t child m (Some (compiled_semantic_dg parent_plan)) = Inr plan"
    and inv: "validate_reversion (make_inverse sha parent parent_plan child plan t m pr) = Inr inverse"
    and tx: "validate_transaction sha \<lparr>tx_proposal = pr, child_source_digest = source_digest sha child,
       child_compiled_digest = compiled_semantic_dg plan, tx_inverse = inverse, tx_record_digest = []\<rparr> = Inr tx"
    and r: "r = \<lparr>child_protocol = child, child_plan = plan, applied_transaction = tx\<rparr>"
    using assms unfolding apply_semantic_transaction_def
    by (auto simp only: bindE_Inr thenE_Inr catchE_Inr mutator_inputs_Inr sum.inject)
  have "is_digest (compiled_semantic_dg parent_plan)"
    using compiled_digest_is_digest [OF a(5)] a(6) by (simp add: check_proposal_binding_def thenE_Inr raise_if_Inr)
  moreover have "is_digest (task_manifest_digest t)" using validated_task_ok [OF a(2)] by (simp add: task_ok_def)
  moreover have "touched_source_paths pr \<noteq> []" "paths_normal (touched_source_paths pr)"
    using proposal_validator.sound [OF a(4)] by (simp_all add: proposal_ok_def)
  ultimately have "reversion_ok (make_inverse sha parent parent_plan child plan t m pr)"
    using protocol_validator.sound [OF a(1)] compiled_digest_is_digest [OF a(12)]
    by (simp add: reversion_ok_def make_inverse_def manifest_digest_def)
  then have "inverse = make_inverse sha parent parent_plan child plan t m pr"
    using inv reversion_stable by simp
  with that a tx r show ?thesis by simp
qed

lemma applied_record:
  assumes "validate_transaction sha \<lparr>tx_proposal = pr, child_source_digest = cs, child_compiled_digest = cc,
      tx_inverse = v, tx_record_digest = []\<rparr> = Inr tx"
    and "proposal_ok pr" and "is_digest cs" and "is_digest cc" and "reversion_ok v"
  shows "tx_proposal tx = pr" and "tx_inverse tx = v" and "child_source_digest tx = cs"
    and "child_compiled_digest tx = cc" and "inv_child_source v = cs" and "inv_child_compiled v = cc"
proof -
  have "py_trim [] = []" by (simp add: strip_with_def)
  then show "tx_proposal tx = pr" and "tx_inverse tx = v" and "child_source_digest tx = cs"
    and "child_compiled_digest tx = cc" and "inv_child_source v = cs" and "inv_child_compiled v = cc"
    using assms by (auto simp: validate_transaction_def validated_Inr bindE_Inr proposal_validator.stable digest_stable
        reversion_stable bind_transaction_def Let_def thenE_Inr raise_if_Inr)
qed

lemma apply_facts:
  assumes "apply_semantic_transaction sha md raw_parent parent_plan raw_task raw_manifest raw_proposal retained = Inr r"
    and "validate_harness_protocol raw_parent = Inr parent" and "validate_task_envelope sha raw_task = Inr t"
    and "validate_dependency_manifest raw_manifest = Inr m"
  obtains pr where "validate_proposal raw_proposal = Inr pr" and "tx_proposal (applied_transaction r) = pr"
    and "tx_inverse (applied_transaction r) = make_inverse sha parent parent_plan (child_protocol r) (child_plan r) t m pr"
    and "patch_child parent (normalized_patch pr) (child_protocol r)" and "protocol_ok (child_protocol r)"
    and "final_actor (child_protocol r) = final_actor parent"
    and "compile_composite_run_plan sha md t (child_protocol r) m None = Inr (child_plan r)"
    and "compiled_semantic_dg (child_plan r) \<noteq> compiled_semantic_dg parent_plan"
    and "validate_lineage_dependencies pr retained = Inr ()"
    and "touched_source_paths pr = expected_touched_paths (normalized_patch pr)"
    and "\<exists>verified. compile_composite_run_plan sha md t parent m None = Inr verified \<and>
      compiled_semantic_dg verified = compiled_semantic_dg parent_plan"
    and "parent_source_digest pr = source_digest sha parent"
    and "child_source_digest (applied_transaction r) = source_digest sha (child_protocol r)"
proof -
  obtain pr verified where pr: "validate_proposal raw_proposal = Inr pr"
    and ver: "compile_composite_run_plan sha md t parent m None = Inr verified"
      "check_proposal_binding sha parent verified parent_plan t m pr = Inr ()"
    and meta: "validate_operator_metadata pr = Inr ()"
    and lin: "validate_lineage_dependencies pr retained = Inr ()"
    and child: "apply_patch parent (normalized_patch pr) = Inr (child_protocol r)"
    and plan: "compile_composite_run_plan sha md t (child_protocol r) m (Some (compiled_semantic_dg parent_plan)) = Inr (child_plan r)"
    and tx: "validate_transaction sha \<lparr>tx_proposal = pr, child_source_digest = source_digest sha (child_protocol r),
       child_compiled_digest = compiled_semantic_dg (child_plan r),
       tx_inverse = make_inverse sha parent parent_plan (child_protocol r) (child_plan r) t m pr,
       tx_record_digest = []\<rparr> = Inr (applied_transaction r)"
    by (rule apply_Inr [OF assms(1)]) (use assms(2-4) in auto)
  note pok = proposal_validator.sound [OF pr]
  have bind: "compiled_semantic_dg verified = compiled_semantic_dg parent_plan"
    "parent_source_digest pr = source_digest sha parent"
    using ver(2) by (simp_all add: check_proposal_binding_def thenE_Inr raise_if_Inr)
  have "reversion_ok (make_inverse sha parent parent_plan (child_protocol r) (child_plan r) t m pr)"
    using pok protocol_validator.sound [OF assms(2)] compiled_digest_is_digest [OF plan]
      compiled_digest_is_digest [OF ver(1)] bind(1) validated_task_ok [OF assms(3)]
    by (simp add: reversion_ok_def make_inverse_def manifest_digest_def proposal_ok_def task_ok_def)
  note rec = applied_record [OF tx pok _ _ this]
  have "patch_ok (normalized_patch pr)" using pok by (simp add: proposal_ok_def)
  note ch = apply_patch_child [OF child protocol_validator.sound [OF assms(2)] this]
  note acc = compile_accept [OF plan]
  have "touched_source_paths pr = expected_touched_paths (normalized_patch pr)"
    using meta by (simp add: validate_operator_metadata_def thenE_Inr raise_if_Inr)
  then show ?thesis
    using that pr rec ch acc lin ver(1) bind compiled_digest_is_digest [OF plan] by simp
qed


lemma later_than_last: "tx_id tx \<notin> set (map tx_id ts) \<Longrightarrow> later_than (tx_id tx) (ts @ [tx]) = []"
  by (induction ts) (auto simp: later_than_def)


text \<open>C4: a transaction that was just applied can be reverted as the newest of its lineage: the
  reversion accepts the child and its plan and returns the parent protocol with a plan of the
  parent's compiled digest.\<close>

theorem revert_newest_restores_parent:
  assumes "apply_semantic_transaction sha md raw_parent parent_plan raw_task raw_manifest raw_proposal retained = Inr r"
    and "validate_harness_protocol raw_parent = Inr parent"
  shows "\<exists>plan. revert_semantic_transaction sha md (child_protocol r) (child_plan r) raw_task raw_manifest
      (applied_transaction r) (retained @ [applied_transaction r]) =
    Inr \<lparr>reverted_protocol = parent, reverted_plan = plan, reverted_transaction_id = tx_id (applied_transaction r)\<rparr> \<and>
    compiled_semantic_dg plan = compiled_semantic_dg parent_plan"
proof -
  obtain t m where tm: "validate_task_envelope sha raw_task = Inr t" "validate_dependency_manifest raw_manifest = Inr m"
    using assms(1) unfolding apply_semantic_transaction_def by (auto simp only: bindE_Inr mutator_inputs_Inr)
  show ?thesis
  proof (rule apply_facts [OF assms tm])
    fix pr
    assume tx: "tx_proposal (applied_transaction r) = pr"
      and inv: "tx_inverse (applied_transaction r) = make_inverse sha parent parent_plan (child_protocol r) (child_plan r) t m pr"
      and child: "protocol_ok (child_protocol r)"
        "compile_composite_run_plan sha md t (child_protocol r) m None = Inr (child_plan r)"
      and lin: "validate_lineage_dependencies pr retained = Inr ()"
      and parent: "\<exists>verified. compile_composite_run_plan sha md t parent m None = Inr verified \<and>
        compiled_semantic_dg verified = compiled_semantic_dg parent_plan"
    have "distinct (map tx_id retained)" "transaction_id pr \<notin> set (map tx_id retained)"
      using lin by (simp_all add: validate_lineage_dependencies_def Let_def thenE_Inr raise_if_Inr)
    then have "validate_reversion_order (applied_transaction r) (retained @ [applied_transaction r]) = Inr ()"
      using tx later_than_last [of "applied_transaction r" retained]
      by (simp add: validate_reversion_order_def thenE_Inr raise_if_Inr)
    then show ?thesis
      using parent tm child inv tx protocol_validator.stable [OF child(1)]
        protocol_validator.stable [OF protocol_validator.sound [OF assms(2)]]
      by (auto simp: revert_semantic_transaction_def mutator_protocol_def mutator_task_def mutator_dependencies_def
          mutator_compile_def make_inverse_def raise_if_def)
  qed
qed



section \<open>The dependency graph\<close>

definition dep_rel :: "semantic_transaction list \<Rightarrow> (string \<times> string) set" where
  "dep_rel active = (\<Union>t\<in>set active. Pair (tx_id t) ` set (tx_dependencies t))"

lemma dep_rel_iff: "(a, b) \<in> dep_rel active \<longleftrightarrow> (\<exists>t\<in>set active. tx_id t = a \<and> b \<in> set (tx_dependencies t))"
  by (auto simp: dep_rel_def)

lemma dep_rel_out:
  "distinct (map tx_id active) \<Longrightarrow> t \<in> set active \<Longrightarrow> (tx_id t, b) \<in> dep_rel active \<longleftrightarrow> b \<in> set (tx_dependencies t)"
  by (auto simp: dep_rel_iff distinct_map dest: inj_onD)

lemma depends_True:
  "depends_transitively target by_id visiting t = Inr True \<Longrightarrow> t \<in> set by_id \<Longrightarrow>
     (tx_id t, target) \<in> (dep_rel by_id)\<^sup>+"
  "any_depends target by_id visiting ds = Inr True \<Longrightarrow> \<exists>d\<in>set ds. (d, target) \<in> (dep_rel by_id)\<^sup>+"
proof (induction target by_id visiting t and target by_id visiting ds rule: depends_transitively_any_depends.induct)
  case (1 target by_id visiting t)
  have dep: "(tx_id t, d) \<in> dep_rel by_id" if "d \<in> set (tx_dependencies t)" for d
    using that "1.prems"(2) by (auto simp: dep_rel_iff)
  show ?case
  proof (cases "target \<in> set (tx_dependencies t)")
    case False
    then obtain d where "d \<in> set (tx_dependencies t)" "(d, target) \<in> (dep_rel by_id)\<^sup>+"
      using 1 by (auto simp: depends_transitively.simps [of target by_id] split: if_splits)
    with dep show ?thesis by (meson trancl_into_trancl2)
  qed (use dep in auto)
next
  case (3 target by_id visiting d ds)
  show ?case
  proof (cases "find (\<lambda>t. tx_id t = d) by_id")
    case (Some t)
    note t = find_key_Some [OF Some]
    show ?thesis
      using 3 Some t by (auto simp: bindE_Inr split: if_splits)
  qed (use 3 in auto)
qed simp

lemma depends_False:
  "depends_transitively target by_id visiting t = Inr False \<Longrightarrow> t \<in> set by_id \<Longrightarrow> distinct (map tx_id by_id) \<Longrightarrow>
     (tx_id t, target) \<notin> (dep_rel by_id)\<^sup>+"
  "any_depends target by_id visiting ds = Inr False \<Longrightarrow> distinct (map tx_id by_id) \<Longrightarrow>
     \<forall>d\<in>set ds. (d, target) \<notin> (dep_rel by_id)\<^sup>+"
proof (induction target by_id visiting t and target by_id visiting ds rule: depends_transitively_any_depends.induct)
  case (1 target by_id visiting t)
  have none: "target \<notin> set (tx_dependencies t)" "\<forall>d\<in>set (tx_dependencies t). (d, target) \<notin> (dep_rel by_id)\<^sup>+"
    using 1 by (auto simp: depends_transitively.simps [of target by_id] split: if_splits)
  show ?case
  proof
    assume "(tx_id t, target) \<in> (dep_rel by_id)\<^sup>+"
    then obtain d where "(tx_id t, d) \<in> dep_rel by_id" "d = target \<or> (d, target) \<in> (dep_rel by_id)\<^sup>+"
      by (metis rtranclD tranclD)
    with none dep_rel_out [OF "1.prems"(3,2)] show False by auto
  qed
next
  case (3 target by_id visiting d ds)
  show ?case
  proof (cases "find (\<lambda>t. tx_id t = d) by_id")
    case None
    then have "\<forall>b. (d, b) \<notin> dep_rel by_id" by (auto simp: dep_rel_iff find_None_iff)
    then have "(d, target) \<notin> (dep_rel by_id)\<^sup>+" by (meson tranclD)
    with 3 None show ?thesis by auto
  next
    case (Some t)
    note t = find_key_Some [OF Some]
    show ?thesis using 3 Some t by (auto simp: bindE_Inr split: if_splits)
  qed
qed simp

lemma depends_cycle:
  "depends_transitively target by_id visiting t = Inl e \<Longrightarrow> t \<in> set by_id \<Longrightarrow>
     \<forall>v\<in>set visiting. (v, tx_id t) \<in> (dep_rel by_id)\<^sup>+ \<Longrightarrow> \<not> acyclic (dep_rel by_id)"
  "any_depends target by_id visiting ds = Inl e \<Longrightarrow>
     \<forall>d\<in>set ds. \<forall>v\<in>set visiting. (v, d) \<in> (dep_rel by_id)\<^sup>+ \<Longrightarrow> \<not> acyclic (dep_rel by_id)"
proof (induction target by_id visiting t and target by_id visiting ds rule: depends_transitively_any_depends.induct)
  case (1 target by_id visiting t)
  have dep: "(tx_id t, d) \<in> dep_rel by_id" if "d \<in> set (tx_dependencies t)" for d
    using that "1.prems"(2) by (auto simp: dep_rel_iff)
  show ?case
  proof (cases "tx_id t \<in> set visiting")
    case True
    with "1.prems"(3) show ?thesis by (auto simp: acyclic_def)
  next
    case False
    have "\<forall>d\<in>set (tx_dependencies t). \<forall>v\<in>set (tx_id t # visiting). (v, d) \<in> (dep_rel by_id)\<^sup>+"
      using dep "1.prems"(3) by (auto intro: trancl.trancl_into_trancl)
    with 1 False show ?thesis
      by (auto simp: depends_transitively.simps [of target by_id] split: if_splits)
  qed
next
  case (3 target by_id visiting d ds)
  show ?case
  proof (cases "find (\<lambda>t. tx_id t = d) by_id")
    case (Some t)
    note t = find_key_Some [OF Some]
    show ?thesis
      using 3 Some t by (auto simp: bindE_def split: if_splits sum.splits)
  qed (use 3 in auto)
qed simp




lemma depends_decides:
  assumes "distinct (map tx_id active)" and "acyclic (dep_rel active)" and "t \<in> set active"
  shows "depends_transitively target active [] t = Inr ((tx_id t, target) \<in> (dep_rel active)\<^sup>+)"
proof (cases "depends_transitively target active [] t")
  case (Inl e)
  with depends_cycle(1) [OF Inl assms(3)] assms(2) show ?thesis by simp
next
  case (Inr b)
  then show ?thesis
    using depends_True(1) [OF _ assms(3)] depends_False(1) [OF _ assms(3,1)] by (cases b) auto
qed

text \<open>C26: on a lineage with unique ids whose dependency graph has no cycle, the recursive search never
  raises and decides reachability: it answers whether the transaction depends on the target
  through any number of dependencies.\<close>

theorem depends_transitively_decides:
  assumes "distinct (map tx_id active)" and "acyclic (dep_rel active)" and "t \<in> set active"
  shows "depends_transitively target active [] t = Inr ((tx_id t, target) \<in> (dep_rel active)\<^sup>+)"
  by (rule depends_decides [OF assms])

section \<open>Lineages\<close>

text \<open>The lineages that applying transactions builds: ids are fresh, dependencies are older, and
  a transaction depends on every older one whose source paths it overlaps.\<close>

inductive lineage :: "semantic_transaction list \<Rightarrow> bool" where
  lineage_Nil: "lineage []"
| lineage_snoc: "lineage ts \<Longrightarrow> tx_id t \<notin> set (map tx_id ts) \<Longrightarrow> set (tx_dependencies t) \<subseteq> set (map tx_id ts) \<Longrightarrow>
    \<forall>u\<in>set ts. any_overlap (touched_source_paths (tx_proposal u)) (touched_source_paths (tx_proposal t)) \<longrightarrow>
      tx_id u \<in> set (tx_dependencies t) \<Longrightarrow> lineage (ts @ [t])"

inductive_cases lineage_snocE: "lineage (ts @ [t])"

lemma validate_lineage_Inr:
  "validate_lineage_dependencies pr retained = Inr u \<longleftrightarrow> distinct (map tx_id retained) \<and>
     transaction_id pr \<notin> set (map tx_id retained) \<and> set (dependency_transaction_ids pr) \<subseteq> set (map tx_id retained) \<and>
     (\<forall>t\<in>set retained. any_overlap (touched_source_paths (tx_proposal t)) (touched_source_paths pr) \<longrightarrow>
        tx_id t \<in> set (dependency_transaction_ids pr))"
  by (auto simp: validate_lineage_dependencies_def Let_def thenE_Inr raise_if_Inr forE_Inr)

lemma lineage_distinct: "lineage ts \<Longrightarrow> distinct (map tx_id ts)"
  by (induction rule: lineage.induct) auto

lemma dep_rel_lineage: "lineage ts \<Longrightarrow> (a, b) \<in> dep_rel ts \<Longrightarrow> b \<in> set (map tx_id ts)"
  by (induction arbitrary: a b rule: lineage.induct) (auto simp: dep_rel_def)

lemma lineage_acyclic: "lineage ts \<Longrightarrow> acyclic (dep_rel ts)"
proof (induction rule: lineage.induct)
  case (lineage_snoc ts t)
  have "acyclic (dep_rel ts \<union> Pair (tx_id t) ` D)" if "D \<subseteq> set (map tx_id ts)" for D
  proof -
    have fin: "finite D" using that by (rule finite_subset) simp
    then show ?thesis using that
    proof (induction D)
      case (insert d D)
      have "(d, tx_id t) \<notin> (dep_rel ts \<union> Pair (tx_id t) ` D)\<^sup>*"
      proof
        assume "(d, tx_id t) \<in> (dep_rel ts \<union> Pair (tx_id t) ` D)\<^sup>*"
        then have "d = tx_id t \<or> tx_id t \<in> set (map tx_id ts)"
          using dep_rel_lineage [OF lineage_snoc.hyps(1)] insert.prems by (cases rule: rtranclE) auto
        with insert.prems lineage_snoc.hyps(2) show False by auto
      qed
      with insert show ?case by (simp add: acyclic_insert)
    qed (use lineage_snoc.IH in simp)
  qed
  moreover have "dep_rel (ts @ [t]) = dep_rel ts \<union> Pair (tx_id t) ` set (tx_dependencies t)"
    by (auto simp: dep_rel_def)
  ultimately show ?case using lineage_snoc.hyps(3) by simp
qed (simp add: dep_rel_def acyclic_def)

lemma later_than_set: "set (later_than i ts) \<subseteq> set ts"
proof -
  have "set (tl xs) \<subseteq> set xs" for xs :: "semantic_transaction list" by (cases xs) auto
  then show ?thesis unfolding later_than_def using set_dropWhileD by fast
qed


lemma later_than_split:
  "distinct (map tx_id (xs @ t # ys)) \<Longrightarrow> later_than (tx_id t) (xs @ t # ys) = ys"
  by (induction xs) (auto simp: later_than_def)



lemma reversion_order:
  assumes "lineage active" and "t \<in> set active"
  shows "validate_reversion_order t active =
    (if \<exists>d\<in>set (later_than (tx_id t) active). (tx_id d, tx_id t) \<in> (dep_rel active)\<^sup>+ \<or>
        any_overlap (protected_source_paths (tx_inverse t)) (touched_source_paths (tx_proposal d))
     then Inl (DependencyInvalidTransactionError ''dependent or overlapping descendants must be reverted first'')
     else Inr ())"
proof -
  let ?e = "DependencyInvalidTransactionError ''dependent or overlapping descendants must be reverted first''"
  have each: "forE (\<lambda>d. bindE (depends_transitively (tx_id t) active [] d) (\<lambda>b. raise_if (b \<or> Q d) ?e)) ds =
      (if \<exists>d\<in>set ds. (tx_id d, tx_id t) \<in> (dep_rel active)\<^sup>+ \<or> Q d then Inl ?e else Inr ())"
    if "set ds \<subseteq> set active" for ds Q
    using that by (induction ds)
      (auto simp: depends_decides lineage_distinct [OF assms(1)] lineage_acyclic [OF assms(1)] raise_if_def)
  show ?thesis
    using assms(2) lineage_distinct [OF assms(1)]
    by (simp only: validate_reversion_order_def Let_def each [OF later_than_set]) (simp add: raise_if_def)
qed

text \<open>C24: on a lineage the reversion guard is decided exactly: an active transaction may be reverted
  when no later one depends on it through any number of dependencies or overlaps its protected
  paths, and otherwise the guard raises the dependency error.\<close>

theorem reversion_order_decides:
  assumes "lineage active" and "t \<in> set active"
  shows "validate_reversion_order t active =
    (if \<exists>d\<in>set (later_than (tx_id t) active). (tx_id d, tx_id t) \<in> (dep_rel active)\<^sup>+ \<or>
        any_overlap (protected_source_paths (tx_inverse t)) (touched_source_paths (tx_proposal d))
     then Inl (DependencyInvalidTransactionError ''dependent or overlapping descendants must be reverted first'')
     else Inr ())"
  by (rule reversion_order [OF assms])

lemma lineage_prefix: "lineage (ts @ [t]) \<Longrightarrow> lineage ts"
  by (erule lineage_snocE) auto

lemma lineage_remove:
  "lineage (xs @ t # ys) \<Longrightarrow> \<forall>d\<in>set ys. tx_id t \<notin> set (tx_dependencies d) \<Longrightarrow> lineage (xs @ ys)"
proof (induction ys rule: rev_induct)
  case Nil
  then show ?case using lineage_prefix by simp
next
  case (snoc d ys)
  from snoc.prems(1) have "lineage ((xs @ t # ys) @ [d])" by simp
  note d = lineage_snocE [OF this]
  have "lineage (xs @ t # ys)" and "tx_id d \<notin> set (map tx_id (xs @ ys))"
    and "set (tx_dependencies d) \<subseteq> insert (tx_id t) (set (map tx_id (xs @ ys)))"
    and "\<forall>u\<in>set (xs @ ys). any_overlap (touched_source_paths (tx_proposal u)) (touched_source_paths (tx_proposal d)) \<longrightarrow>
      tx_id u \<in> set (tx_dependencies d)"
    by (rule d; auto)+
  with snoc have "lineage ((xs @ ys) @ [d])" by (intro lineage_snoc) auto
  then show ?case by simp
qed

text \<open>C25: applying extends a lineage by one transaction and reverting removes one from it: whatever
  order of accepted applications and reversions a search performs, the retained transactions stay
  a lineage, so no retained transaction ever misses one it depends on.\<close>

theorem lineage_preserved:
  assumes "lineage active"
  shows "(apply_semantic_transaction sha md p plan task m proposal active = Inr r \<longrightarrow>
      lineage (active @ [applied_transaction r])) \<and>
    (revert_semantic_transaction sha md q plan' task' m' t active = Inr v \<longrightarrow> t \<in> set active \<longrightarrow>
      lineage (filter (\<lambda>d. tx_id d \<noteq> tx_id t) active) \<and> reverted_transaction_id v = tx_id t)"
proof (intro conjI impI)
  assume a: "apply_semantic_transaction sha md p plan task m proposal active = Inr r"
  obtain parent t mf where "validate_harness_protocol p = Inr parent" "validate_task_envelope sha task = Inr t"
    "validate_dependency_manifest m = Inr mf"
    using a unfolding apply_semantic_transaction_def by (auto simp only: bindE_Inr mutator_inputs_Inr)
  then show "lineage (active @ [applied_transaction r])"
  proof (rule apply_facts [OF a])
    fix pr
    assume "tx_proposal (applied_transaction r) = pr" "validate_lineage_dependencies pr active = Inr ()"
    then show ?thesis using assms by (intro lineage_snoc) (simp_all add: validate_lineage_Inr)
  qed
next
  assume v: "revert_semantic_transaction sha md q plan' task' m' t active = Inr v" and t: "t \<in> set active"
  have ord: "validate_reversion_order t active = Inr ()"
    using v unfolding revert_semantic_transaction_def by (auto simp only: bindE_Inr thenE_Inr)
  obtain xs ys where split: "active = xs @ t # ys" using t by (auto dest: split_list)
  note d = lineage_distinct [OF assms]
  have "\<forall>d\<in>set ys. (tx_id d, tx_id t) \<notin> (dep_rel active)\<^sup>+"
    using ord reversion_order [OF assms t] later_than_split d split by (auto split: if_splits)
  then have "\<forall>d\<in>set ys. tx_id t \<notin> set (tx_dependencies d)"
    using split dep_rel_iff [of _ "tx_id t" active] r_into_trancl [of _ "dep_rel active"] by fastforce
  then have "lineage (xs @ ys)" using lineage_remove assms split by blast
  moreover have "filter (\<lambda>d. tx_id d \<noteq> tx_id t) active = xs @ ys"
  proof -
    have "filter (\<lambda>d. tx_id d \<noteq> tx_id t) zs = zs" if new: "tx_id t \<notin> tx_id ` set zs"
      for zs :: "semantic_transaction list"
      using new by (induction zs) auto
    with d split show ?thesis by simp
  qed
  ultimately show "lineage (filter (\<lambda>d. tx_id d \<noteq> tx_id t) active)" by simp
  show "reverted_transaction_id v = tx_id t"
    using v unfolding revert_semantic_transaction_def Let_def by (auto simp only: bindE_Inr thenE_Inr sum.inject reverted_mutation.simps)
qed



section \<open>A sample transaction\<close>

text \<open>The instruction of the sample implementer is rewritten. SHA-256 is instantiated by a function
  that is constant except on the identity bytes of the child's plan.\<close>

definition sample_rewrite :: semantic_patch where
  "sample_rewrite = InstructionRewrite ''implementer'' ''do the work'' ''fix it''"

definition sample_child :: harness_protocol where
  "sample_child = sample_protocol\<lparr>actors :=
     [sample_actor ''investigator'' [RepoDiff, RepoRead, RepoSearch] 4000,
      (sample_actor ''implementer'' [RepoDiff, RepoEdit, RepoRead] 6000)\<lparr>instruction := ''fix it''\<rparr>]\<rparr>"

abbreviation zeros :: string where
  "zeros \<equiv> replicate 64 (CHR ''0'')"

abbreviation bound_task :: task_envelope where
  "bound_task \<equiv> sample_task_validated ''fix the bug''"

definition child_bytes :: string where
  "child_bytes = domain_payload ''composite-plan'' (semantic_payload (plan_of zero_sha bound_task sample_child sample_manifest))"

definition sample_sha :: sha256 where
  "sample_sha b = (if b = child_bytes then 1 else 0)"

lemma length_encode_dict:
  "length (encode (PDict es)) = 17 + sum_list (map (\<lambda>kv. length (encode (fst kv)) + length (encode (snd kv))) es)"
proof -
  have "sum_list (map (\<lambda>kv. length (fst kv @ snd kv)) (sort (map encode_entry es))) =
      sum_list (map (\<lambda>kv. length (encode (fst kv)) + length (encode (snd kv))) es)"
    unfolding sum_list_sort by (simp add: comp_def) (simp add: case_prod_unfold)
  then show ?thesis by (simp add: length_concat comp_def)
qed

lemma other_domain: "d \<noteq> ''composite-plan'' \<Longrightarrow> length d < 2 ^ 64 \<Longrightarrow> identity_digest sample_sha d v = zeros"
  by (simp add: identity_digest_def sample_sha_def child_bytes_def domain_payload_def frame_prefix)

lemma sample_child_apply: "apply_patch sample_protocol sample_rewrite = Inr sample_child"
  by code_simp

lemma sample_rewrite_ok: "patch_ok sample_rewrite"
  by code_simp

lemma sample_child_ok: "protocol_ok sample_child"
  using apply_patch_child [OF sample_child_apply sample_protocol_ok sample_rewrite_ok] by simp

lemma sample_calls:
  "calls_of bound_task sample_child (levels_of sample_child) =
     map (\<lambda>c. if call_instruction c = ''do the work'' \<and> emits_final_patch c then c\<lparr>call_instruction := ''fix it''\<rparr> else c)
       (calls_of bound_task sample_protocol (levels_of sample_protocol))"
  "map (\<lambda>c. call_instruction c = ''do the work'' \<and> emits_final_patch c)
     (calls_of bound_task sample_protocol (levels_of sample_protocol)) = [False, True]"
  by code_simp+


lemma call_lengths:
  "length (encode (actor_call_payload (c\<lparr>call_instruction := i\<rparr>))) + length (call_instruction c) =
     length (encode (actor_call_payload c)) + length i"
  by (simp add: actor_call_payload_def obj_def length_encode_dict del: encode.simps(9))

lemma sample_same_rest:
  "stages_of sample_child (levels_of sample_child) = stages_of sample_protocol (levels_of sample_protocol)"
  "deliveries_of sample_child = deliveries_of sample_protocol"
  "verification_of t sample_child = verification_of t sample_protocol"
  "termination_of t sample_child = termination_of t sample_protocol"
  "ledger_of t sample_child [c, d\<lparr>call_instruction := i\<rparr>] = ledger_of t sample_protocol [c, d]"
proof -
  show "stages_of sample_child (levels_of sample_child) = stages_of sample_protocol (levels_of sample_protocol)"
    "deliveries_of sample_child = deliveries_of sample_protocol" by code_simp+
qed (simp_all add: verification_of_def termination_of_def ledger_of_def final_call_id_def sample_child_def
    sample_protocol_def sample_actor_def)

lemma parent_not_child:
  "domain_payload ''composite-plan'' (semantic_payload (plan_of sha bound_task sample_protocol sample_manifest)) \<noteq> child_bytes"
proof
  let ?calls = "calls_of bound_task sample_protocol (levels_of sample_protocol)"
  assume "domain_payload ''composite-plan'' (semantic_payload (plan_of sha bound_task sample_protocol sample_manifest)) = child_bytes"
  then have len: "length (encode (semantic_payload (plan_of sha bound_task sample_protocol sample_manifest))) =
      length (encode (semantic_payload (plan_of zero_sha bound_task sample_child sample_manifest)))"
    unfolding child_bytes_def domain_payload_def by simp
  obtain c d where cd: "?calls = [c, d]" "call_instruction d = ''do the work''" "emits_final_patch d"
      "\<not> (call_instruction c = ''do the work'' \<and> emits_final_patch c)"
    using sample_calls(2) by (auto simp: map_eq_Cons_conv)
  have "calls_of bound_task sample_child (levels_of sample_child) = [c, d\<lparr>call_instruction := ''fix it''\<rparr>]"
    unfolding sample_calls(1) using cd by simp
  with len cd(1) have "length (encode (actor_call_payload d)) =
      length (encode (actor_call_payload (d\<lparr>call_instruction := ''fix it''\<rparr>)))"
    by (simp add: semantic_payload_def obj_def length_encode_dict sample_same_rest manifest_digest_def length_concat
        identity_digest_def hexdigest_def del: encode.simps(9))
  with call_lengths [where c = d and i = "''fix it''"] cd(2) show False by simp
qed

lemma one_not_zeros: "hexdigest 1 \<noteq> zeros"
proof
  assume "hexdigest 1 = zeros"
  then have "last (hexdigest 1) = CHR ''0''" by simp
  moreover have "last (hex_digits (Suc k) n) = hex_char (n mod 16)" for k n
    by (simp add: hex_digits_def last_map last_rev)
  from this [of 63 1] have "last (hexdigest 1) = hex_char 1" by (simp add: hexdigest_def)
  moreover have "hex_char 1 = CHR ''1''" by code_simp
  ultimately show False by simp
qed

lemma sample_payload: "semantic_payload (plan_of sample_sha bound_task p sample_manifest) =
    semantic_payload (plan_of zero_sha bound_task p sample_manifest)"
  by (simp add: semantic_payload_def manifest_digest_def other_domain ledger_of_def)

lemma sample_digests:
  "source_digest sample_sha p = zeros" "source_field_digest sample_sha v = zeros"
  "manifest_digest sample_sha sample_manifest = zeros" "task_envelope_digest sample_sha t = zeros"
  "transaction_digest sample_sha v = zeros"
  "compiled_semantic_dg (plan_of sample_sha bound_task sample_protocol sample_manifest) = zeros"
  "compiled_semantic_dg (plan_of sample_sha bound_task sample_child sample_manifest) = hexdigest 1"
  using parent_not_child
  by (simp_all add: source_digest_def protocol_digest_def source_field_digest_def manifest_digest_def
      task_envelope_digest_def task_digest_def transaction_digest_def other_domain plan_of_semantic_digest
      composite_plan_digest_def sample_payload)
    (simp_all add: identity_digest_def sample_sha_def child_bytes_def)


definition sample_proposal :: proposal where
  "sample_proposal = \<lparr>transaction_id = ''tx1'', tx_operator = InstructionRewriteOp,
     tx_treatment = PromptOnlyControl, tx_source = Manual, parent_source_digest = zeros,
     parent_compiled_digest = zeros, tx_task_digest = zeros, tx_manifest_digest = zeros,
     mechanism_hypothesis = ''shorter instructions'',
     tx_applicability = \<lparr>required_actor_ids = [''implementer''], absent_actor_ids = [], required_channel_ids = [],
       absent_channel_ids = [], required_revision_state = AnyRevision, path_preconditions = []\<rparr>,
     normalized_patch = sample_rewrite, touched_source_paths = [''actors[implementer].instruction''],
     tx_budget_effect = \<lparr>effect_mode = BudgetUnchanged, share_changes = []\<rparr>,
     dependency_transaction_ids = [],
     predicted_trace_effect = \<lparr>effect_owner = ActorContext, effect_observation = ObserveInstructionBlocks,
       expected_effect = ''new instruction''\<rparr>\<rparr>"

lemma sample_proposal_ok: "proposal_ok sample_proposal"
  by code_simp

abbreviation sample_plan :: "harness_protocol \<Rightarrow> run_plan" where
  "sample_plan p \<equiv> plan_of sample_sha bound_task p sample_manifest"

lemma sample_bound_task:
  "validate_task_envelope sample_sha sample_task = Inr bound_task"
  "validate_task_envelope sample_sha bound_task = Inr bound_task"
proof -
  have body: "require_nonempty ''fix the bug'' ''issue'' = Inr ''fix the bug''" by code_simp
  show "validate_task_envelope sample_sha sample_task = Inr bound_task"
    using sample_task_validates [OF body, of sample_sha "[]"] sample_digests(4) by (simp add: sample_task_of_def)
  show "validate_task_envelope sample_sha bound_task = Inr bound_task"
    using sample_task_validates [OF body, of sample_sha zeros] sample_digests(4) by (simp add: sample_task_validated_def)
qed

lemma sample_child_plan:
  assumes "p = sample_protocol \<or> p = sample_child" and "reject \<noteq> Some (compiled_semantic_dg (sample_plan p))"
  shows "compile_composite_run_plan sample_sha sample_metadata bound_task p sample_manifest reject = Inr (sample_plan p)"
proof -
  have ok: "protocol_ok p" using assms(1) sample_child_ok sample_protocol_ok by auto
  have "\<not> isl (compile_topology sample_child)" by code_simp
  then have top: "topology_ok p"
    using assms(1) sample_topology_ok(1) topology_decision [OF sample_child_ok] by (auto split: sum.splits)
  have diff: "differentiated bound_task p"
    using assms(1) sample_differentiated
    by (auto simp: differentiated_def inj_on_def call_signature_def initial_call_of_def actor_of_def
        sample_child_def sample_protocol_def sample_actor_def Let_def)
  have calls: "int (scheduled_calls p) \<le> max_model_calls (ceilings bound_task)"
    using assms(1) by (auto simp: scheduled_calls_def sample_child_def sample_protocol_def sample_task_validated_def
        sample_task_of_def sample_ceilings_def)
  have contract: "validate_dependency_contract bound_task p sample_manifest sample_metadata = Inr ()"
    using assms(1) by (auto simp: validate_dependency_contract_def sample_task_validated_def sample_task_of_def
        sample_protocol_def sample_manifest_def sample_metadata_def sample_dependency_def sample_actor_def
        check_actor_tools_def repo_repair_trusted_tool_ids_def sample_child_def Let_def)
  have "compile_normalized sample_sha bound_task p sample_manifest reject = Inr (sample_plan p)"
    using compile_decision [OF ok validated_task_ok [OF sample_bound_task(1)], where sha = sample_sha and m = sample_manifest and reject = reject]
      top diff calls assms(2)
    by (cases "compile_normalized sample_sha bound_task p sample_manifest reject") (auto split: exn.splits)
  then show ?thesis
    using contract sample_bound_task(2) protocol_validator.stable [OF ok] sample_manifest_valid
    by (simp add: compile_composite_run_plan_def normalize_task_def normalize_protocol_def normalize_dependencies_def)
qed

lemma sample_checks:
  "validate_operator_metadata sample_proposal = Inr ()" "validate_declared_applicability sample_proposal = Inr ()"
  "validate_budget_effect sample_protocol sample_child sample_proposal = Inr ()"
  "validate_lineage_dependencies sample_proposal [] = Inr ()"
  "validate_applicability sha sample_protocol (tx_applicability sample_proposal) = Inr ()"
  by (code_simp, code_simp, code_simp, code_simp,
      simp add: validate_applicability_def sample_proposal_def sample_protocol_def sample_actor_def raise_if_def)


abbreviation sample_inverse :: reversion where
  "sample_inverse \<equiv> make_inverse sample_sha sample_protocol (sample_plan sample_protocol) sample_child
     (sample_plan sample_child) bound_task sample_manifest sample_proposal"

lemma zeros_digest: "is_digest zeros"
  using is_digest_hexdigest [of 0] by simp

lemma bound_task_digest: "task_manifest_digest bound_task = zeros"
  by (simp add: sample_task_validated_def)

lemma sample_inverse_valid: "validate_reversion sample_inverse = Inr sample_inverse"
proof (rule reversion_stable)
  have "paths_normal (touched_source_paths sample_proposal)" "touched_source_paths sample_proposal \<noteq> []"
    using sample_proposal_ok by (simp_all add: proposal_ok_def)
  then show "reversion_ok sample_inverse"
    using zeros_digest sample_protocol_ok bound_task_digest
    by (simp add: reversion_ok_def make_inverse_def sample_digests)
qed

lemma sample_recorded: "\<exists>tx. validate_transaction sample_sha \<lparr>tx_proposal = sample_proposal, child_source_digest = zeros,
    child_compiled_digest = hexdigest 1, tx_inverse = sample_inverse, tx_record_digest = []\<rparr> = Inr tx"
proof -
  let ?t = "\<lparr>tx_proposal = sample_proposal, child_source_digest = zeros,
    child_compiled_digest = hexdigest 1, tx_inverse = sample_inverse, tx_record_digest = []\<rparr>"
  have "py_trim [] = []" by (simp add: strip_with_def)
  moreover have "bind_transaction sample_sha ?t = Inr (?t\<lparr>tx_record_digest := semantic_transaction_digest sample_sha ?t\<rparr>)"
    using bound_task_digest
    by (simp add: bind_transaction_def make_inverse_def sample_digests sample_proposal_def raise_if_def Let_def)
  ultimately show ?thesis
    using sample_inverse_valid
    by (simp add: validate_transaction_def proposal_validator.stable sample_proposal_ok digest_stable zeros_digest)
qed

lemma sample_applied:
  "\<exists>r. apply_semantic_transaction sample_sha sample_metadata sample_protocol (sample_plan sample_protocol)
      sample_task sample_manifest sample_proposal [] = Inr r \<and> child_protocol r = sample_child"
proof -
  obtain tx where tx: "validate_transaction sample_sha \<lparr>tx_proposal = sample_proposal, child_source_digest = zeros,
    child_compiled_digest = hexdigest 1, tx_inverse = sample_inverse, tx_record_digest = []\<rparr> = Inr tx"
    using sample_recorded by blast
  have inputs: "mutator_protocol sample_protocol = Inr sample_protocol" "mutator_task sample_sha sample_task = Inr bound_task"
    "mutator_dependencies sample_manifest = Inr sample_manifest" "mutator_proposal sample_proposal = Inr sample_proposal"
    by (simp_all only: mutator_inputs_Inr sample_protocol_valid sample_bound_task sample_manifest_valid
        proposal_validator.stable [OF sample_proposal_ok])
  have compile: "mutator_compile sample_sha sample_metadata bound_task sample_protocol sample_manifest None = Inr (sample_plan sample_protocol)"
    "mutator_compile sample_sha sample_metadata bound_task sample_child sample_manifest
       (Some (compiled_semantic_dg (sample_plan sample_protocol))) = Inr (sample_plan sample_child)"
    unfolding mutator_inputs_Inr using one_not_zeros by (auto intro!: sample_child_plan simp: sample_digests)
  have binding: "check_proposal_binding sample_sha sample_protocol (sample_plan sample_protocol) (sample_plan sample_protocol)
      bound_task sample_manifest sample_proposal = Inr ()"
    using bound_task_digest by (simp add: check_proposal_binding_def sample_digests raise_if_def) (simp add: sample_proposal_def)
  have patch: "apply_patch sample_protocol (normalized_patch sample_proposal) = Inr sample_child"
    using sample_child_apply by (simp add: sample_proposal_def)
  show ?thesis
    by (simp add: apply_semantic_transaction_def inputs compile binding sample_checks patch sample_inverse_valid)
      (simp add: sample_digests tx raise_if_def)
qed


theorem revert_newest_restores_parent_witness:
  "\<exists>r v. apply_semantic_transaction sample_sha sample_metadata sample_protocol (sample_plan sample_protocol)
      sample_task sample_manifest sample_proposal [] = Inr r \<and>
    revert_semantic_transaction sample_sha sample_metadata (child_protocol r) (child_plan r) sample_task sample_manifest
      (applied_transaction r) [applied_transaction r] = Inr v \<and> reverted_protocol v = sample_protocol"
proof -
  obtain r where r: "apply_semantic_transaction sample_sha sample_metadata sample_protocol (sample_plan sample_protocol)
      sample_task sample_manifest sample_proposal [] = Inr r"
    using sample_applied by blast
  show ?thesis using revert_newest_restores_parent [OF r sample_protocol_valid] r by auto
qed


text \<open>A lineage of two transactions, the second depending on the first.\<close>

definition sample_step :: "string \<Rightarrow> string list \<Rightarrow> semantic_transaction" where
  "sample_step i deps = \<lparr>tx_proposal = sample_proposal\<lparr>transaction_id := i, dependency_transaction_ids := deps\<rparr>,
     child_source_digest = zeros, child_compiled_digest = hexdigest 1,
     tx_inverse = sample_inverse, tx_record_digest = zeros\<rparr>"

abbreviation sample_lineage :: "semantic_transaction list" where
  "sample_lineage \<equiv> [sample_step ''tx1'' [], sample_step ''tx2'' [''tx1'']]"

lemma sample_lineage_ok: "lineage sample_lineage"
proof -
  have "lineage ([] @ [sample_step ''tx1'' []])"
    by (rule lineage_snoc [OF lineage_Nil]) (simp_all add: sample_step_def)
  then have "lineage (([] @ [sample_step ''tx1'' []]) @ [sample_step ''tx2'' [''tx1'']])"
    by (rule lineage_snoc) (simp_all add: sample_step_def)
  then show ?thesis by simp
qed

theorem depends_transitively_decides_witness:
  "depends_transitively ''tx1'' sample_lineage [] (sample_step ''tx2'' [''tx1'']) = Inr True"
proof -
  have "(tx_id (sample_step ''tx2'' [''tx1'']), ''tx1'') \<in> dep_rel sample_lineage"
    by (simp add: dep_rel_def sample_step_def)
  then show ?thesis
    using depends_transitively_decides [OF lineage_distinct lineage_acyclic, OF sample_lineage_ok sample_lineage_ok,
        of "sample_step ''tx2'' [''tx1'']" "''tx1''"] by auto
qed

theorem reversion_order_decides_witness:
  "validate_reversion_order (sample_step ''tx1'' []) sample_lineage =
     Inl (DependencyInvalidTransactionError ''dependent or overlapping descendants must be reverted first'')"
proof -
  have "later_than (tx_id (sample_step ''tx1'' [])) sample_lineage = [sample_step ''tx2'' [''tx1'']]"
    by (simp add: later_than_def)
  moreover have "(tx_id (sample_step ''tx2'' [''tx1'']), tx_id (sample_step ''tx1'' [])) \<in> dep_rel sample_lineage"
    by (simp add: dep_rel_def sample_step_def)
  ultimately show ?thesis
    using reversion_order_decides [OF sample_lineage_ok, of "sample_step ''tx1'' []"] by auto
qed

theorem lineage_preserved_witness:
  "\<exists>r. apply_semantic_transaction sample_sha sample_metadata sample_protocol (sample_plan sample_protocol)
      sample_task sample_manifest sample_proposal [] = Inr r \<and> lineage [applied_transaction r]"
  using sample_applied lineage_preserved [OF lineage_Nil] by fastforce


text \<open>C28: an accepted proposal is a fixed point of validation: validating it again returns it unchanged.
  Its budget changes sum to zero, exactly the instruction rewrites are labelled prompt-only, and
  such a rewrite moves no budget.\<close>

theorem proposal_validation_fixpoint:
  assumes "validate_proposal raw = Inr p"
  shows "validate_proposal p = Inr p \<and>
    sum_list (map (\<lambda>c. after_bps c - before_bps c) (share_changes (tx_budget_effect p))) = 0 \<and>
    (tx_treatment p = PromptOnlyControl \<longleftrightarrow> patch_operator (normalized_patch p) = InstructionRewriteOp) \<and>
    (tx_treatment p = PromptOnlyControl \<longrightarrow> share_changes (tx_budget_effect p) = [])"
  using proposal_validator.sound [OF assms] proposal_validator.fixpoint [OF assms]
  by (auto simp: proposal_ok_def labels_ok_def budget_effect_ok_def)

theorem proposal_validation_fixpoint_witness:
  "validate_proposal sample_proposal = Inr sample_proposal"
proof -
  have "validate_proposal (sample_proposal\<lparr>mechanism_hypothesis := '' shorter instructions ''\<rparr>) = Inr sample_proposal"
    by code_simp
  then show ?thesis using proposal_validation_fixpoint by blast
qed

end
