(* ===== verification/Floats.thy ===== *)
theory Floats
  imports Identity
begin

text \<open>
  The arithmetic of Python numbers that the budget code uses: IEEE 754 doubles with rounding to
  nearest, ties to even, conversion of an int to a float, mixed comparison (exact, as CPython
  compares), and the compensated \<open>sum\<close> of floats of CPython 3.12 and later. A finite
  double is an integral multiple of \<open>2^-1074\<close>; \<open>float_units\<close> is that multiple, so sums and products
  are exact integers before they are rounded. The main result: for ints below \<open>2^53\<close> the
  tolerance \<open>1e-12\<close> that the budget adds to a limit never changes the outcome of a comparison.
\<close>

section \<open>Rounding\<close>

definition is_inf :: "pyfloat \<Rightarrow> bool" where
  "is_inf f \<longleftrightarrow> flt_exp f = 2047 \<and> flt_frac f = 0"

definition is_finite :: "pyfloat \<Rightarrow> bool" where
  "is_finite f \<longleftrightarrow> flt_exp f \<noteq> 2047"

definition float_magnitude :: "pyfloat \<Rightarrow> nat" where
  "float_magnitude f =
     (if flt_exp f = 0 then unat (flt_frac f) else (2 ^ 52 + unat (flt_frac f)) * 2 ^ (unat (flt_exp f) - 1))"

definition float_units :: "pyfloat \<Rightarrow> int" where
  "float_units f = (if flt_sign f then - int (float_magnitude f) else int (float_magnitude f))"

fun bit_len :: "nat \<Rightarrow> nat" where
  "bit_len n = (if n = 0 then 0 else Suc (bit_len (n div 2)))"

declare bit_len.simps [simp del]

text \<open>Round to a multiple of \<open>2^s\<close>, ties to even, where \<open>s\<close> leaves 53 significant bits and is at
  least \<open>k\<close>.\<close>

definition round_shift :: "nat \<Rightarrow> nat \<Rightarrow> nat" where
  "round_shift k n = max k (bit_len n - 53)"

definition round_at :: "nat \<Rightarrow> nat \<Rightarrow> nat" where
  "round_at s n = (let q = n div 2 ^ s; r = n mod 2 ^ s in
     (if 2 * r > 2 ^ s \<or> (2 * r = 2 ^ s \<and> odd q) then Suc q else q) * 2 ^ s)"

definition float_infinity :: "bool \<Rightarrow> pyfloat" where
  "float_infinity sg = PyFloat sg 2047 0"

definition float_nan :: pyfloat where
  "float_nan = PyFloat False 2047 (2 ^ 51)"

text \<open>The double of a magnitude that has at most 53 significant bits.\<close>

definition pack_float :: "bool \<Rightarrow> nat \<Rightarrow> pyfloat" where
  "pack_float sg m =
     (if m < 2 ^ 52 then PyFloat sg 0 (of_nat m)
      else let e = bit_len m - 53 in
        if 2047 \<le> Suc e then float_infinity sg
        else PyFloat sg (of_nat (Suc e)) (of_nat (m div 2 ^ e - 2 ^ 52)))"

definition of_units :: "int \<Rightarrow> pyfloat" where
  "of_units i = pack_float (i < 0) (round_at (round_shift 0 (nat \<bar>i\<bar>)) (nat \<bar>i\<bar>))"

section \<open>Arithmetic\<close>

definition float_neg :: "pyfloat \<Rightarrow> pyfloat" where
  "float_neg f = PyFloat (\<not> flt_sign f) (flt_exp f) (flt_frac f)"

definition float_abs :: "pyfloat \<Rightarrow> pyfloat" where
  "float_abs f = PyFloat False (flt_exp f) (flt_frac f)"

definition float_add :: "pyfloat \<Rightarrow> pyfloat \<Rightarrow> pyfloat" where
  "float_add a b =
     (if is_nan a \<or> is_nan b then float_nan
      else if is_inf a then if is_inf b \<and> flt_sign a \<noteq> flt_sign b then float_nan else a
      else if is_inf b then b
      else let s = float_units a + float_units b in
        if s = 0 then PyFloat (flt_sign a \<and> flt_sign b) 0 0 else of_units s)"

definition float_sub :: "pyfloat \<Rightarrow> pyfloat \<Rightarrow> pyfloat" where
  "float_sub a b = float_add a (float_neg b)"

definition float_mul :: "pyfloat \<Rightarrow> pyfloat \<Rightarrow> pyfloat" where
  "float_mul a b = (let sg = (flt_sign a \<noteq> flt_sign b) in
     if is_nan a \<or> is_nan b then float_nan
     else if is_inf a \<or> is_inf b then
       if float_magnitude a = 0 \<or> float_magnitude b = 0 then float_nan else float_infinity sg
     else let n = float_magnitude a * float_magnitude b in
       pack_float sg (round_at (round_shift 1074 n) n div 2 ^ 1074))"

definition int_to_float :: "int \<Rightarrow> pyfloat res" where
  "int_to_float i = (let f = of_units (i * 2 ^ 1074) in
     if is_inf f then Inl (OverflowError ''int too large to convert to float'') else Inr f)"

text \<open>\<open>int(x)\<close> and \<open>math.ceil(x)\<close>.\<close>

definition require_finite_float :: "pyfloat \<Rightarrow> unit res" where
  "require_finite_float f =
     (if is_nan f then Inl (ValueError ''cannot convert float NaN to integer'')
      else if is_inf f then Inl (OverflowError ''cannot convert float infinity to integer'') else Inr ())"

definition float_trunc :: "pyfloat \<Rightarrow> int res" where
  "float_trunc f = thenE (require_finite_float f)
     (Inr ((if flt_sign f then - 1 else 1) * int (float_magnitude f div 2 ^ 1074)))"

definition float_ceil :: "pyfloat \<Rightarrow> int res" where
  "float_ceil f = thenE (require_finite_float f) (Inr (- ((- float_units f) div 2 ^ 1074)))"

text \<open>The correctly rounded quotient of two naturals, with two guard bits and a sticky bit; a float
  quotient is that of the magnitudes.\<close>

definition ratio_float :: "bool \<Rightarrow> nat \<Rightarrow> nat \<Rightarrow> pyfloat" where
  "ratio_float sg n d = (let q = n * 2 ^ 1076 div d;
       r = (if d dvd n * 2 ^ 1076 \<or> odd q then q else Suc q)
     in pack_float sg (round_at (round_shift 2 r) r div 4))"

definition float_div :: "pyfloat \<Rightarrow> pyfloat \<Rightarrow> pyfloat res" where
  "float_div a b = (let sg = (flt_sign a \<noteq> flt_sign b) in
     if is_finite b \<and> float_magnitude b = 0 then Inl (ZeroDivisionError ''division by zero'')
     else if is_nan a \<or> is_nan b \<or> is_inf a \<and> is_inf b then Inr float_nan
     else if is_inf a then Inr (float_infinity sg)
     else if is_inf b then Inr (PyFloat sg 0 0)
     else Inr (ratio_float sg (float_magnitude a) (float_magnitude b)))"

definition int_div :: "int \<Rightarrow> int \<Rightarrow> pyfloat res" where
  "int_div a b =
     (if b = 0 then Inl (ZeroDivisionError ''division by zero'')
      else let f = ratio_float ((a < 0) \<noteq> (b < 0)) (nat \<bar>a\<bar>) (nat \<bar>b\<bar>) in
        if is_inf f then Inl (OverflowError ''integer division result too large for a float'') else Inr f)"

definition float_floor :: "pyfloat \<Rightarrow> int res" where
  "float_floor f = thenE (require_finite_float f) (Inr (float_units f div 2 ^ 1074))"

section \<open>Numbers\<close>

datatype pynum = NInt int | NFloat pyfloat

fun num_float :: "pynum \<Rightarrow> pyfloat res" where
  "num_float (NInt i) = int_to_float i"
| "num_float (NFloat f) = Inr f"

fun num_add :: "pynum \<Rightarrow> pynum \<Rightarrow> pynum res" where
  "num_add (NInt a) (NInt b) = Inr (NInt (a + b))"
| "num_add a b = bindE (num_float a) (\<lambda>x. bindE (num_float b) (\<lambda>y. Inr (NFloat (float_add x y))))"

fun num_sub :: "pynum \<Rightarrow> pynum \<Rightarrow> pynum res" where
  "num_sub (NInt a) (NInt b) = Inr (NInt (a - b))"
| "num_sub a b = bindE (num_float a) (\<lambda>x. bindE (num_float b) (\<lambda>y. Inr (NFloat (float_sub x y))))"

fun num_lt :: "pynum \<Rightarrow> pynum \<Rightarrow> bool" where
  "num_lt (NInt a) (NInt b) \<longleftrightarrow> a < b"
| "num_lt (NInt a) (NFloat f) \<longleftrightarrow> \<not> is_nan f \<and> (if is_inf f then \<not> flt_sign f else a * 2 ^ 1074 < float_units f)"
| "num_lt (NFloat f) (NInt a) \<longleftrightarrow> \<not> is_nan f \<and> (if is_inf f then flt_sign f else float_units f < a * 2 ^ 1074)"
| "num_lt (NFloat f) (NFloat g) \<longleftrightarrow> float_lt f g"

fun num_le :: "pynum \<Rightarrow> pynum \<Rightarrow> bool" where
  "num_le (NInt a) (NInt b) \<longleftrightarrow> a \<le> b"
| "num_le (NInt a) (NFloat f) \<longleftrightarrow> \<not> is_nan f \<and> (if is_inf f then \<not> flt_sign f else a * 2 ^ 1074 \<le> float_units f)"
| "num_le (NFloat f) (NInt a) \<longleftrightarrow> \<not> is_nan f \<and> (if is_inf f then flt_sign f else float_units f \<le> a * 2 ^ 1074)"
| "num_le (NFloat f) (NFloat g) \<longleftrightarrow> float_le f g"

text \<open>\<open>max(a, b)\<close> keeps the first unless the second is greater.\<close>

definition num_max :: "pynum \<Rightarrow> pynum \<Rightarrow> pynum" where
  "num_max a b = (if num_lt a b then b else a)"

text \<open>\<open>sum\<close> of floats: Neumaier's compensated summation.\<close>

fun compensated_sum :: "pyfloat \<Rightarrow> pyfloat \<Rightarrow> pyfloat list \<Rightarrow> pyfloat" where
  "compensated_sum f c [] = (if is_finite c \<and> float_magnitude c \<noteq> 0 then float_add f c else f)"
| "compensated_sum f c (x # xs) =
     (let t = float_add f x;
          d = (if float_le (float_abs x) (float_abs f) then float_add (float_sub f t) x
               else float_add (float_sub x t) f)
      in compensated_sum t (float_add c d) xs)"

fun float_sum :: "pyfloat list \<Rightarrow> pynum" where
  "float_sum [] = NInt 0"
| "float_sum (x # xs) = NFloat (compensated_sum (float_add float_zero x) float_zero xs)"

text \<open>The tolerance \<open>1e-12\<close>.\<close>

definition float_tolerance :: pyfloat where
  "float_tolerance = PyFloat False 983 0x19799812DEA11"



section \<open>Rounding is close\<close>

lemma bit_len_0 [simp]: "bit_len 0 = 0"
  by (simp add: bit_len.simps)

lemma bit_len_bounds: "n < 2 ^ bit_len n" "n > 0 \<Longrightarrow> 2 ^ (bit_len n - 1) \<le> n"
proof -
  have "n < 2 ^ bit_len n \<and> (n > 0 \<longrightarrow> 2 ^ bit_len n \<le> 2 * n)" for n
  proof (induction n rule: bit_len.induct)
    case (1 n)
    show ?case
    proof (cases "n = 0")
      case False
      then have "bit_len n = Suc (bit_len (n div 2))" by (subst bit_len.simps) simp
      moreover have "n div 2 < 2 ^ bit_len (n div 2)" using "1.IH" False by blast
      moreover have "2 ^ bit_len (n div 2) \<le> 2 * (n div 2) \<or> n = 1" using "1.IH" False by fastforce
      ultimately show ?thesis by auto
    qed simp
  qed
  then show "n < 2 ^ bit_len n" "n > 0 \<Longrightarrow> 2 ^ (bit_len n - 1) \<le> n"
    by (auto simp: power_diff)
      (metis One_nat_def Suc_pred bit_len.elims mult_le_cancel1 nat_0_less_mult_iff not_gr_zero pos2 power_Suc power_0 zero_less_Suc)
qed

lemma bit_len_le: "n < 2 ^ k \<Longrightarrow> bit_len n \<le> k"
proof (rule ccontr)
  assume n: "n < 2 ^ k" and "\<not> bit_len n \<le> k"
  then have "n > 0" "k \<le> bit_len n - 1" by (auto intro: gr0I)
  then have "(2::nat) ^ k \<le> n" using bit_len_bounds(2) [of n] power_increasing [of k "bit_len n - 1" "2::nat"] by linarith
  with n show False by simp
qed

lemma bit_len_ge: "2 ^ k \<le> n \<Longrightarrow> k < bit_len n"
  using bit_len_bounds(1) [of n] by (metis leD le_less_trans linorder_not_less power_increasing_iff one_less_numeral_iff semiring_norm(76))

lemma round_at_error: "round_at s n \<le> n + 2 ^ (s - 1)" "s = 0 \<Longrightarrow> round_at s n = n"
proof -
  have split: "n = n div 2 ^ s * 2 ^ s + n mod 2 ^ s" by (rule div_mult_mod_eq [symmetric])
  show "s = 0 \<Longrightarrow> round_at s n = n" by (simp add: round_at_def Let_def)
  show "round_at s n \<le> n + 2 ^ (s - 1)"
  proof (cases "2 * (n mod 2 ^ s) \<ge> 2 ^ s")
    case True
    then have "2 ^ s \<le> n mod 2 ^ s + 2 ^ (s - 1)" by (cases s) auto
    moreover have "round_at s n \<le> Suc (n div 2 ^ s) * 2 ^ s" by (simp add: round_at_def Let_def)
    ultimately show ?thesis using split by simp
  next
    case False
    then have "round_at s n = n div 2 ^ s * 2 ^ s" by (simp add: round_at_def Let_def)
    with split show ?thesis by linarith
  qed
qed

lemma round_at_ge: "k \<le> n \<Longrightarrow> 2 ^ s dvd k \<Longrightarrow> k \<le> round_at s n"
proof -
  assume k: "k \<le> n" "2 ^ s dvd k"
  then obtain q where q: "k = q * 2 ^ s" by (metis dvdE mult.commute)
  then have "q \<le> n div 2 ^ s" using k(1) by (metis div_le_mono nonzero_mult_div_cancel_right power_not_zero zero_neq_numeral)
  then have "k \<le> n div 2 ^ s * 2 ^ s" using q by simp
  also have "\<dots> \<le> round_at s n" by (simp add: round_at_def Let_def)
  finally show ?thesis .
qed

lemma round_at_dvd: "2 ^ s dvd round_at s n"
  by (simp add: round_at_def Let_def)

lemma round_at_bound: "n < 2 ^ (53 + s) \<Longrightarrow> round_at s n \<le> 2 ^ (53 + s)"
proof -
  assume "n < 2 ^ (53 + s)"
  then have "n div 2 ^ s < 2 ^ 53" by (simp add: less_mult_imp_div_less power_add)
  then have "(if b then Suc (n div 2 ^ s) else n div 2 ^ s) * 2 ^ s \<le> 2 ^ 53 * 2 ^ s" for b
    by (intro mult_right_mono) auto
  then show ?thesis by (simp add: round_at_def Let_def power_add)
qed

text \<open>A magnitude with at most 53 significant bits survives packing.\<close>

lemma pack_units:
  assumes "2 ^ (bit_len m - 53) dvd m" and "m < 2 ^ 2098"
  shows "float_magnitude (pack_float sg m) = m" and "flt_sign (pack_float sg m) = sg"
    and "is_finite (pack_float sg m)"
proof -
  let ?e = "bit_len m - 53"
  have "float_magnitude (pack_float sg m) = m \<and> flt_sign (pack_float sg m) = sg \<and> is_finite (pack_float sg m)"
  proof (cases "m < 2 ^ 52")
    case True
    then show ?thesis by (simp add: pack_float_def float_magnitude_def is_finite_def unat_of_nat)
  next
    case False
    then have len: "53 \<le> bit_len m" using bit_len_ge [of 52 m] by simp
    have "bit_len m \<le> 2098" using assms(2) by (rule bit_len_le)
    then have e: "Suc ?e < 2047" by simp
    obtain q where q: "m = 2 ^ ?e * q" using assms(1) by (rule dvdE)
    have "bit_len m = ?e + 53" "bit_len m - 1 = ?e + 52" using len by simp_all
    then have pw: "(2::nat) ^ bit_len m = 2 ^ ?e * 2 ^ 53" "(2::nat) ^ (bit_len m - 1) = 2 ^ ?e * 2 ^ 52"
      by (metis power_add)+
    have "m < 2 ^ bit_len m" "2 ^ (bit_len m - 1) \<le> m" using bit_len_bounds [of m] False by auto
    then have qb: "q < 2 ^ 53" "2 ^ 52 \<le> q" using q unfolding pw by (metis mult_less_cancel1, metis mult_le_cancel1 pos2 zero_less_power)
    have u: "unat (of_nat (Suc ?e) :: 11 word) = Suc ?e" using e by (simp only: unat_of_nat) simp
    have "2 ^ ?e * q div 2 ^ ?e = q" by simp
    then have dq: "m div 2 ^ ?e = q" by (metis q)
    have f: "unat (of_nat (m div 2 ^ ?e - 2 ^ 52) :: 52 word) = m div 2 ^ ?e - 2 ^ 52"
      unfolding dq unat_of_nat using qb by simp
    have "unat (2047 :: 11 word) = 2047" by simp
    then have nz: "(of_nat (Suc ?e) :: 11 word) \<noteq> 0" "(of_nat (Suc ?e) :: 11 word) \<noteq> 2047"
      using u e by (metis unat_0 nat.distinct(1), metis nat_neq_iff)
    have m: "pack_float sg m = PyFloat sg (of_nat (Suc ?e)) (of_nat (m div 2 ^ ?e - 2 ^ 52))"
      using False e by (simp add: pack_float_def Let_def)
    show ?thesis unfolding m float_magnitude_def is_finite_def pyfloat.sel u f
      using nz qb(2) q [symmetric] by (simp add: dq mult.commute)
  qed
  then show "float_magnitude (pack_float sg m) = m" "flt_sign (pack_float sg m) = sg" "is_finite (pack_float sg m)"
    by simp_all
qed


lemma of_units_exact:
  assumes "0 \<le> i" and "nat i < 2 ^ 2097"
  shows "float_units (of_units i) = int (round_at (round_shift 0 (nat i)) (nat i))"
    and "is_finite (of_units i)" and "\<not> flt_sign (of_units i)"
proof -
  let ?n = "nat i"
  define s where "s = round_shift 0 ?n"
  define m where "m = round_at s ?n"
  have "bit_len ?n \<le> 53 + s" by (simp add: s_def round_shift_def)
  then have "(2::nat) ^ bit_len ?n \<le> 2 ^ (53 + s)" by (rule power_increasing) simp
  with bit_len_bounds(1) [of ?n] have n: "?n < 2 ^ (53 + s)" by (rule less_le_trans)
  then have mb: "m \<le> 2 ^ (53 + s)" unfolding m_def by (rule round_at_bound)
  have "bit_len ?n \<le> 2097" using assms(2) by (rule bit_len_le)
  then have s: "s \<le> 2044" by (simp add: s_def round_shift_def)
  then have big: "(2::nat) ^ (53 + s) < 2 ^ 2098" by (intro power_strict_increasing) simp_all
  have dvd: "2 ^ (bit_len m - 53) dvd m"
  proof (cases "m = 2 ^ (53 + s)")
    case True
    have "bit_len m \<le> 54 + s" unfolding True by (rule bit_len_le) simp
    then show ?thesis unfolding True by (intro le_imp_power_dvd) simp
  next
    case False
    then have "bit_len m \<le> 53 + s" using mb by (intro bit_len_le) simp
    then have "(2::nat) ^ (bit_len m - 53) dvd 2 ^ s" by (intro le_imp_power_dvd) simp
    also have "2 ^ s dvd m" unfolding m_def by (rule round_at_dvd)
    finally show ?thesis .
  qed
  note pk = pack_units [OF dvd le_less_trans [OF mb big], of False]
  have "of_units i = pack_float False m" using assms(1) by (simp add: of_units_def m_def s_def)
  then show "float_units (of_units i) = int (round_at (round_shift 0 ?n) ?n)" "is_finite (of_units i)"
    "\<not> flt_sign (of_units i)"
    using pk by (simp_all add: float_units_def m_def s_def)
qed

lemma finite_float: "is_finite f \<Longrightarrow> \<not> is_nan f \<and> \<not> is_inf f"
  by (auto simp: is_finite_def is_nan_def is_inf_def)

lemma small_int_float:
  assumes "0 \<le> i" and "i < 2 ^ 53"
  shows "\<exists>f. int_to_float i = Inr f \<and> is_finite f \<and> float_units f = i * 2 ^ 1074"
proof -
  let ?n = "nat (i * 2 ^ 1074)"
  have n: "?n = nat i * 2 ^ 1074" using assms(1) by (simp add: nat_mult_distrib)
  have i: "nat i < 2 ^ 53" using assms by simp
  then have lt: "?n < 2 ^ (53 + 1074)" unfolding n power_add by (rule mult_strict_right_mono) simp
  also have "\<dots> \<le> (2::nat) ^ 2097" by (rule power_increasing) simp_all
  finally have big: "?n < 2 ^ 2097" .
  have "bit_len ?n \<le> 53 + 1074" using lt by (rule bit_len_le)
  then have "2 ^ round_shift 0 ?n dvd (2::nat) ^ 1074" by (intro le_imp_power_dvd) (simp add: round_shift_def)
  then have "2 ^ round_shift 0 ?n dvd ?n" unfolding n by (rule dvd_mult)
  then have "round_at (round_shift 0 ?n) ?n = ?n" by (simp add: round_at_def Let_def)
  then have u: "float_units (of_units (i * 2 ^ 1074)) = i * 2 ^ 1074" "is_finite (of_units (i * 2 ^ 1074))"
    using of_units_exact [OF _ big] assms(1) by (simp_all del: of_nat_numeral)
  then show ?thesis using finite_float by (simp add: int_to_float_def Let_def)
qed

lemma tolerance_units: "0 < float_units float_tolerance" "float_units float_tolerance < 2 ^ 1073"
    "is_finite float_tolerance"
  by (simp_all add: float_units_def float_magnitude_def float_tolerance_def is_finite_def)

text \<open>Adding the tolerance to a small int stays strictly below the next int.\<close>

lemma int_tolerance:
  assumes "0 \<le> i" and "i < 2 ^ 53"
  shows "\<exists>f. num_add (NInt i) (NFloat float_tolerance) = Inr f \<and> (\<forall>q. num_lt f (NInt q) \<longleftrightarrow> i < q)"
proof -
  obtain g where g: "int_to_float i = Inr g" "is_finite g" "float_units g = i * 2 ^ 1074"
    using small_int_float [OF assms] by blast
  define N where "N = i * 2 ^ 1074 + float_units float_tolerance"
  have N: "0 < N" "N < i * 2 ^ 1074 + 2 ^ 1073"
    using assms(1) tolerance_units by (simp_all add: N_def add_nonneg_pos)
  have "i * 2 ^ 1074 + 2 ^ 1073 \<le> (i + 1) * 2 ^ 1074" by (simp add: distrib_right)
  also have "\<dots> \<le> 2 ^ 53 * 2 ^ 1074" using assms(2) by (intro mult_right_mono) simp_all
  finally have "N < 2 ^ (53 + 1074)" using N(2) by (simp only: power_add)
  then have lt: "nat N < 2 ^ (53 + 1074)" using N(1) by (simp add: nat_less_iff)
  also have "\<dots> \<le> (2::nat) ^ 2097" by (rule power_increasing) simp_all
  finally have big: "nat N < 2 ^ 2097" .
  define s where "s = round_shift 0 (nat N)"
  have "bit_len (nat N) \<le> 53 + 1074" using lt by (rule bit_len_le)
  then have s: "s \<le> 1074" by (simp add: s_def round_shift_def)
  note u = of_units_exact [OF less_imp_le [OF N(1)] big, folded s_def]
  have "round_at s (nat N) \<le> nat N + 2 ^ (s - 1)" by (rule round_at_error)
  also have "(2::nat) ^ (s - 1) \<le> 2 ^ 1073" using s by (intro power_increasing) simp_all
  finally have "int (round_at s (nat N)) \<le> N + 2 ^ 1073" using N(1) by simp
  then have hi: "float_units (of_units N) < (i + 1) * 2 ^ 1074"
    unfolding u(1) using N(2) by (simp add: distrib_right)
  have "(2::nat) ^ s dvd nat i * 2 ^ 1074" using s by (intro dvd_mult le_imp_power_dvd)
  moreover have "nat i * 2 ^ 1074 \<le> nat N"
    using assms(1) tolerance_units(1) by (simp add: N_def nat_le_iff nat_mult_distrib le_nat_iff)
  ultimately have "nat i * 2 ^ 1074 \<le> round_at s (nat N)" by (intro round_at_ge)
  then have lo: "i * 2 ^ 1074 \<le> float_units (of_units N)"
    unfolding u(1) using assms(1) by (simp add: nat_mult_distrib flip: of_nat_le_iff)
  have "num_lt (NFloat (of_units N)) (NInt q) \<longleftrightarrow> i < q" for q
  proof -
    have "num_lt (NFloat (of_units N)) (NInt q) \<longleftrightarrow> float_units (of_units N) < q * 2 ^ 1074"
      using finite_float [OF u(2)] by simp
    also have "\<dots> \<longleftrightarrow> i < q"
    proof
      assume "float_units (of_units N) < q * 2 ^ 1074"
      with lo have "i * 2 ^ 1074 < q * 2 ^ 1074" by (rule le_less_trans)
      then show "i < q" by simp
    next
      assume "i < q"
      then have "(i + 1) * 2 ^ 1074 \<le> q * 2 ^ 1074" by (intro mult_right_mono) simp_all
      with hi show "float_units (of_units N) < q * 2 ^ 1074" by (rule less_le_trans)
    qed
    finally show ?thesis .
  qed
  moreover have "float_add g float_tolerance = of_units N"
    using N(1) finite_float [OF g(2)] finite_float [OF tolerance_units(3)] g(3)
    by (simp add: float_add_def Let_def N_def)
  ultimately show ?thesis using g(1) by simp
qed

end
