(* ===== verification/BudgetLedger.thy ===== *)
theory BudgetLedger
  imports Epochs Floats
begin

text \<open>
  The aggregate budget ledger (\<open>runtime/kernel/composite_budget.py\<close>): capacity is reserved before a
  provider or tool call is dispatched and settled once when it ends. Every public method holds the
  ledger's lock, so a run is a sequence of whole operations; an operation here takes the ledger
  and the clock reading it makes and returns its result with the new ledger. Token and call
  counts are ints, costs and latencies are doubles. The results: every count is an escrow account
  whose spent and held amounts stay within the ceiling unless a violation is recorded, a
  recorded violation or an unknown usage stops all further reservations, each reservation is settled at
  most once, and a clean ledger whose reservations are settled is reconciled.
\<close>

section \<open>Usage reports\<close>

datatype cost_status = KnownCost | EstimatedCost | UnknownCost

datatype usage_status = KnownUsage | EstimatedUsage | UnknownUsage

datatype reservation_kind = ProviderKind | ToolKind

fun kind_name :: "reservation_kind \<Rightarrow> string" where
  "kind_name ProviderKind = ''provider''"
| "kind_name ToolKind = ''tool''"

record usage_report =
  ur_usage_status :: usage_status
  ur_input_tokens :: "int option"
  ur_output_tokens :: "int option"
  ur_cached_tokens :: "int option"
  ur_cache_write_tokens :: "int option"
  ur_cost_status :: cost_status
  ur_cost_usd :: "pyfloat option"
  ur_response_id :: "string option"

definition require_count :: "int option \<Rightarrow> unit res" where
  "require_count v = (case v of None \<Rightarrow> Inr ()
     | Some i \<Rightarrow> raise_if (i < 0) (ValueError ''greater_than_equal''))"

text \<open>A float field with \<open>ge=0.0\<close> of a model with \<open>allow_inf_nan=False\<close>.\<close>

definition require_cost :: "pyfloat \<Rightarrow> unit res" where
  "require_cost f =
     thenE (raise_if (\<not> is_finite f) (ValueError ''finite_number''))
     (raise_if (float_lt f float_zero) (ValueError ''greater_than_equal''))"

definition validate_status_payload :: "usage_report \<Rightarrow> usage_report res" where
  "validate_status_payload u =
     (let u = (if ur_usage_status u \<noteq> UnknownUsage \<and> ur_cache_write_tokens u = None
               then u\<lparr>ur_cache_write_tokens := Some 0\<rparr> else u);
          tokens = [ur_input_tokens u, ur_output_tokens u, ur_cached_tokens u, ur_cache_write_tokens u]
      in thenE (raise_if (ur_usage_status u \<noteq> UnknownUsage \<and> None \<in> set tokens)
           (ValueError ''known or estimated usage requires every token count'')) (
         thenE (raise_if (ur_usage_status u \<noteq> UnknownUsage \<and>
             (case (ur_input_tokens u, ur_cached_tokens u, ur_cache_write_tokens u) of
                (Some i, Some c, Some w) \<Rightarrow> i < c + w | _ \<Rightarrow> False))
           (ValueError ''cached and cache-write tokens must be input-token subcategories'')) (
         thenE (raise_if (ur_cost_status u = UnknownCost \<and> ur_cost_usd u \<noteq> None)
           (ValueError ''unknown cost must not be represented by a numeric value'')) (
         thenE (raise_if (ur_cost_status u \<noteq> UnknownCost \<and> ur_cost_usd u = None)
           (ValueError ''known or estimated cost requires cost_usd'')) (Inr u)))))"

definition validate_usage_report :: "usage_report \<Rightarrow> usage_report res" where
  "validate_usage_report u = validated (
     thenE (forE require_count [ur_input_tokens u, ur_output_tokens u, ur_cached_tokens u, ur_cache_write_tokens u]) (
     thenE (case ur_cost_usd u of None \<Rightarrow> Inr () | Some c \<Rightarrow> require_cost c)
     (validate_status_payload u)))"

definition unknown_usage :: usage_report where
  "unknown_usage = \<lparr>ur_usage_status = UnknownUsage, ur_input_tokens = None, ur_output_tokens = None,
     ur_cached_tokens = None, ur_cache_write_tokens = None, ur_cost_status = UnknownCost,
     ur_cost_usd = None, ur_response_id = None\<rparr>"

section \<open>The ledger\<close>

text \<open>The counted fields that the code addresses by name in \<open>getattr\<close> and \<open>setattr\<close>.\<close>

datatype metric = ModelCalls | InputTokens | OutputTokens | CachedTokens | CacheWriteTokens
  | ToolCalls | ToolOutputBytes | Retries

fun metric_name :: "metric \<Rightarrow> string" where
  "metric_name ModelCalls = ''model_calls''"
| "metric_name InputTokens = ''input_tokens''"
| "metric_name OutputTokens = ''output_tokens''"
| "metric_name CachedTokens = ''cached_tokens''"
| "metric_name CacheWriteTokens = ''cache_write_tokens''"
| "metric_name ToolCalls = ''tool_calls''"
| "metric_name ToolOutputBytes = ''tool_output_bytes''"
| "metric_name Retries = ''retries''"

record budget_reservation =
  reservation_id :: string
  res_kind :: reservation_kind
  res_model_calls :: int
  res_input_tokens :: int
  res_output_tokens :: int
  res_cached_tokens :: int
  res_cache_write_tokens :: int
  res_cost :: pyfloat
  res_cost_status :: "cost_status option"
  res_tool_calls :: int
  res_tool_output_bytes :: int
  res_retries :: int

fun res_field :: "metric \<Rightarrow> budget_reservation \<Rightarrow> int" where
  "res_field ModelCalls r = res_model_calls r"
| "res_field InputTokens r = res_input_tokens r"
| "res_field OutputTokens r = res_output_tokens r"
| "res_field CachedTokens r = res_cached_tokens r"
| "res_field CacheWriteTokens r = res_cache_write_tokens r"
| "res_field ToolCalls r = res_tool_calls r"
| "res_field ToolOutputBytes r = res_tool_output_bytes r"
| "res_field Retries r = res_retries r"

record budget_totals =
  t_model_calls :: int
  t_input_tokens :: int
  t_output_tokens :: int
  t_cached_tokens :: int
  t_cache_write_tokens :: int
  t_known_cost :: pyfloat
  t_estimated_cost :: pyfloat
  t_unknown_cost :: int
  t_unknown_usage :: int
  t_tool_calls :: int
  t_tool_output_bytes :: int
  t_retries :: int
  t_latency :: pyfloat

definition zero_totals :: budget_totals where
  "zero_totals = \<lparr>t_model_calls = 0, t_input_tokens = 0, t_output_tokens = 0, t_cached_tokens = 0,
     t_cache_write_tokens = 0, t_known_cost = float_zero, t_estimated_cost = float_zero, t_unknown_cost = 0,
     t_unknown_usage = 0, t_tool_calls = 0, t_tool_output_bytes = 0, t_retries = 0, t_latency = float_zero\<rparr>"

fun total_of :: "metric \<Rightarrow> budget_totals \<Rightarrow> int" where
  "total_of ModelCalls t = t_model_calls t"
| "total_of InputTokens t = t_input_tokens t"
| "total_of OutputTokens t = t_output_tokens t"
| "total_of CachedTokens t = t_cached_tokens t"
| "total_of CacheWriteTokens t = t_cache_write_tokens t"
| "total_of ToolCalls t = t_tool_calls t"
| "total_of ToolOutputBytes t = t_tool_output_bytes t"
| "total_of Retries t = t_retries t"

fun add_total :: "metric \<Rightarrow> int \<Rightarrow> budget_totals \<Rightarrow> budget_totals" where
  "add_total ModelCalls n t = t\<lparr>t_model_calls := t_model_calls t + n\<rparr>"
| "add_total InputTokens n t = t\<lparr>t_input_tokens := t_input_tokens t + n\<rparr>"
| "add_total OutputTokens n t = t\<lparr>t_output_tokens := t_output_tokens t + n\<rparr>"
| "add_total CachedTokens n t = t\<lparr>t_cached_tokens := t_cached_tokens t + n\<rparr>"
| "add_total CacheWriteTokens n t = t\<lparr>t_cache_write_tokens := t_cache_write_tokens t + n\<rparr>"
| "add_total ToolCalls n t = t\<lparr>t_tool_calls := t_tool_calls t + n\<rparr>"
| "add_total ToolOutputBytes n t = t\<lparr>t_tool_output_bytes := t_tool_output_bytes t + n\<rparr>"
| "add_total Retries n t = t\<lparr>t_retries := t_retries t + n\<rparr>"

fun ceiling_of :: "metric \<Rightarrow> task_ceilings \<Rightarrow> int" where
  "ceiling_of ModelCalls c = max_model_calls c"
| "ceiling_of InputTokens c = max_input_tokens c"
| "ceiling_of OutputTokens c = max_output_tokens c"
| "ceiling_of CachedTokens c = max_cached_tokens c"
| "ceiling_of CacheWriteTokens c = max_cache_write_tokens c"
| "ceiling_of ToolCalls c = max_tool_calls c"
| "ceiling_of ToolOutputBytes c = max_tool_output_bytes c"
| "ceiling_of Retries c = max_retries c"

text \<open>\<open>_reservations\<close> is a dict in insertion order, a list of reservations with distinct ids.\<close>

record ledger =
  l_ceilings :: task_ceilings
  started_at :: pyfloat
  totals :: budget_totals
  reservations :: "budget_reservation list"
  sequence_no :: nat
  violations :: "string set"

definition new_ledger :: "task_ceilings \<Rightarrow> pyfloat \<Rightarrow> ledger" where
  "new_ledger c now = \<lparr>l_ceilings = c, started_at = now, totals = zero_totals, reservations = [],
     sequence_no = 0, violations = {}\<rparr>"

section \<open>Time\<close>

definition float_1000 :: pyfloat where
  "float_1000 = of_units (1000 * 2 ^ 1074)"

definition elapsed_ms :: "ledger \<Rightarrow> pyfloat \<Rightarrow> pyfloat" where
  "elapsed_ms l now = (let e = float_mul (float_sub now (started_at l)) float_1000 in
     if float_lt float_zero e then e else float_zero)"

definition wall_time_left :: "ledger \<Rightarrow> pyfloat \<Rightarrow> pynum res" where
  "wall_time_left l now = num_sub (NInt (max_wall_time_ms (l_ceilings l))) (NFloat (elapsed_ms l now))"

fun num_int :: "pynum \<Rightarrow> int res" where
  "num_int (NInt i) = Inr i"
| "num_int (NFloat f) = float_trunc f"

definition remaining_wall_time_ms :: "ledger \<Rightarrow> pyfloat \<Rightarrow> int res" where
  "remaining_wall_time_ms l now =
     bindE (wall_time_left l now) (\<lambda>r. bindE (num_int r) (\<lambda>i. Inr (max 0 i)))"

definition provider_timeout_ms :: "ledger \<Rightarrow> pyfloat \<Rightarrow> int res" where
  "provider_timeout_ms l now =
     bindE (remaining_wall_time_ms l now) (\<lambda>i. Inr (min (provider_deadline_ms (l_ceilings l)) i))"

definition require_time :: "ledger \<Rightarrow> pyfloat \<Rightarrow> unit res" where
  "require_time l now =
     bindE (wall_time_left l now) (\<lambda>r. raise_if (num_le r (NInt 0)) (BudgetExhaustedError ''wall_time_ms''))"

section \<open>Reserving\<close>

definition require_nonnegative :: "string \<Rightarrow> int \<Rightarrow> unit res" where
  "require_nonnegative name v = raise_if (v < 0) (ValueError (name @ '' may not be negative''))"

definition require_nonnegative_float :: "string \<Rightarrow> pyfloat \<Rightarrow> unit res" where
  "require_nonnegative_float name v =
     thenE (raise_if (\<not> is_finite v) (ValueError (name @ '' must be finite'')))
     (raise_if (float_lt v float_zero) (ValueError (name @ '' may not be negative'')))"

definition require_capacity :: "string \<Rightarrow> pynum \<Rightarrow> pynum \<Rightarrow> pynum \<Rightarrow> pynum \<Rightarrow> unit res" where
  "require_capacity name current reserved requested limit =
     bindE (num_sub limit current) (\<lambda>d.
     bindE (num_sub d reserved) (\<lambda>left.
     bindE (num_add (num_max (NInt 0) left) (NFloat float_tolerance)) (\<lambda>bound.
     raise_if (num_lt bound requested) (BudgetExhaustedError name))))"

definition reserved_of :: "metric \<Rightarrow> ledger \<Rightarrow> int" where
  "reserved_of m l = sum_list (map (res_field m) (reservations l))"

definition reserved_cost :: "ledger \<Rightarrow> pynum" where
  "reserved_cost l = float_sum (map res_cost (reservations l))"

definition reserved_known_cost :: "ledger \<Rightarrow> pynum" where
  "reserved_known_cost l =
     float_sum (map res_cost (filter (\<lambda>r. res_cost_status r = Some KnownCost) (reservations l)))"

definition remaining_tool_output_bytes :: "ledger \<Rightarrow> int" where
  "remaining_tool_output_bytes l =
     max 0 (max_tool_output_bytes (l_ceilings l) - t_tool_output_bytes (totals l) - reserved_of ToolOutputBytes l)"

definition next_reservation_id :: "ledger \<Rightarrow> reservation_kind \<Rightarrow> string" where
  "next_reservation_id l k = ''budget.'' @ kind_name k @ ''.'' @ pad6 (Suc (sequence_no l))"

record provider_request =
  rq_input_tokens :: int
  rq_output_tokens :: int
  rq_cached_tokens :: int
  rq_cache_write_tokens :: int
  rq_cost :: pyfloat
  rq_cost_status :: cost_status
  rq_is_retry :: bool

definition check_provider_request :: "provider_request \<Rightarrow> unit res" where
  "check_provider_request q =
     thenE (require_nonnegative ''input_tokens'' (rq_input_tokens q)) (
     thenE (require_nonnegative ''max_output_tokens'' (rq_output_tokens q)) (
     thenE (require_nonnegative ''max_cached_tokens'' (rq_cached_tokens q)) (
     thenE (require_nonnegative ''max_cache_write_tokens'' (rq_cache_write_tokens q)) (
     thenE (require_nonnegative_float ''estimated_cost_usd'' (rq_cost q)) (
     thenE (raise_if (rq_cached_tokens q > rq_input_tokens q \<or> rq_cache_write_tokens q > rq_input_tokens q)
       (ValueError ''cache reservations must not exceed input tokens''))
     (raise_if (rq_cost_status q = UnknownCost)
       (ValueError ''provider calls require a bounded known or estimated cost reservation'')))))))"

definition require_accounting :: "ledger \<Rightarrow> string \<Rightarrow> unit res" where
  "require_accounting l unknown =
     thenE (raise_if (t_unknown_cost (totals l) \<noteq> 0 \<or> t_unknown_usage (totals l) \<noteq> 0) (BudgetExhaustedError unknown))
     (raise_if (violations l \<noteq> {}) (BudgetExhaustedError ''ledger_accounting_invalid''))"

definition require_count_capacity :: "ledger \<Rightarrow> metric \<Rightarrow> int \<Rightarrow> unit res" where
  "require_count_capacity l m requested = require_capacity (metric_name m) (NInt (total_of m (totals l)))
     (NInt (reserved_of m l)) (NInt requested) (NInt (ceiling_of m (l_ceilings l)))"

definition provider_metrics :: "provider_request \<Rightarrow> (metric \<times> int) list" where
  "provider_metrics q = [(ModelCalls, 1), (InputTokens, rq_input_tokens q), (OutputTokens, rq_output_tokens q),
     (CachedTokens, rq_cached_tokens q), (CacheWriteTokens, rq_cache_write_tokens q),
     (Retries, if rq_is_retry q then 1 else 0)]"

definition check_provider_capacity :: "ledger \<Rightarrow> pyfloat \<Rightarrow> provider_request \<Rightarrow> unit res" where
  "check_provider_capacity l now q =
     thenE (require_time l now) (
     thenE (require_accounting l ''provider_accounting_unknown'') (
     thenE (forE (\<lambda>(m, n). require_count_capacity l m n) (provider_metrics q)) (
     thenE (require_capacity ''estimated_cost_usd''
         (NFloat (float_add (t_known_cost (totals l)) (t_estimated_cost (totals l)))) (reserved_cost l)
         (NFloat (rq_cost q)) (NFloat (max_estimated_cost_usd (l_ceilings l)))) (
     if rq_cost_status q = KnownCost then
       require_capacity ''known_cost_usd'' (NFloat (t_known_cost (totals l))) (reserved_known_cost l)
         (NFloat (rq_cost q)) (NFloat (max_known_cost_usd (l_ceilings l)))
     else Inr ()))))"

text \<open>The new id is not a key of the dict (\<open>ledger_ok\<close> below), so storing it appends.\<close>

definition store_reservation :: "ledger \<Rightarrow> budget_reservation \<Rightarrow> budget_reservation res \<times> ledger" where
  "store_reservation l r =
     (Inr r, l\<lparr>reservations := filter (\<lambda>s. reservation_id s \<noteq> reservation_id r) (reservations l) @ [r],
               sequence_no := Suc (sequence_no l)\<rparr>)"

definition reserve_provider_call ::
    "ledger \<Rightarrow> pyfloat \<Rightarrow> provider_request \<Rightarrow> budget_reservation res \<times> ledger" where
  "reserve_provider_call l now q =
     (case thenE (check_provider_request q) (check_provider_capacity l now q) of
        Inl e \<Rightarrow> (Inl e, l)
      | Inr _ \<Rightarrow> store_reservation l
          \<lparr>reservation_id = next_reservation_id l ProviderKind, res_kind = ProviderKind, res_model_calls = 1,
           res_input_tokens = rq_input_tokens q, res_output_tokens = rq_output_tokens q,
           res_cached_tokens = rq_cached_tokens q, res_cache_write_tokens = rq_cache_write_tokens q,
           res_cost = rq_cost q, res_cost_status = Some (rq_cost_status q), res_tool_calls = 0,
           res_tool_output_bytes = 0, res_retries = (if rq_is_retry q then 1 else 0)\<rparr>)"

definition check_tool_capacity :: "ledger \<Rightarrow> pyfloat \<Rightarrow> int \<Rightarrow> unit res" where
  "check_tool_capacity l now max_output_bytes =
     thenE (require_nonnegative ''max_output_bytes'' max_output_bytes) (
     thenE (require_time l now) (
     thenE (require_accounting l ''ledger_accounting_unknown'') (
     thenE (require_count_capacity l ToolCalls 1)
     (require_count_capacity l ToolOutputBytes max_output_bytes))))"

definition reserve_tool_call :: "ledger \<Rightarrow> pyfloat \<Rightarrow> int \<Rightarrow> budget_reservation res \<times> ledger" where
  "reserve_tool_call l now max_output_bytes =
     (case check_tool_capacity l now max_output_bytes of
        Inl e \<Rightarrow> (Inl e, l)
      | Inr _ \<Rightarrow> store_reservation l
          \<lparr>reservation_id = next_reservation_id l ToolKind, res_kind = ToolKind, res_model_calls = 0,
           res_input_tokens = 0, res_output_tokens = 0, res_cached_tokens = 0, res_cache_write_tokens = 0,
           res_cost = float_zero, res_cost_status = None, res_tool_calls = 1,
           res_tool_output_bytes = max_output_bytes, res_retries = 0\<rparr>)"



section \<open>Snapshots\<close>

record budget_snapshot =
  s_totals :: budget_totals
  s_elapsed_ms :: int
  s_remaining_ms :: int
  s_deadline_exceeded :: bool
  s_active_reservations :: nat
  s_violations :: "string list"
  s_healthy :: bool
  s_reconciled :: bool
  s_promotion_eligible :: bool

definition validate_snapshot :: "budget_snapshot \<Rightarrow> budget_snapshot res" where
  "validate_snapshot s = validated (let t = s_totals s in
     thenE (forE (\<lambda>i. require_count (Some i)) [t_model_calls t, t_input_tokens t, t_output_tokens t, t_cached_tokens t,
       t_cache_write_tokens t, t_unknown_cost t, t_unknown_usage t, t_tool_calls t, t_tool_output_bytes t,
       t_retries t, s_elapsed_ms s, s_remaining_ms s]) (
     thenE (forE require_cost [t_known_cost t, t_estimated_cost t, t_latency t]) (Inr s)))"

definition accounting_unknown :: "ledger \<Rightarrow> bool" where
  "accounting_unknown l \<longleftrightarrow> t_unknown_cost (totals l) \<noteq> 0 \<or> t_unknown_usage (totals l) \<noteq> 0"

definition snapshot :: "ledger \<Rightarrow> pyfloat \<Rightarrow> budget_snapshot res" where
  "snapshot l now =
     (let spent = elapsed_ms l now; wall = NInt (max_wall_time_ms (l_ceilings l));
          healthy = (violations l = {} \<and> \<not> accounting_unknown l);
          late = num_le wall (NFloat spent)
      in bindE (float_ceil spent) (\<lambda>ceil_ms.
         bindE (remaining_wall_time_ms l now) (\<lambda>left.
         validate_snapshot \<lparr>s_totals = totals l, s_elapsed_ms = ceil_ms, s_remaining_ms = left,
           s_deadline_exceeded = late, s_active_reservations = length (reservations l),
           s_violations = sorted_list_of_set (violations l), s_healthy = healthy,
           s_reconciled = (reservations l = [] \<and> \<not> accounting_unknown l),
           s_promotion_eligible = (healthy \<and> \<not> late)\<rparr>)))"

section \<open>Settling\<close>

text \<open>\<open>==\<close> of two reservations: the costs are compared as floats.\<close>

definition same_reservation :: "budget_reservation \<Rightarrow> budget_reservation \<Rightarrow> bool" where
  "same_reservation a b \<longleftrightarrow> a\<lparr>res_cost := float_zero\<rparr> = b\<lparr>res_cost := float_zero\<rparr> \<and>
     float_le (res_cost a) (res_cost b) \<and> float_le (res_cost b) (res_cost a)"

definition pop_reservation ::
    "ledger \<Rightarrow> budget_reservation \<Rightarrow> reservation_kind \<Rightarrow> budget_reservation res \<times> ledger" where
  "pop_reservation l r kind =
     (case find (\<lambda>s. reservation_id s = reservation_id r) (reservations l) of
        None \<Rightarrow> (Inl (ValueError ''unknown or finalized budget reservation''), l)
      | Some stored \<Rightarrow>
          if \<not> same_reservation stored r \<or> res_kind stored \<noteq> kind
          then (Inl (ValueError ''budget reservation does not match ledger state''), l)
          else (Inr stored, l\<lparr>reservations := filter (\<lambda>s. reservation_id s \<noteq> reservation_id r) (reservations l)\<rparr>))"

definition cancel_reservation :: "ledger \<Rightarrow> pyfloat \<Rightarrow> budget_reservation \<Rightarrow> budget_snapshot res \<times> ledger" where
  "cancel_reservation l now r =
     (case pop_reservation l r (res_kind r) of
        (Inl e, l') \<Rightarrow> (Inl e, l')
      | (Inr _, l') \<Rightarrow> (snapshot l' now, l'))"

fun observed_tokens :: "usage_report \<Rightarrow> (metric \<times> int option) list" where
  "observed_tokens u = [(InputTokens, ur_input_tokens u), (OutputTokens, ur_output_tokens u),
     (CachedTokens, ur_cached_tokens u), (CacheWriteTokens, ur_cache_write_tokens u)]"

fun observe_token :: "budget_reservation \<Rightarrow> metric \<times> int option \<Rightarrow> ledger \<Rightarrow> ledger" where
  "observe_token stored (m, None) l = l"
| "observe_token stored (m, Some observed) l =
     l\<lparr>totals := add_total m observed (totals l),
       violations := (if observed > res_field m stored
         then insert (metric_name m @ ''_reservation_exceeded'') (violations l) else violations l)\<rparr>"

definition account_usage :: "budget_reservation \<Rightarrow> usage_report \<Rightarrow> ledger \<Rightarrow> ledger" where
  "account_usage stored u l =
     (let l = l\<lparr>totals := add_total ModelCalls 1 (totals l)\<rparr>;
          l = fold (observe_token stored) (observed_tokens u) l;
          l = (if ur_usage_status u = UnknownUsage
               then l\<lparr>totals := (totals l)\<lparr>t_unknown_usage := t_unknown_usage (totals l) + 1\<rparr>\<rparr> else l);
          cost = (case ur_cost_usd u of None \<Rightarrow> float_zero | Some c \<Rightarrow> c);
          t = totals l;
          l = l\<lparr>totals := (case ur_cost_status u of
                  KnownCost \<Rightarrow> t\<lparr>t_known_cost := float_add (t_known_cost t) cost\<rparr>
                | EstimatedCost \<Rightarrow> t\<lparr>t_estimated_cost := float_add (t_estimated_cost t) cost\<rparr>
                | UnknownCost \<Rightarrow> t\<lparr>t_unknown_cost := t_unknown_cost t + 1\<rparr>)\<rparr>
      in if ur_cost_usd u \<noteq> None \<and> float_lt (float_add (res_cost stored) float_tolerance) cost
         then l\<lparr>violations := insert ''cost_reservation_exceeded'' (violations l)\<rparr> else l)"

definition ceiling_checks :: "ledger \<Rightarrow> (string \<times> pynum \<times> pynum) list" where
  "ceiling_checks l =
     (let t = totals l; c = l_ceilings l in
      map (\<lambda>m. (metric_name m, NInt (total_of m t), NInt (ceiling_of m c)))
        [ModelCalls, InputTokens, OutputTokens, CachedTokens, CacheWriteTokens, ToolCalls, ToolOutputBytes, Retries] @
      [(''known_cost_usd'', NFloat (t_known_cost t), NFloat (max_known_cost_usd c)),
       (''estimated_cost_usd'', NFloat (float_add (t_known_cost t) (t_estimated_cost t)),
        NFloat (max_estimated_cost_usd c))])"

text \<open>A violation found before a failing conversion stays recorded.\<close>

fun record_violations :: "(string \<times> pynum \<times> pynum) list \<Rightarrow> string set \<Rightarrow> unit res \<times> string set" where
  "record_violations [] vs = (Inr (), vs)"
| "record_violations ((name, observed, limit) # cs) vs =
     (case num_add limit (NFloat float_tolerance) of
        Inl e \<Rightarrow> (Inl e, vs)
      | Inr bound \<Rightarrow> record_violations cs
          (if num_lt bound observed then insert (name @ ''_ceiling_exceeded'') vs else vs))"

definition record_and_snapshot :: "ledger \<Rightarrow> pyfloat \<Rightarrow> budget_snapshot res \<times> ledger" where
  "record_and_snapshot l now =
     (case record_violations (ceiling_checks l) (violations l) of
        (Inl e, vs) \<Rightarrow> (Inl e, l\<lparr>violations := vs\<rparr>)
      | (Inr _, vs) \<Rightarrow> (snapshot (l\<lparr>violations := vs\<rparr>) now, l\<lparr>violations := vs\<rparr>))"

definition check_completion :: "pyfloat \<Rightarrow> usage_report \<Rightarrow> bool \<Rightarrow> unit res" where
  "check_completion latency u request_sent =
     thenE (require_nonnegative_float ''latency_ms'' latency)
     (raise_if (\<not> request_sent \<and> (ur_usage_status u \<noteq> UnknownUsage \<or> ur_cost_status u \<noteq> UnknownCost))
       (ValueError ''a pre-send provider result cannot report provider usage''))"

definition complete_provider_call :: "ledger \<Rightarrow> pyfloat \<Rightarrow> budget_reservation \<Rightarrow> usage_report \<Rightarrow> pyfloat \<Rightarrow> bool \<Rightarrow>
    budget_snapshot res \<times> ledger" where
  "complete_provider_call l now r u latency request_sent =
     (case check_completion latency u request_sent of
        Inl e \<Rightarrow> (Inl e, l)
      | Inr _ \<Rightarrow>
         (case pop_reservation l r ProviderKind of
            (Inl e, l') \<Rightarrow> (Inl e, l')
          | (Inr stored, l') \<Rightarrow>
              let t = add_total Retries (res_retries stored) (totals l');
                  l' = l'\<lparr>totals := t\<lparr>t_latency := float_add (t_latency t) latency\<rparr>\<rparr>
              in if \<not> request_sent then (snapshot l' now, l')
                 else record_and_snapshot (account_usage stored u l') now))"

definition complete_provider_failure :: "ledger \<Rightarrow> pyfloat \<Rightarrow> budget_reservation \<Rightarrow> bool \<Rightarrow> usage_report option \<Rightarrow>
    pyfloat \<Rightarrow> budget_snapshot res \<times> ledger" where
  "complete_provider_failure l now r request_sent u latency =
     (if request_sent
      then complete_provider_call l now r (case u of None \<Rightarrow> unknown_usage | Some v \<Rightarrow> v) latency True
      else complete_provider_call l now r unknown_usage latency False)"

definition complete_tool_call :: "ledger \<Rightarrow> pyfloat \<Rightarrow> budget_reservation \<Rightarrow> int \<Rightarrow> pyfloat \<Rightarrow>
    budget_snapshot res \<times> ledger" where
  "complete_tool_call l now r output_bytes latency =
     (case thenE (require_nonnegative ''output_bytes'' output_bytes) (require_nonnegative_float ''latency_ms'' latency) of
        Inl e \<Rightarrow> (Inl e, l)
      | Inr _ \<Rightarrow>
         (case pop_reservation l r ToolKind of
            (Inl e, l') \<Rightarrow> (Inl e, l')
          | (Inr stored, l') \<Rightarrow>
              let t = add_total ToolOutputBytes output_bytes (add_total ToolCalls 1 (totals l'));
                  l' = l'\<lparr>totals := t\<lparr>t_latency := float_add (t_latency t) latency\<rparr>,
                          violations := (if output_bytes > res_tool_output_bytes stored
                            then insert ''tool_output_bytes_reservation_exceeded'' (violations l') else violations l')\<rparr>
              in record_and_snapshot l' now))"



section \<open>Escrow accounts\<close>

text \<open>The contract of one count of a ledger: an amount is held while capacity is left and nothing is
  flagged, a held amount is settled at most once, and settling for more than was held flags the
  account.\<close>

record escrow =
  cap :: int
  spent :: int
  held :: int
  flagged :: bool

inductive escrow_step :: "escrow \<Rightarrow> escrow \<Rightarrow> bool" where
  hold: "\<not> flagged a \<Longrightarrow> 0 \<le> n \<Longrightarrow> spent a + held a + n \<le> cap a \<Longrightarrow> escrow_step a (a\<lparr>held := held a + n\<rparr>)"
| settle: "0 \<le> n \<Longrightarrow> n \<le> held a \<Longrightarrow> 0 \<le> v \<Longrightarrow>
    escrow_step a (a\<lparr>spent := spent a + v, held := held a - n, flagged := flagged a \<or> n < v\<rparr>)"
| flag: "escrow_step a (a\<lparr>flagged := True\<rparr>)"

inductive_cases escrow_stepE: "escrow_step a b"

definition escrow_ok :: "escrow \<Rightarrow> bool" where
  "escrow_ok a \<longleftrightarrow> 0 \<le> spent a \<and> 0 \<le> held a \<and> (flagged a \<or> spent a + held a \<le> cap a)"

lemma escrow_step_ok: "escrow_step a b \<Longrightarrow> escrow_ok a \<Longrightarrow> escrow_ok b \<and> cap b = cap a \<and> (flagged a \<longrightarrow> flagged b)"
  by (erule escrow_step.cases) (auto simp: escrow_ok_def)

lemma escrow_steps_ok:
  "escrow_step\<^sup>*\<^sup>* a b \<Longrightarrow> escrow_ok a \<Longrightarrow> escrow_ok b \<and> cap b = cap a \<and> (flagged a \<longrightarrow> flagged b)"
  by (induction rule: rtranclp_induct) (auto dest: escrow_step_ok)

lemma escrow_settles:
  assumes "0 \<le> n" and "n \<le> held a" and "0 \<le> v" and "cap b = cap a" and "spent b = spent a + v"
    and "held b = held a - n" and "flagged a \<or> n < v \<longrightarrow> flagged b"
  shows "escrow_step\<^sup>*\<^sup>* a b"
proof -
  let ?c = "a\<lparr>spent := spent a + v, held := held a - n, flagged := flagged a \<or> n < v\<rparr>"
  have s: "escrow_step a ?c" using assms(1-3) by (rule settle)
  show ?thesis
  proof (cases "flagged b = (flagged a \<or> n < v)")
    case True
    then have "b = ?c" using assms(4-6) by (cases a; cases b) simp
    with s show ?thesis by simp
  next
    case False
    then have "b = ?c\<lparr>flagged := True\<rparr>" using assms(4-7) by (cases a; cases b) auto
    then show ?thesis using s flag [of ?c] by (metis converse_rtranclp_into_rtranclp r_into_rtranclp)
  qed
qed

text \<open>A state machine that implements escrow accounts inherits their safety on all of its runs.\<close>

locale escrow_implementation =
  fixes step :: "'s \<Rightarrow> 's \<Rightarrow> bool" and inv :: "'s \<Rightarrow> bool" and view :: "'s \<Rightarrow> escrow"
  assumes keeps: "step s t \<Longrightarrow> inv s \<Longrightarrow> inv t"
    and simulates: "step s t \<Longrightarrow> inv s \<Longrightarrow> escrow_ok (view s) \<Longrightarrow> escrow_step\<^sup>*\<^sup>* (view s) (view t)"
begin

lemma runs_keep: "step\<^sup>*\<^sup>* s t \<Longrightarrow> inv s \<Longrightarrow> inv t"
  by (induction rule: rtranclp_induct) (auto intro: keeps)

lemma runs_simulate: "step\<^sup>*\<^sup>* s t \<Longrightarrow> inv s \<Longrightarrow> escrow_ok (view s) \<Longrightarrow> escrow_step\<^sup>*\<^sup>* (view s) (view t)"
proof (induction rule: rtranclp_induct)
  case (step y z)
  then show ?case
    using simulates [OF step.hyps(2)] runs_keep [OF step.hyps(1)] escrow_steps_ok by (meson rtranclp_trans)
qed simp

lemma runs_safe: "step\<^sup>*\<^sup>* s t \<Longrightarrow> inv s \<Longrightarrow> escrow_ok (view s) \<Longrightarrow>
    escrow_ok (view t) \<and> cap (view t) = cap (view s) \<and> (flagged (view s) \<longrightarrow> flagged (view t))"
  using runs_simulate escrow_steps_ok by (metis (no_types))

end

section \<open>Bookkeeping of the operations\<close>

definition account :: "metric \<Rightarrow> ledger \<Rightarrow> escrow" where
  "account m l = \<lparr>cap = ceiling_of m (l_ceilings l), spent = total_of m (totals l), held = reserved_of m l,
     flagged = (violations l \<noteq> {})\<rparr>"

lemma total_add [simp]: "total_of m (add_total k n t) = total_of m t + (if m = k then n else 0)"
  by (cases m; cases k) simp_all

lemma add_total_unknown [simp]:
  "t_unknown_cost (add_total k n t) = t_unknown_cost t" "t_unknown_usage (add_total k n t) = t_unknown_usage t"
  by (cases k; simp)+

declare add_total.simps [simp del]

lemma total_of_costs [simp]:
  "total_of m (t\<lparr>t_latency := x\<rparr>) = total_of m t" "total_of m (t\<lparr>t_unknown_usage := i\<rparr>) = total_of m t"
  "total_of m (t\<lparr>t_known_cost := x\<rparr>) = total_of m t" "total_of m (t\<lparr>t_estimated_cost := x\<rparr>) = total_of m t"
  "total_of m (t\<lparr>t_unknown_cost := i\<rparr>) = total_of m t"
  by (cases m; simp)+

definition opt0 :: "int option \<Rightarrow> int" where
  "opt0 v = (case v of None \<Rightarrow> 0 | Some i \<Rightarrow> i)"

lemma observe_token_facts:
  "l_ceilings (observe_token r (k, v) l) = l_ceilings l" "reservations (observe_token r (k, v) l) = reservations l"
  "sequence_no (observe_token r (k, v) l) = sequence_no l"
  "t_unknown_cost (totals (observe_token r (k, v) l)) = t_unknown_cost (totals l)"
  "t_unknown_usage (totals (observe_token r (k, v) l)) = t_unknown_usage (totals l)"
  "total_of m (totals (observe_token r (k, v) l)) = total_of m (totals l) + (if m = k then opt0 v else 0)"
  "violations l \<noteq> {} \<or> (\<exists>i. v = Some i \<and> res_field k r < i) \<longleftrightarrow> violations (observe_token r (k, v) l) \<noteq> {}"
  by (cases v; auto simp: opt0_def)+

fun usage_amount :: "usage_report \<Rightarrow> metric \<Rightarrow> int" where
  "usage_amount u ModelCalls = 1"
| "usage_amount u InputTokens = opt0 (ur_input_tokens u)"
| "usage_amount u OutputTokens = opt0 (ur_output_tokens u)"
| "usage_amount u CachedTokens = opt0 (ur_cached_tokens u)"
| "usage_amount u CacheWriteTokens = opt0 (ur_cache_write_tokens u)"
| "usage_amount u _ = 0"

lemma account_usage_facts:
  assumes "\<forall>m. 0 \<le> res_field m r" and "res_model_calls r = 1"
  shows "l_ceilings (account_usage r u l) = l_ceilings l" "reservations (account_usage r u l) = reservations l"
    "sequence_no (account_usage r u l) = sequence_no l"
    "total_of m (totals (account_usage r u l)) = total_of m (totals l) + usage_amount u m"
    "violations l \<noteq> {} \<or> res_field m r < usage_amount u m \<longrightarrow> violations (account_usage r u l) \<noteq> {}"
    "t_unknown_cost (totals l) \<le> t_unknown_cost (totals (account_usage r u l))"
    "t_unknown_usage (totals l) \<le> t_unknown_usage (totals (account_usage r u l))"
proof -
  let ?l = "fold (observe_token r) (observed_tokens u) (l\<lparr>totals := add_total ModelCalls 1 (totals l)\<rparr>)"
  have f: "l_ceilings ?l = l_ceilings l" "reservations ?l = reservations l" "sequence_no ?l = sequence_no l"
    "total_of m (totals ?l) = total_of m (totals l) + usage_amount u m"
    "t_unknown_cost (totals ?l) = t_unknown_cost (totals l)" "t_unknown_usage (totals ?l) = t_unknown_usage (totals l)" for m
    by (cases m; simp add: observe_token_facts)+
  have "0 \<le> res_field m r" using assms(1) by blast
  then have v: "violations l \<noteq> {} \<or> res_field m r < usage_amount u m \<longrightarrow> violations ?l \<noteq> {}"
    using assms(2)
    by (cases m) (auto simp: observe_token_facts(7) [symmetric] opt0_def split: option.splits)
  show "l_ceilings (account_usage r u l) = l_ceilings l" "reservations (account_usage r u l) = reservations l"
    "sequence_no (account_usage r u l) = sequence_no l"
    "total_of m (totals (account_usage r u l)) = total_of m (totals l) + usage_amount u m"
    "violations l \<noteq> {} \<or> res_field m r < usage_amount u m \<longrightarrow> violations (account_usage r u l) \<noteq> {}"
    "t_unknown_cost (totals l) \<le> t_unknown_cost (totals (account_usage r u l))"
    "t_unknown_usage (totals l) \<le> t_unknown_usage (totals (account_usage r u l))"
    using f v by (auto simp: account_usage_def Let_def split: cost_status.splits if_splits)
qed

lemma record_violations_grows: "vs \<subseteq> snd (record_violations cs vs)"
  by (induction cs vs rule: record_violations.induct) (auto split: sum.splits if_splits)

lemma record_and_snapshot_facts:
  "l_ceilings (snd (record_and_snapshot l now)) = l_ceilings l"
  "reservations (snd (record_and_snapshot l now)) = reservations l"
  "sequence_no (snd (record_and_snapshot l now)) = sequence_no l"
  "totals (snd (record_and_snapshot l now)) = totals l"
  "violations l \<noteq> {} \<Longrightarrow> violations (snd (record_and_snapshot l now)) \<noteq> {}"
  using record_violations_grows [of "violations l" "ceiling_checks l"]
  by (auto simp: record_and_snapshot_def split: prod.splits sum.splits)



section \<open>Steps of a ledger\<close>

inductive ledger_step :: "ledger \<Rightarrow> ledger \<Rightarrow> bool" where
  step_reserve_provider: "ledger_step l (snd (reserve_provider_call l now q))"
| step_reserve_tool: "ledger_step l (snd (reserve_tool_call l now n))"
| step_cancel: "ledger_step l (snd (cancel_reservation l now r))"
| step_complete_provider: "validate_usage_report raw = Inr u \<Longrightarrow>
    ledger_step l (snd (complete_provider_call l now r u latency request_sent))"
| step_complete_tool: "ledger_step l (snd (complete_tool_call l now r n latency))"

definition counts_ok :: "task_ceilings \<Rightarrow> bool" where
  "counts_ok c \<longleftrightarrow> (\<forall>m. 0 \<le> ceiling_of m c \<and> ceiling_of m c < 2 ^ 53)"

definition reservation_ok :: "nat \<Rightarrow> budget_reservation \<Rightarrow> bool" where
  "reservation_ok issued r \<longleftrightarrow> (\<forall>m. 0 \<le> res_field m r) \<and>
     (\<exists>n. n \<le> issued \<and> reservation_id r = ''budget.'' @ kind_name (res_kind r) @ ''.'' @ pad6 n) \<and>
     (case res_kind r of
        ProviderKind \<Rightarrow> res_model_calls r = 1 \<and> res_tool_calls r = 0 \<and> res_tool_output_bytes r = 0
      | ToolKind \<Rightarrow> res_tool_calls r = 1 \<and>
          (\<forall>m. m \<noteq> ToolCalls \<longrightarrow> m \<noteq> ToolOutputBytes \<longrightarrow> res_field m r = 0))"

definition ledger_ok :: "ledger \<Rightarrow> bool" where
  "ledger_ok l \<longleftrightarrow> counts_ok (l_ceilings l) \<and> distinct (map reservation_id (reservations l)) \<and>
     (\<forall>r\<in>set (reservations l). reservation_ok (sequence_no l) r) \<and> (\<forall>m. 0 \<le> total_of m (totals l)) \<and>
     0 \<le> t_unknown_cost (totals l) \<and> 0 \<le> t_unknown_usage (totals l)"

lemma ledger_ok_reserved: "ledger_ok l \<Longrightarrow> 0 \<le> reserved_of m l"
  by (auto simp: ledger_ok_def reserved_of_def reservation_ok_def intro!: sum_list_nonneg)

lemma kind_ids: "''budget.'' @ kind_name j @ ''.'' @ pad6 a = ''budget.'' @ kind_name k @ ''.'' @ pad6 b \<longleftrightarrow> j = k \<and> a = b"
  by (cases j; cases k) auto

lemma next_id_fresh:
  assumes "ledger_ok l" and "r \<in> set (reservations l)"
  shows "reservation_id r \<noteq> next_reservation_id l k"
proof -
  obtain n where "n \<le> sequence_no l" "reservation_id r = ''budget.'' @ kind_name (res_kind r) @ ''.'' @ pad6 n"
    using assms by (auto simp: ledger_ok_def reservation_ok_def)
  then show ?thesis unfolding next_reservation_id_def by (simp only: kind_ids) simp
qed

lemma capacity_int:
  assumes "0 \<le> limit" and "limit < 2 ^ 53" and "0 \<le> current" and "0 \<le> reserved"
  shows "require_capacity name (NInt current) (NInt reserved) (NInt requested) (NInt limit) =
    (if requested > max 0 (limit - current - reserved) then Inl (BudgetExhaustedError name) else Inr ())"
proof -
  let ?left = "max 0 (limit - current - reserved)"
  have "num_max (NInt 0) (NInt (limit - current - reserved)) = NInt ?left" by (simp add: num_max_def)
  moreover obtain f where "num_add (NInt ?left) (NFloat float_tolerance) = Inr f" "\<forall>q. num_lt f (NInt q) \<longleftrightarrow> ?left < q"
    using int_tolerance [of ?left] assms by (auto simp del: num_add.simps)
  ultimately show ?thesis by (simp add: require_capacity_def raise_if_def del: num_add.simps(2))
qed

lemma count_capacity:
  assumes "ledger_ok l"
  shows "require_count_capacity l m n = (if n > max 0 (ceiling_of m (l_ceilings l) - total_of m (totals l) - reserved_of m l)
     then Inl (BudgetExhaustedError (metric_name m)) else Inr ())"
  unfolding require_count_capacity_def
  using assms ledger_ok_reserved [OF assms] by (intro capacity_int) (auto simp: ledger_ok_def counts_ok_def)


lemma count_capacity_Inr:
  assumes "ledger_ok l"
  shows "require_count_capacity l m n = Inr u \<longleftrightarrow>
    n \<le> max 0 (ceiling_of m (l_ceilings l) - total_of m (totals l) - reserved_of m l)"
  unfolding count_capacity [OF assms] by (auto split: if_splits)

text \<open>Every operation either leaves the counts alone, holds a new reservation, or settles a stored
  one.\<close>

definition holds_new :: "ledger \<Rightarrow> budget_reservation \<Rightarrow> ledger \<Rightarrow> bool" where
  "holds_new l r l' \<longleftrightarrow> l' = l\<lparr>reservations := reservations l @ [r], sequence_no := Suc (sequence_no l)\<rparr> \<and>
     reservation_ok (Suc (sequence_no l)) r \<and> reservation_id r = next_reservation_id l (res_kind r) \<and>
     violations l = {} \<and>
     (\<forall>m. res_field m r \<le> max 0 (ceiling_of m (l_ceilings l) - total_of m (totals l) - reserved_of m l))"

definition settles :: "ledger \<Rightarrow> budget_reservation \<Rightarrow> (metric \<Rightarrow> int) \<Rightarrow> ledger \<Rightarrow> bool" where
  "settles l r v l' \<longleftrightarrow> r \<in> set (reservations l) \<and> l_ceilings l' = l_ceilings l \<and> sequence_no l' = sequence_no l \<and>
     reservations l' = filter (\<lambda>s. reservation_id s \<noteq> reservation_id r) (reservations l) \<and>
     t_unknown_cost (totals l) \<le> t_unknown_cost (totals l') \<and>
     t_unknown_usage (totals l) \<le> t_unknown_usage (totals l') \<and>
     (\<forall>m. 0 \<le> v m \<and> total_of m (totals l') = total_of m (totals l) + v m \<and>
        (violations l \<noteq> {} \<or> res_field m r < v m \<longrightarrow> violations l' \<noteq> {}))"

lemma reservation_ok_mono: "reservation_ok n r \<Longrightarrow> n \<le> k \<Longrightarrow> reservation_ok k r"
  unfolding reservation_ok_def by (meson order_trans)

lemma remove_reservation:
  assumes "distinct (map reservation_id rs)" and "r \<in> set rs"
  shows "sum_list (map f (filter (\<lambda>s. reservation_id s \<noteq> reservation_id r) rs)) = sum_list (map f rs) - (f r :: int)"
  using assms
proof (induction rs)
  case (Cons s rs)
  show ?case
  proof (cases "s = r")
    case True
    then have "filter (\<lambda>s. reservation_id s \<noteq> reservation_id r) rs = rs"
      using Cons.prems(1) by (intro filter_True) (metis distinct.simps(2) image_eqI list.set_map list.simps(9))
    with True show ?thesis by simp
  next
    case False
    then show ?thesis using Cons by (auto simp: distinct_map)
  qed
qed simp

lemma holds_new_ok:
  assumes "holds_new l r l'" and "ledger_ok l"
  shows "ledger_ok l'" and "escrow_ok (account m l) \<Longrightarrow> escrow_step\<^sup>*\<^sup>* (account m l) (account m l')"
proof -
  have l': "l' = l\<lparr>reservations := reservations l @ [r], sequence_no := Suc (sequence_no l)\<rparr>"
    using assms(1) by (simp add: holds_new_def)
  have id: "reservation_id r \<notin> reservation_id ` set (reservations l)"
    using next_id_fresh [OF assms(2)] assms(1) unfolding holds_new_def by (metis imageE)
  have "\<forall>s\<in>set (reservations l). reservation_ok (Suc (sequence_no l)) s"
    using assms(2) by (auto simp: ledger_ok_def intro: reservation_ok_mono)
  then show "ledger_ok l'" using assms id by (auto simp: ledger_ok_def l' holds_new_def)
  assume ok: "escrow_ok (account m l)"
  let ?n = "res_field m r"
  have "0 \<le> ?n" "?n \<le> max 0 (ceiling_of m (l_ceilings l) - total_of m (totals l) - reserved_of m l)" "violations l = {}"
    using assms(1) by (auto simp: holds_new_def reservation_ok_def)
  moreover have "account m l' = (account m l)\<lparr>held := held (account m l) + ?n\<rparr>"
    by (simp add: account_def l' reserved_of_def)
  ultimately show "escrow_step\<^sup>*\<^sup>* (account m l) (account m l')"
    using ok hold [of "account m l" ?n] by (auto simp: escrow_ok_def account_def)
qed

lemma settles_ok:
  assumes "settles l r v l'" and "ledger_ok l"
  shows "ledger_ok l'" and "escrow_step\<^sup>*\<^sup>* (account m l) (account m l')"
proof -
  have d: "distinct (map reservation_id (reservations l))" "r \<in> set (reservations l)"
    using assms by (auto simp: settles_def ledger_ok_def)
  show "ledger_ok l'" using assms by (auto simp: settles_def ledger_ok_def distinct_map_filter)
  have ok: "\<forall>m. 0 \<le> res_field m s" if "s \<in> set (reservations l)" for s
    using assms(2) that by (auto simp: ledger_ok_def reservation_ok_def)
  have "res_field m r \<le> reserved_of m l"
    unfolding reserved_of_def using ok d(2) by (intro member_le_sum_list) auto
  moreover have "reserved_of m l' = reserved_of m l - res_field m r"
    using assms(1) remove_reservation [OF d] by (simp add: settles_def reserved_of_def)
  ultimately show "escrow_step\<^sup>*\<^sup>* (account m l) (account m l')"
    using assms(1) ok [OF d(2)]
    by (intro escrow_settles [of "res_field m r" _ "v m"]) (auto simp: settles_def account_def)
qed

lemma pop_facts:
  assumes "pop_reservation l r k = (out, l')"
  shows "(\<exists>e. out = Inl e \<and> l' = l) \<or> (\<exists>s. out = Inr s \<and> s \<in> set (reservations l) \<and> res_kind s = k \<and>
    reservation_id s = reservation_id r \<and>
    l' = l\<lparr>reservations := filter (\<lambda>t. reservation_id t \<noteq> reservation_id s) (reservations l)\<rparr>)"
  using assms by (auto simp: pop_reservation_def split: option.splits if_splits dest: find_key_Some)

lemma reserve_provider_facts:
  assumes "reserve_provider_call l now q = (out, l')" and "ledger_ok l"
  shows "(\<exists>e. out = Inl e \<and> l' = l) \<or> (\<exists>r. out = Inr r \<and> holds_new l r l')"
proof (cases "thenE (check_provider_request q) (check_provider_capacity l now q)")
  case (Inr u)
  then have q: "check_provider_request q = Inr ()" and c: "check_provider_capacity l now q = Inr ()"
    by (auto simp: thenE_Inr)
  let ?r = "\<lparr>reservation_id = next_reservation_id l ProviderKind, res_kind = ProviderKind, res_model_calls = 1,
           res_input_tokens = rq_input_tokens q, res_output_tokens = rq_output_tokens q,
           res_cached_tokens = rq_cached_tokens q, res_cache_write_tokens = rq_cache_write_tokens q,
           res_cost = rq_cost q, res_cost_status = Some (rq_cost_status q), res_tool_calls = 0,
           res_tool_output_bytes = 0, res_retries = (if rq_is_retry q then 1 else 0)\<rparr>"
  have "\<forall>(m, n)\<in>set (provider_metrics q). n \<le> max 0 (ceiling_of m (l_ceilings l) - total_of m (totals l) - reserved_of m l)"
    and v: "violations l = {}"
    using c by (auto simp: check_provider_capacity_def thenE_Inr forE_Inr count_capacity_Inr [OF assms(2)] require_accounting_def
        raise_if_Inr split: if_splits)
  then have "res_field m ?r \<le> max 0 (ceiling_of m (l_ceilings l) - total_of m (totals l) - reserved_of m l)" for m
    by (cases m) (simp_all add: provider_metrics_def)
  moreover have "0 \<le> res_field m ?r" for m
    using q by (cases m) (auto simp: check_provider_request_def thenE_Inr require_nonnegative_def raise_if_Inr)
  then have "reservation_ok (Suc (sequence_no l)) ?r"
    by (auto simp: reservation_ok_def next_reservation_id_def)
  moreover have "filter (\<lambda>s. reservation_id s \<noteq> next_reservation_id l ProviderKind) (reservations l) = reservations l"
    using next_id_fresh [OF assms(2)] by (auto intro: filter_True)
  ultimately show ?thesis
    using assms(1) Inr v by (auto simp: reserve_provider_call_def store_reservation_def holds_new_def)
qed (use assms(1) in \<open>auto simp: reserve_provider_call_def\<close>)

lemma reserve_tool_facts:
  assumes "reserve_tool_call l now n = (out, l')" and "ledger_ok l"
  shows "(\<exists>e. out = Inl e \<and> l' = l) \<or> (\<exists>r. out = Inr r \<and> holds_new l r l')"
proof (cases "check_tool_capacity l now n")
  case (Inr u)
  let ?r = "\<lparr>reservation_id = next_reservation_id l ToolKind, res_kind = ToolKind, res_model_calls = 0,
           res_input_tokens = 0, res_output_tokens = 0, res_cached_tokens = 0, res_cache_write_tokens = 0,
           res_cost = float_zero, res_cost_status = None, res_tool_calls = 1,
           res_tool_output_bytes = n, res_retries = 0\<rparr>"
  have v: "violations l = {}" "0 \<le> n"
    and cap: "\<forall>(m, k)\<in>{(ToolCalls, 1), (ToolOutputBytes, n)}.
      k \<le> max 0 (ceiling_of m (l_ceilings l) - total_of m (totals l) - reserved_of m l)"
    using Inr by (auto simp: check_tool_capacity_def thenE_Inr count_capacity_Inr [OF assms(2)] require_accounting_def
        require_nonnegative_def raise_if_Inr split: if_splits)
  have "res_field m ?r \<le> max 0 (ceiling_of m (l_ceilings l) - total_of m (totals l) - reserved_of m l)" for m
    using cap by (cases m) simp_all
  moreover have "0 \<le> res_field m ?r" for m using v(2) by (cases m) simp_all
  moreover have "m \<noteq> ToolCalls \<longrightarrow> m \<noteq> ToolOutputBytes \<longrightarrow> res_field m ?r = 0" for m by (cases m) simp_all
  ultimately have "reservation_ok (Suc (sequence_no l)) ?r"
    "\<forall>m. res_field m ?r \<le> max 0 (ceiling_of m (l_ceilings l) - total_of m (totals l) - reserved_of m l)"
    by (auto simp: reservation_ok_def next_reservation_id_def)
  moreover have "filter (\<lambda>s. reservation_id s \<noteq> next_reservation_id l ToolKind) (reservations l) = reservations l"
    using next_id_fresh [OF assms(2)] by (auto intro: filter_True)
  ultimately show ?thesis
    using assms(1) Inr v by (auto simp: reserve_tool_call_def store_reservation_def holds_new_def)
qed (use assms(1) in \<open>auto simp: reserve_tool_call_def\<close>)


lemma cancel_facts:
  assumes "cancel_reservation l now r = (out, l')" and "ledger_ok l"
  shows "l' = l \<or> (\<exists>s. settles l s (\<lambda>_. 0) l')"
proof -
  obtain p l1 where p: "pop_reservation l r (res_kind r) = (p, l1)" by fastforce
  show ?thesis
    using pop_facts [OF p]
  proof (elim disjE exE conjE)
    fix s assume s: "p = Inr s" "s \<in> set (reservations l)"
      and l1: "l1 = l\<lparr>reservations := filter (\<lambda>t. reservation_id t \<noteq> reservation_id s) (reservations l)\<rparr>"
    have "0 \<le> res_field m s" for m using assms(2) s(2) by (auto simp: ledger_ok_def reservation_ok_def)
    then have "settles l s (\<lambda>_. 0) l1" using s(2) by (simp add: settles_def l1 not_less [symmetric])
    moreover have "l' = l1" using assms(1) p s(1) by (simp add: cancel_reservation_def)
    ultimately show ?thesis by blast
  qed (use assms(1) p in \<open>auto simp: cancel_reservation_def\<close>)
qed

lemma usage_nonneg:
  assumes "validate_usage_report raw = Inr u"
  shows "0 \<le> usage_amount u m"
  using assms by (cases m) (auto simp: validate_usage_report_def validate_status_payload_def Let_def validated_Inr
      thenE_Inr require_count_def raise_if_Inr opt0_def split: option.splits if_splits)

definition provider_amount :: "usage_report \<Rightarrow> bool \<Rightarrow> budget_reservation \<Rightarrow> metric \<Rightarrow> int" where
  "provider_amount u sent r m = (if m = Retries then res_retries r else if sent then usage_amount u m else 0)"

lemma complete_provider_facts:
  assumes "complete_provider_call l now r u latency sent = (out, l')" and "ledger_ok l"
    and "\<forall>m. 0 \<le> usage_amount u m"
  shows "(\<exists>e. out = Inl e \<and> l' = l) \<or>
    (\<exists>s. settles l s (provider_amount u sent s) l' \<and> reservation_id s = reservation_id r \<and> res_kind s = ProviderKind)"
proof (cases "check_completion latency u sent")
  case (Inr x)
  obtain p l1 where p: "pop_reservation l r ProviderKind = (p, l1)" by fastforce
  show ?thesis
    using pop_facts [OF p]
  proof (elim disjE exE conjE)
    fix s assume s: "p = Inr s" "s \<in> set (reservations l)" "res_kind s = ProviderKind"
      and id: "reservation_id s = reservation_id r"
      and l1: "l1 = l\<lparr>reservations := filter (\<lambda>t. reservation_id t \<noteq> reservation_id s) (reservations l)\<rparr>"
    let ?l2 = "l1\<lparr>totals := (add_total Retries (res_retries s) (totals l1))
        \<lparr>t_latency := float_add (t_latency (add_total Retries (res_retries s) (totals l1))) latency\<rparr>\<rparr>"
    have shape: "\<forall>m. 0 \<le> res_field m s" "res_model_calls s = 1"
      using assms(2) s(2,3) by (auto simp: ledger_ok_def reservation_ok_def)
    note acc = account_usage_facts [OF shape, where u = u and l = ?l2]
    have l': "l' = (if sent then snd (record_and_snapshot (account_usage s u ?l2) now) else ?l2)"
      using assms(1) Inr p s(1) by (auto simp: complete_provider_call_def Let_def split: if_splits)
    have ret: "res_retries s = res_field Retries s" by simp
    have keep: "l_ceilings l' = l_ceilings l" "sequence_no l' = sequence_no l"
      "reservations l' = filter (\<lambda>t. reservation_id t \<noteq> reservation_id s) (reservations l)"
      by (cases sent; simp only: l' if_True if_False record_and_snapshot_facts acc(1-3); simp add: l1)+
    have tot: "total_of m (totals l') = total_of m (totals l) + provider_amount u sent s m" for m
      by (cases sent; simp only: l' if_True if_False record_and_snapshot_facts acc(4); simp add: l1 provider_amount_def)
    have vio: "violations l \<noteq> {} \<or> res_field m s < provider_amount u sent s m \<longrightarrow> violations l' \<noteq> {}" for m
    proof
      assume a: "violations l \<noteq> {} \<or> res_field m s < provider_amount u sent s m"
      show "violations l' \<noteq> {}"
      proof (cases sent)
        case True
        have "violations ?l2 \<noteq> {} \<or> res_field m s < usage_amount u m"
          using a True shape(1) by (auto simp: provider_amount_def l1 split: if_splits)
        then show ?thesis using acc(5) [of m] True by (simp add: l' record_and_snapshot_facts(5))
      next
        case False
        moreover have "\<not> res_field m s < 0" using shape(1) by (simp add: not_less)
        ultimately show ?thesis using a by (auto simp: l' l1 provider_amount_def split: if_splits)
      qed
    qed
    have unk: "t_unknown_cost (totals l) \<le> t_unknown_cost (totals l')" "t_unknown_usage (totals l) \<le> t_unknown_usage (totals l')"
      using acc(6,7) by (cases sent; simp add: l' record_and_snapshot_facts l1)+
    have "0 \<le> provider_amount u sent s m" for m
      using assms(3) shape(1) ret unfolding provider_amount_def by presburger
    then have "settles l s (provider_amount u sent s) l'"
      using s(2) keep tot vio unk by (simp add: settles_def)
    with id s(3) show ?thesis by blast
  qed (use assms(1) Inr p in \<open>auto simp: complete_provider_call_def\<close>)
qed (use assms(1) in \<open>auto simp: complete_provider_call_def\<close>)

definition tool_amount :: "int \<Rightarrow> metric \<Rightarrow> int" where
  "tool_amount n m = (if m = ToolCalls then 1 else if m = ToolOutputBytes then n else 0)"

lemma complete_tool_facts:
  assumes "complete_tool_call l now r n latency = (out, l')" and "ledger_ok l"
  shows "(\<exists>e. out = Inl e \<and> l' = l) \<or>
    (\<exists>s. settles l s (tool_amount n) l' \<and> reservation_id s = reservation_id r \<and> res_kind s = ToolKind)"
proof (cases "thenE (require_nonnegative ''output_bytes'' n) (require_nonnegative_float ''latency_ms'' latency)")
  case (Inr x)
  then have n: "0 \<le> n" by (auto simp: thenE_Inr require_nonnegative_def raise_if_Inr)
  obtain p l1 where p: "pop_reservation l r ToolKind = (p, l1)" by fastforce
  show ?thesis
    using pop_facts [OF p]
  proof (elim disjE exE conjE)
    fix s assume s: "p = Inr s" "s \<in> set (reservations l)" "res_kind s = ToolKind"
      and id: "reservation_id s = reservation_id r"
      and l1: "l1 = l\<lparr>reservations := filter (\<lambda>t. reservation_id t \<noteq> reservation_id s) (reservations l)\<rparr>"
    let ?t = "add_total ToolOutputBytes n (add_total ToolCalls 1 (totals l1))"
    let ?l2 = "l1\<lparr>totals := ?t\<lparr>t_latency := float_add (t_latency ?t) latency\<rparr>,
        violations := (if n > res_tool_output_bytes s
          then insert ''tool_output_bytes_reservation_exceeded'' (violations l1) else violations l1)\<rparr>"
    have shape: "\<forall>m. 0 \<le> res_field m s" "res_tool_calls s = 1"
      using assms(2) s(2,3) by (auto simp: ledger_ok_def reservation_ok_def)
    have l': "l' = snd (record_and_snapshot ?l2 now)"
      using assms(1) Inr p s(1) by (simp add: complete_tool_call_def Let_def)
    have tot: "total_of m (totals l') = total_of m (totals l) + tool_amount n m" for m
      unfolding l' record_and_snapshot_facts by (simp add: l1 tool_amount_def)
    have vio: "violations l \<noteq> {} \<or> res_field m s < tool_amount n m \<longrightarrow> violations l' \<noteq> {}" for m
    proof
      assume a: "violations l \<noteq> {} \<or> res_field m s < tool_amount n m"
      have "0 \<le> res_field m s" using shape(1) by blast
      then have "violations ?l2 \<noteq> {}"
        using a shape(2) by (auto simp: tool_amount_def l1 split: if_splits)
      then show "violations l' \<noteq> {}" unfolding l' by (rule record_and_snapshot_facts(5))
    qed
    have "settles l s (tool_amount n) l'"
      unfolding settles_def using s(2) tot vio n
      by (simp add: l' record_and_snapshot_facts l1 tool_amount_def)
    with id s(3) show ?thesis by blast
  qed (use assms(1) Inr p in \<open>auto simp: complete_tool_call_def\<close>)
qed (use assms(1) in \<open>auto simp: complete_tool_call_def\<close>)

lemma ledger_step_cases:
  assumes "ledger_step l l'" and "ledger_ok l"
  shows "l' = l \<or> (\<exists>r. holds_new l r l') \<or> (\<exists>r v. settles l r v l')"
  using assms(1)
proof cases
  case (step_reserve_provider now q)
  then show ?thesis using reserve_provider_facts [OF prod.collapse [symmetric] assms(2)] by blast
next
  case (step_reserve_tool now n)
  then show ?thesis using reserve_tool_facts [OF prod.collapse [symmetric] assms(2)] by blast
next
  case (step_cancel now r)
  then show ?thesis using cancel_facts [OF prod.collapse [symmetric] assms(2)] by blast
next
  case (step_complete_provider raw u now r latency request_sent)
  then show ?thesis
    using complete_provider_facts [OF prod.collapse [symmetric] assms(2)] usage_nonneg by blast
next
  case (step_complete_tool now r n latency)
  then show ?thesis using complete_tool_facts [OF prod.collapse [symmetric] assms(2)] by blast
qed

interpretation budget: escrow_implementation ledger_step ledger_ok "account m"
proof
  fix l l' :: ledger
  assume s: "ledger_step l l'" and ok: "ledger_ok l"
  show "ledger_ok l'" using ledger_step_cases [OF s ok] ok holds_new_ok(1) settles_ok(1) by blast
  show "escrow_step\<^sup>*\<^sup>* (account m l) (account m l')" if "escrow_ok (account m l)"
    using ledger_step_cases [OF s ok] ok holds_new_ok(2) settles_ok(2) that by blast
qed



section \<open>Runs of a ledger\<close>

lemma new_ledger_ok: "counts_ok c \<Longrightarrow> ledger_ok (new_ledger c now)"
  "counts_ok c \<Longrightarrow> escrow_ok (account m (new_ledger c now))"
proof -
  have "total_of m zero_totals = 0" for m by (cases m) (simp_all add: zero_totals_def)
  then show "counts_ok c \<Longrightarrow> ledger_ok (new_ledger c now)"
    "counts_ok c \<Longrightarrow> escrow_ok (account m (new_ledger c now))"
    by (simp_all add: ledger_ok_def new_ledger_def escrow_ok_def account_def reserved_of_def counts_ok_def)
      (simp_all add: zero_totals_def)
qed

lemma run_within:
  assumes "counts_ok c" and "ledger_step\<^sup>*\<^sup>* (new_ledger c t0) l"
  shows "ledger_ok l" and "l_ceilings l = c" and "violations l = {} \<longrightarrow> total_of m (totals l) + reserved_of m l \<le> ceiling_of m c"
proof -
  show ok: "ledger_ok l" using budget.runs_keep assms new_ledger_ok(1) by blast
  have "escrow_ok (account m l) \<and> cap (account m l) = cap (account m (new_ledger c t0))"
    using budget.runs_safe [OF assms(2) new_ledger_ok(1) [OF assms(1)] new_ledger_ok(2) [OF assms(1)]] by blast
  then show "violations l = {} \<longrightarrow> total_of m (totals l) + reserved_of m l \<le> ceiling_of m c"
    by (auto simp: escrow_ok_def account_def new_ledger_def)
  show "l_ceilings l = c"
    using assms(2) new_ledger_ok(1) [OF assms(1), of t0]
  proof (induction rule: rtranclp_induct)
    case (step y z)
    then have "ledger_ok y" using budget.runs_keep by blast
    then show ?case using step ledger_step_cases [OF step.hyps(2)] by (auto simp: holds_new_def settles_def)
  qed (simp add: new_ledger_def)
qed

text \<open>C8: every operation of a well-formed ledger, failing ones included, is a sequence of steps of the
  escrow account of each count: capacity is held only while it is left and nothing is flagged,
  what was held is settled once, and an overrun flags the account.\<close>

theorem ledger_refines_escrow:
  assumes "ledger_step l l'" and "ledger_ok l" and "escrow_ok (account m l)"
  shows "ledger_ok l' \<and> escrow_step\<^sup>*\<^sup>* (account m l) (account m l') \<and> escrow_ok (account m l')"
  using budget.keeps [OF assms(1,2)] budget.simulates [OF assms] escrow_steps_ok [OF budget.simulates [OF assms] assms(3)]
  by blast

text \<open>C3: from a new ledger with ceilings below \<open>2^53\<close>, whatever sequence of operations runs and
  whatever usage providers and tools report, the spent and reserved amounts of every count stay
  within the ceiling unless the ledger has recorded a violation.\<close>

theorem budget_within_ceilings:
  assumes "counts_ok c" and "ledger_step\<^sup>*\<^sup>* (new_ledger c t0) l"
  shows "0 \<le> total_of m (totals l) \<and> 0 \<le> reserved_of m l \<and>
    (violations l = {} \<longrightarrow> total_of m (totals l) + reserved_of m l \<le> ceiling_of m c)"
  using run_within [OF assms] ledger_ok_reserved by (simp add: ledger_ok_def)

lemma snapshot_Inr:
  "snapshot l now = Inr s \<Longrightarrow> s_totals s = totals l \<and>
     s_healthy s = (violations l = {} \<and> \<not> accounting_unknown l) \<and>
     s_reconciled s = (reservations l = [] \<and> \<not> accounting_unknown l) \<and>
     (s_promotion_eligible s \<longrightarrow> s_healthy s \<and> \<not> s_deadline_exceeded s)"
  by (auto simp: snapshot_def Let_def bindE_Inr validate_snapshot_def validated_Inr thenE_Inr)


section \<open>A reservation is settled once\<close>

definition retired :: "budget_reservation \<Rightarrow> ledger \<Rightarrow> bool" where
  "retired r l \<longleftrightarrow> reservation_ok (sequence_no l) r \<and> reservation_id r \<notin> reservation_id ` set (reservations l)"

lemma retired_step: "ledger_step l l' \<Longrightarrow> ledger_ok l \<Longrightarrow> retired r l \<Longrightarrow> retired r l'"
proof -
  assume s: "ledger_step l l'" and ok: "ledger_ok l" and r: "retired r l"
  from r obtain n where n: "n \<le> sequence_no l" "reservation_id r = ''budget.'' @ kind_name (res_kind r) @ ''.'' @ pad6 n"
    by (auto simp: retired_def reservation_ok_def)
  have "reservation_id r \<noteq> next_reservation_id l k" for k
    using n unfolding next_reservation_id_def by (simp only: kind_ids) simp
  then have new: "reservation_id a \<noteq> reservation_id r" if "holds_new l a l'" for a
    using that unfolding holds_new_def by metis
  show "retired r l'"
    using ledger_step_cases [OF s ok]
  proof (elim disjE exE)
    fix a assume a: "holds_new l a l'"
    then show ?thesis
      using r new [OF a] by (auto simp: retired_def holds_new_def intro: reservation_ok_mono)
  qed (use r in \<open>auto simp: retired_def settles_def\<close>)
qed

lemma retired_run: "ledger_step\<^sup>*\<^sup>* l l' \<Longrightarrow> ledger_ok l \<Longrightarrow> retired r l \<Longrightarrow> retired r l'"
proof (induction rule: rtranclp_induct)
  case (step y z)
  then show ?case using retired_step budget.runs_keep by blast
qed simp

lemma retired_pop: "retired r l \<Longrightarrow> pop_reservation l r k = (Inl (ValueError ''unknown or finalized budget reservation''), l)"
  using find_key_None [of reservation_id "reservation_id r" "reservations l"]
  by (simp add: retired_def pop_reservation_def)

text \<open>C12: once a reservation has left the ledger, by completion or cancellation, no later state of the
  run accepts it again: cancelling or completing it raises and changes nothing, because its id
  is never issued a second time.\<close>

theorem reservation_settled_once:
  assumes "ledger_ok l" and "r \<in> set (reservations l)" and "ledger_step l l1"
    and "reservation_id r \<notin> reservation_id ` set (reservations l1)" and "ledger_step\<^sup>*\<^sup>* l1 l2"
  shows "cancel_reservation l2 now r = (Inl (ValueError ''unknown or finalized budget reservation''), l2) \<and>
    (\<exists>e. complete_provider_call l2 now r u latency sent = (Inl e, l2)) \<and>
    (\<exists>e. complete_tool_call l2 now r n latency = (Inl e, l2))"
proof -
  have ok1: "ledger_ok l1" using budget.keeps assms(1,3) by blast
  have "sequence_no l \<le> sequence_no l1"
    using ledger_step_cases [OF assms(3,1)] by (auto simp: holds_new_def settles_def)
  then have "retired r l1"
    using assms(1,2,4) by (auto simp: retired_def ledger_ok_def intro: reservation_ok_mono)
  then have "retired r l2" using retired_run [OF assms(5) ok1] by blast
  note pop = retired_pop [OF this]
  show ?thesis
    by (auto simp: cancel_reservation_def complete_provider_call_def complete_tool_call_def pop split: sum.splits)
qed

section \<open>A damaged ledger accepts nothing\<close>

definition damaged :: "ledger \<Rightarrow> bool" where
  "damaged l \<longleftrightarrow> violations l \<noteq> {} \<or> accounting_unknown l"

lemma damaged_step: "ledger_step l l' \<Longrightarrow> ledger_ok l \<Longrightarrow> damaged l \<Longrightarrow> damaged l'"
  using ledger_step_cases [of l l']
  by (fastforce simp: damaged_def accounting_unknown_def holds_new_def settles_def ledger_ok_def)

lemma damaged_run: "ledger_step\<^sup>*\<^sup>* l l' \<Longrightarrow> ledger_ok l \<Longrightarrow> damaged l \<Longrightarrow> damaged l'"
proof (induction rule: rtranclp_induct)
  case (step y z)
  then show ?case using damaged_step budget.runs_keep by blast
qed simp

lemma damaged_reserve:
  assumes "damaged l"
  shows "\<exists>e. reserve_provider_call l now q = (Inl e, l)" and "\<exists>e. reserve_tool_call l now n = (Inl e, l)"
proof -
  have "require_accounting l msg \<noteq> Inr u" for msg u
    using assms by (auto simp: damaged_def accounting_unknown_def require_accounting_def thenE_Inr raise_if_Inr)
  then have "thenE (check_provider_request q) (check_provider_capacity l now q) \<noteq> Inr u"
    "check_tool_capacity l now n \<noteq> Inr u" for u
    by (auto simp: check_provider_capacity_def check_tool_capacity_def thenE_Inr)
  then show "\<exists>e. reserve_provider_call l now q = (Inl e, l)" "\<exists>e. reserve_tool_call l now n = (Inl e, l)"
    by (auto simp: reserve_provider_call_def reserve_tool_call_def split: sum.splits)
qed

text \<open>C29: once a violation or an unknown usage or cost is recorded, every later reservation of the run,
  for a provider or a tool, is refused and leaves the ledger unchanged.\<close>

theorem damaged_ledger_blocks:
  assumes "ledger_ok l" and "damaged l" and "ledger_step\<^sup>*\<^sup>* l l'"
  shows "(\<exists>e. reserve_provider_call l' now q = (Inl e, l')) \<and> (\<exists>e. reserve_tool_call l' now n = (Inl e, l'))"
  using damaged_reserve [OF damaged_run [OF assms(3,1,2)]] by blast

text \<open>C31: an accepted provider reservation was within every count ceiling together with all that is
  spent and reserved, gets a fresh id and is stored; a refused one changes nothing.\<close>

theorem provider_reservation_fits:
  assumes "ledger_ok l" and "escrow_ok (account m l)" and "reserve_provider_call l now q = (out, l')"
  shows "case out of
      Inl _ \<Rightarrow> l' = l
    | Inr r \<Rightarrow> reservations l' = reservations l @ [r] \<and> reservation_id r \<notin> reservation_id ` set (reservations l) \<and>
        total_of m (totals l) + reserved_of m l + res_field m r \<le> ceiling_of m (l_ceilings l)"
proof (cases out)
  case (Inr r)
  then have h: "holds_new l r l'" using reserve_provider_facts [OF assms(3,1)] by auto
  have "0 \<le> reserved_of m l" "reservation_id r \<notin> reservation_id ` set (reservations l)"
    using h next_id_fresh [OF assms(1)] ledger_ok_reserved [OF assms(1)] unfolding holds_new_def by (auto, metis)
  moreover have "total_of m (totals l) + reserved_of m l \<le> ceiling_of m (l_ceilings l)"
    using h assms(2) by (simp add: holds_new_def escrow_ok_def account_def)
  moreover have "res_field m r \<le> max 0 (ceiling_of m (l_ceilings l) - total_of m (totals l) - reserved_of m l)"
    using h by (simp add: holds_new_def)
  ultimately show ?thesis using h Inr by (simp add: holds_new_def)
qed (use reserve_provider_facts [OF assms(3,1)] in auto)



section \<open>A sample run\<close>

text \<open>At time zero a tool call of up to 100 bytes is reserved and then completed.\<close>

definition sample_request :: provider_request where
  "sample_request = \<lparr>rq_input_tokens = 200, rq_output_tokens = 100, rq_cached_tokens = 50,
     rq_cache_write_tokens = 0, rq_cost = float_zero, rq_cost_status = KnownCost, rq_is_retry = False\<rparr>"

definition start_ledger :: ledger where
  "start_ledger = new_ledger sample_ceilings float_zero"

definition tool_ticket :: budget_reservation where
  "tool_ticket = \<lparr>reservation_id = ''budget.tool.000001'', res_kind = ToolKind, res_model_calls = 0,
     res_input_tokens = 0, res_output_tokens = 0, res_cached_tokens = 0, res_cache_write_tokens = 0,
     res_cost = float_zero, res_cost_status = None, res_tool_calls = 1,
     res_tool_output_bytes = 100, res_retries = 0\<rparr>"

definition reserved_ledger :: ledger where
  "reserved_ledger = start_ledger\<lparr>reservations := [tool_ticket], sequence_no := 1\<rparr>"

lemma sample_counts: "counts_ok sample_ceilings"
proof -
  have "0 \<le> ceiling_of m sample_ceilings \<and> ceiling_of m sample_ceilings < 2 ^ 53" for m
    by (cases m) (simp_all add: sample_ceilings_def)
  then show ?thesis by (simp add: counts_ok_def)
qed

lemma start_ok: "ledger_ok start_ledger" "escrow_ok (account m start_ledger)"
  unfolding start_ledger_def by (simp_all add: new_ledger_ok sample_counts)

lemma no_time_passed: "started_at l = float_zero \<Longrightarrow> elapsed_ms l float_zero = float_zero"
proof -
  assume l: "started_at l = float_zero"
  obtain f where "int_to_float 1000 = Inr f" "is_finite f" using small_int_float [of 1000] by auto
  then have "is_finite float_1000" by (simp add: float_1000_def int_to_float_def Let_def split: if_splits)
  note f = finite_float [OF this]
  have sub: "float_sub float_zero float_zero = float_zero"
    by (simp add: float_sub_def float_add_def float_neg_def is_nan_def is_inf_def float_units_def float_magnitude_def)
  have "\<not> is_nan float_zero" "\<not> is_inf float_zero" "float_magnitude float_zero = 0"
    by (simp_all add: is_nan_def is_inf_def float_magnitude_def)
  then have "float_mul float_zero float_1000 = PyFloat (flt_sign float_1000) 0 0"
    using f by (simp add: float_mul_def Let_def round_at_def round_shift_def pack_float_def)
  then show ?thesis
    by (simp add: elapsed_ms_def l sub Let_def float_lt_def is_nan_def float_key_def)
qed

lemma wall_left:
  assumes "started_at l = float_zero" and "l_ceilings l = sample_ceilings"
  shows "\<exists>f. wall_time_left l float_zero = Inr (NFloat f) \<and> is_finite f \<and> float_units f = 60000 * 2 ^ 1074"
proof -
  obtain f where f: "int_to_float 60000 = Inr f" "is_finite f" "float_units f = 60000 * 2 ^ 1074"
    using small_int_float [of 60000] by auto
  then have "of_units (60000 * 2 ^ 1074) = f" by (simp add: int_to_float_def Let_def split: if_splits)
  then have u: "of_units (float_units f) = f" "float_units f \<noteq> 0" using f(3) by simp_all
  have z: "\<not> is_nan (PyFloat True 0 0)" "\<not> is_inf (PyFloat True 0 0)" "float_units (PyFloat True 0 0) = 0"
    by (simp_all add: is_nan_def is_inf_def float_units_def float_magnitude_def)
  have "float_neg float_zero = PyFloat True 0 0" by (simp add: float_neg_def)
  then have "float_sub f float_zero = f"
    using u z finite_float [OF f(2)] by (simp add: float_sub_def float_add_def Let_def)
  then have "wall_time_left l float_zero = Inr (NFloat f)"
    using assms no_time_passed f(1) by (simp add: wall_time_left_def sample_ceilings_def)
  then show ?thesis using f by simp
qed

lemma time_left:
  assumes "started_at l = float_zero" and "l_ceilings l = sample_ceilings"
  shows "require_time l float_zero = Inr ()"
  using wall_left [OF assms] finite_float by (auto simp: require_time_def raise_if_def)

lemma sample_reserve: "reserve_tool_call start_ledger float_zero 100 = (Inr tool_ticket, reserved_ledger)"
proof -
  have "require_time start_ledger float_zero = Inr ()"
    by (rule time_left) (simp_all add: start_ledger_def new_ledger_def)
  moreover have "require_accounting start_ledger msg = Inr ()" for msg
    by (simp add: require_accounting_def start_ledger_def new_ledger_def zero_totals_def)
  moreover have "require_count_capacity start_ledger ToolCalls 1 = Inr ()"
    "require_count_capacity start_ledger ToolOutputBytes 100 = Inr ()"
    unfolding count_capacity_Inr [OF start_ok(1)]
    by (simp_all add: start_ledger_def new_ledger_def zero_totals_def reserved_of_def sample_ceilings_def)
  ultimately have "check_tool_capacity start_ledger float_zero 100 = Inr ()"
    by (simp add: check_tool_capacity_def require_nonnegative_def)
  moreover have "next_reservation_id start_ledger ToolKind = ''budget.tool.000001''"
  proof -
    have "pad6 1 = ''000001''" by code_simp
    then show ?thesis by (simp add: next_reservation_id_def start_ledger_def new_ledger_def)
  qed
  ultimately show ?thesis
    by (simp add: reserve_tool_call_def store_reservation_def reserved_ledger_def tool_ticket_def)
      (simp add: start_ledger_def new_ledger_def)
qed

lemma reserved_run: "ledger_step start_ledger reserved_ledger"
  using step_reserve_tool [of start_ledger float_zero 100] by (simp add: sample_reserve)

lemma reserved_ok: "ledger_ok reserved_ledger" "escrow_ok (account m reserved_ledger)"
  using budget.runs_keep [OF r_into_rtranclp [where r = ledger_step, OF reserved_run] start_ok(1)]
    budget.runs_safe [OF r_into_rtranclp [where r = ledger_step, OF reserved_run] start_ok, of m] by blast+

lemma sample_complete:
  assumes "0 \<le> n"
  shows "\<exists>s l. complete_tool_call reserved_ledger float_zero tool_ticket n float_zero = (s, l) \<and>
     reservations l = [] \<and> (n > 100 \<longrightarrow> violations l \<noteq> {})"
proof -
  note n = assms
  have "same_reservation tool_ticket tool_ticket"
    by (simp add: same_reservation_def tool_ticket_def float_le_def is_nan_def)
  then have pop: "pop_reservation reserved_ledger tool_ticket ToolKind = (Inr tool_ticket, reserved_ledger\<lparr>reservations := []\<rparr>)"
    by (simp add: pop_reservation_def reserved_ledger_def) (simp add: tool_ticket_def)
  have chk: "thenE (require_nonnegative ''output_bytes'' n) (require_nonnegative_float ''latency_ms'' float_zero) = Inr ()"
    using n by (simp add: require_nonnegative_def require_nonnegative_float_def is_finite_def float_lt_def float_key_def raise_if_def)
  obtain s l where sl: "complete_tool_call reserved_ledger float_zero tool_ticket n float_zero = (s, l)" by fastforce
  then have "\<exists>l0. l = snd (record_and_snapshot l0 float_zero) \<and> reservations l0 = [] \<and> (n > 100 \<longrightarrow> violations l0 \<noteq> {})"
    unfolding complete_tool_call_def chk pop
    by (auto simp: Let_def tool_ticket_def dest!: arg_cong [of _ "(s, l)" snd])
  with sl show ?thesis using record_and_snapshot_facts(2,5) by metis
qed


lemma step_completed:
  "complete_tool_call l now r n latency = (s, l') \<Longrightarrow> ledger_step l l'"
  using step_complete_tool [of l now r n latency] by simp

theorem ledger_refines_escrow_witness:
  "escrow_step\<^sup>*\<^sup>* (account ToolOutputBytes start_ledger) (account ToolOutputBytes reserved_ledger) \<and>
   held (account ToolOutputBytes reserved_ledger) = 100"
  using ledger_refines_escrow [OF reserved_run start_ok, of ToolOutputBytes]
  by (simp add: account_def reserved_of_def reserved_ledger_def tool_ticket_def)

theorem budget_within_ceilings_witness:
  "reserved_of ToolOutputBytes reserved_ledger = 100 \<and>
   total_of ToolOutputBytes (totals reserved_ledger) + 100 \<le> ceiling_of ToolOutputBytes sample_ceilings"
proof -
  have "reserved_of ToolOutputBytes reserved_ledger = 100" "violations reserved_ledger = {}"
    by (simp_all add: reserved_of_def reserved_ledger_def tool_ticket_def start_ledger_def new_ledger_def)
  then show ?thesis
    using budget_within_ceilings [OF sample_counts r_into_rtranclp [where r = ledger_step,
        OF reserved_run [unfolded start_ledger_def]], of ToolOutputBytes] by simp
qed

theorem reservation_settled_once_witness:
  "\<exists>l. ledger_step reserved_ledger l \<and>
     cancel_reservation l float_zero tool_ticket = (Inl (ValueError ''unknown or finalized budget reservation''), l)"
proof -
  obtain s l where l: "complete_tool_call reserved_ledger float_zero tool_ticket 50 float_zero = (s, l)" "reservations l = []"
    using sample_complete [of 50] by auto
  have "tool_ticket \<in> set (reservations reserved_ledger)" by (simp add: reserved_ledger_def)
  then show ?thesis
    using reservation_settled_once [OF reserved_ok(1) _ step_completed [OF l(1)] _ rtranclp.rtrancl_refl, of tool_ticket float_zero]
      step_completed [OF l(1)] l(2) by auto
qed

theorem damaged_ledger_blocks_witness:
  "\<exists>l e. ledger_step reserved_ledger l \<and> reserve_tool_call l float_zero 1 = (Inl e, l)"
proof -
  obtain s l where l: "complete_tool_call reserved_ledger float_zero tool_ticket 200 float_zero = (s, l)" "violations l \<noteq> {}"
    using sample_complete [of 200] by auto
  have "ledger_ok l" using budget.keeps [OF step_completed [OF l(1)] reserved_ok(1)] .
  moreover have "damaged l" using l(2) by (simp add: damaged_def)
  ultimately show ?thesis
    using damaged_ledger_blocks [OF _ _ rtranclp.rtrancl_refl, of l float_zero sample_request 1] step_completed [OF l(1)]
    by blast
qed

text \<open>A free provider call against the sample ceilings.\<close>

lemma units_power:
  assumes "k \<le> 2000"
  shows "float_units (of_units (2 ^ k)) = 2 ^ k" and "is_finite (of_units (2 ^ k))" and "\<not> flt_sign (of_units (2 ^ k))"
proof -
  have big: "nat (2 ^ k) < 2 ^ 2097"
    using assms power_strict_increasing [of k 2097 "2::nat"] by (simp add: nat_power_eq)
  have "bit_len (2 ^ k) \<le> Suc k" by (rule bit_len_le) simp
  then have "(2::nat) ^ round_shift 0 (2 ^ k) dvd 2 ^ k" by (intro le_imp_power_dvd) (simp add: round_shift_def)
  then have "round_at (round_shift 0 (2 ^ k)) (2 ^ k) = 2 ^ k" by (simp add: round_at_def Let_def)
  then show "float_units (of_units (2 ^ k)) = 2 ^ k" "is_finite (of_units (2 ^ k))" "\<not> flt_sign (of_units (2 ^ k))"
    using of_units_exact [OF _ big] by (simp_all add: nat_power_eq)
qed

lemma subtract_zero:
  assumes "is_finite f" and "float_units f = 2 ^ k"
  shows "float_sub f float_zero = of_units (2 ^ k)"
proof -
  have "\<not> is_nan (PyFloat True 0 0)" "\<not> is_inf (PyFloat True 0 0)" "float_units (PyFloat True 0 0) = 0"
    by (simp_all add: is_nan_def is_inf_def float_units_def float_magnitude_def)
  then show ?thesis
    using assms(2) finite_float [OF assms(1)] by (simp add: float_sub_def float_add_def float_neg_def Let_def)
qed

lemma free_call_fits:
  assumes "is_finite limit" and "float_units limit = 2 ^ k" and "k \<le> 1500"
  shows "require_capacity name (NFloat float_zero) (NInt 0) (NFloat float_zero) (NFloat limit) = Inr ()"
proof -
  define f where "f = of_units (2 ^ k)"
  have f: "is_finite f" "float_units f = 2 ^ k" using units_power [of k] assms(3) by (simp_all add: f_def)
  note nf = finite_float [OF f(1)]
  obtain z where "int_to_float 0 = Inr z" "is_finite z" "float_units z = 0" using small_int_float [of 0] by auto
  moreover have "of_units 0 = float_zero"
    by (simp add: of_units_def round_at_def round_shift_def pack_float_def)
  ultimately have z: "int_to_float 0 = Inr float_zero" by (simp add: int_to_float_def Let_def split: if_splits)
  have sub: "float_sub limit float_zero = f" "float_sub f float_zero = f"
    using subtract_zero assms(1,2) f by (simp_all add: f_def)
  have pos: "num_lt (NInt 0) (NFloat f)" using nf f(2) by simp
  define n where "n = 2 ^ k + float_units float_tolerance"
  have "(2::int) ^ k \<le> 2 ^ 1500" using assms(3) by (intro power_increasing) simp_all
  then have n: "0 < n" "nat n < 2 ^ 2097"
    using tolerance_units(1,2) by (simp_all add: n_def nat_less_iff add_pos_pos)
  then have "float_add f float_tolerance = of_units n"
    using nf f(2) finite_float [OF tolerance_units(3)] by (simp add: float_add_def Let_def n_def)
  moreover have "\<not> float_lt (of_units n) float_zero"
  proof -
    have "0 \<le> uint (flt_exp g) * 2 ^ 52 + uint (flt_frac g)" for g by simp
    moreover have "\<not> flt_sign (of_units n)" using of_units_exact(3) [of n] n by simp
    ultimately show ?thesis by (simp add: float_lt_def float_key_def not_less)
  qed
  ultimately show ?thesis
    using pos by (simp add: require_capacity_def sub z num_max_def raise_if_def del: num_lt.simps(2))
qed

lemma sample_provider: "\<exists>r l. reserve_provider_call start_ledger float_zero sample_request = (Inr r, l)"
proof -
  have time: "require_time start_ledger float_zero = Inr ()"
    by (rule time_left) (simp_all add: start_ledger_def new_ledger_def)
  have acc: "require_accounting start_ledger msg = Inr ()" for msg
    by (simp add: require_accounting_def start_ledger_def new_ledger_def zero_totals_def)
  have counts: "forE (\<lambda>(m, n). require_count_capacity start_ledger m n) (provider_metrics sample_request) = Inr ()"
    unfolding forE_Inr
    by (simp add: provider_metrics_def count_capacity_Inr [OF start_ok(1)])
      (simp add: sample_request_def start_ledger_def new_ledger_def zero_totals_def reserved_of_def sample_ceilings_def)
  have limits: "is_finite (max_known_cost_usd sample_ceilings)" "float_units (max_known_cost_usd sample_ceilings) = 2 ^ 1074"
    "is_finite (max_estimated_cost_usd sample_ceilings)" "float_units (max_estimated_cost_usd sample_ceilings) = 2 ^ 1075"
    by (simp_all add: sample_ceilings_def is_finite_def float_units_def float_magnitude_def)
  have empty: "reserved_cost start_ledger = NInt 0" "reserved_known_cost start_ledger = NInt 0"
    "l_ceilings start_ledger = sample_ceilings" "t_known_cost (totals start_ledger) = float_zero"
    "t_estimated_cost (totals start_ledger) = float_zero"
    by (simp_all add: reserved_cost_def reserved_known_cost_def start_ledger_def new_ledger_def zero_totals_def)
  have spent: "float_add float_zero float_zero = float_zero"
    by (simp add: float_add_def is_nan_def is_inf_def float_units_def float_magnitude_def)
  have "check_provider_capacity start_ledger float_zero sample_request = Inr ()"
    using free_call_fits [OF limits(1,2)] free_call_fits [OF limits(3,4)]
    by (simp add: check_provider_capacity_def time acc counts empty spent)
      (simp add: sample_request_def)
  moreover have "check_provider_request sample_request = Inr ()"
    by (simp add: check_provider_request_def sample_request_def require_nonnegative_def require_nonnegative_float_def
        is_finite_def float_lt_def float_key_def)
  ultimately show ?thesis by (simp add: reserve_provider_call_def store_reservation_def)
qed

theorem provider_reservation_fits_witness:
  "\<exists>r l. reserve_provider_call start_ledger float_zero sample_request = (Inr r, l) \<and> reservations l = [r] \<and>
     res_field InputTokens r \<le> ceiling_of InputTokens sample_ceilings"
proof -
  obtain r l where r: "reserve_provider_call start_ledger float_zero sample_request = (Inr r, l)"
    using sample_provider by blast
  then show ?thesis
    using provider_reservation_fits [OF start_ok r, of InputTokens]
    by (simp add: start_ledger_def new_ledger_def zero_totals_def reserved_of_def)
qed

lemma sample_snapshot: "\<exists>s. snapshot start_ledger float_zero = Inr s \<and> s_promotion_eligible s"
proof -
  have l: "started_at start_ledger = float_zero" "l_ceilings start_ledger = sample_ceilings" "violations start_ledger = {}"
    "totals start_ledger = zero_totals" "reservations start_ledger = []"
    by (simp_all add: start_ledger_def new_ledger_def)
  obtain f where f: "wall_time_left start_ledger float_zero = Inr (NFloat f)" "is_finite f" "float_units f = 60000 * 2 ^ 1074"
    using wall_left [OF l(1,2)] by blast
  then have "float_trunc f = Inr 60000"
    using finite_float [OF f(2)] by (auto simp: float_trunc_def require_finite_float_def float_units_def zdiv_int split: if_splits)
  then have left: "remaining_wall_time_ms start_ledger float_zero = Inr 60000"
    using f(1) by (simp add: remaining_wall_time_ms_def)
  have z: "float_ceil float_zero = Inr 0" "require_cost float_zero = Inr ()" "\<not> num_le (NInt 60000) (NFloat float_zero)"
    by (simp_all add: float_ceil_def require_finite_float_def is_nan_def is_inf_def float_units_def float_magnitude_def
        require_cost_def is_finite_def float_lt_def float_key_def)
  have "max_wall_time_ms sample_ceilings = 60000" by (simp add: sample_ceilings_def)
  then show ?thesis
    using left z l no_time_passed [OF l(1)]
    by (auto simp: snapshot_def Let_def validate_snapshot_def require_count_def raise_if_def zero_totals_def
        accounting_unknown_def simp del: num_le.simps)
qed


end
