(* ===== verification/ArtifactStore.thy ===== *)
theory ArtifactStore
  imports Compiler
begin

text \<open>
  The run-local artifact store (\<open>runtime/kernel/composite_artifacts.py\<close>): text artifacts are written
  once by the call the plan declares and delivered once to each call the plan names. A store is
  built from a compiled plan; every method returns its result with the new store. The results:
  a compiled plan always has a store; on every run the stored bytes stay within both limits, an
  artifact never changes once written, and what a call is given is the stored payload of an
  artifact declared for it, at most once.
\<close>

section \<open>The store\<close>

definition artifact_payload_digest :: "sha256 \<Rightarrow> string \<Rightarrow> string" where
  "artifact_payload_digest sha payload = identity_digest sha ''runtime-artifact-payload'' (PStr payload)"

record stored_artifact =
  st_artifact_id :: string
  st_channel_id :: string
  st_producer_call_id :: string
  st_payload :: string
  st_payload_digest :: string
  st_byte_size :: int
  st_max_bytes :: int
  st_consumers :: "string list"

record delivery_evidence =
  de_channel_id :: string
  de_artifact_id :: string
  de_producer_call_id :: string
  de_consumer_call_id :: string
  de_payload :: string
  de_payload_digest :: string
  de_byte_size :: int

record artifact_evidence =
  ev_artifact :: stored_artifact
  ev_consumers :: "string list"

text \<open>The dicts \<open>_write_plans\<close>, \<open>_delivery_plans\<close> and \<open>_artifacts\<close> are lists in insertion order whose keys
  are fields of their values. \<open>_actual_readers\<close> is a defaultdict of lists.\<close>

record artifact_store =
  max_total_bytes :: int
  write_plans :: "artifact_write list"
  delivery_plans :: "artifact_delivery list"
  artifacts :: "stored_artifact list"
  made_deliveries :: "delivery_evidence list"
  delivered_keys :: "(string \<times> string) list"
  actual_readers :: "string \<Rightarrow> string list"
  total_bytes :: int

abbreviation find_write :: "string \<Rightarrow> artifact_write list \<Rightarrow> artifact_write option" where
  "find_write i ws \<equiv> find (\<lambda>w. aw_artifact_id w = i) ws"

abbreviation find_artifact :: "string \<Rightarrow> stored_artifact list \<Rightarrow> stored_artifact option" where
  "find_artifact i as \<equiv> find (\<lambda>a. st_artifact_id a = i) as"

definition delivery_key :: "artifact_delivery \<Rightarrow> string \<times> string" where
  "delivery_key d = (ad_artifact_id d, ad_consumer_call_id d)"

fun register_writes :: "artifact_write list \<Rightarrow> artifact_write list \<Rightarrow> artifact_write list res" where
  "register_writes known [] = Inr known"
| "register_writes known (w # ws) =
     (if find_write (aw_artifact_id w) known \<noteq> None
      then Inl (ArtifactStoreError ''artifact has multiple write declarations'')
      else register_writes (known @ [w]) ws)"

fun register_deliveries ::
    "artifact_write list \<Rightarrow> artifact_delivery list \<Rightarrow> artifact_delivery list \<Rightarrow> artifact_delivery list res" where
  "register_deliveries ws known [] = Inr known"
| "register_deliveries ws known (d # ds) =
     (if delivery_key d \<in> set (map delivery_key known)
      then Inl (ArtifactStoreError ''artifact has a duplicate delivery'')
      else case find_write (ad_artifact_id d) ws of
          None \<Rightarrow> Inl (ArtifactStoreError ''delivery references undeclared artifact'')
        | Some w \<Rightarrow>
            if ad_channel_id d \<noteq> aw_channel_id w \<or> ad_producer_call_id d \<noteq> aw_producer_call_id w
            then Inl (ArtifactStoreError ''delivery does not match its write declaration'')
            else register_deliveries ws (known @ [d]) ds)"

definition intended_consumers :: "artifact_delivery list \<Rightarrow> string \<Rightarrow> string list" where
  "intended_consumers ds i = map ad_consumer_call_id (filter (\<lambda>d. ad_artifact_id d = i) ds)"

definition new_store :: "run_plan \<Rightarrow> int \<Rightarrow> artifact_store res" where
  "new_store plan limit =
     thenE (raise_if (limit \<le> 0) (ValueError ''max_total_bytes must be positive'')) (
     bindE (register_writes [] (concat (map artifact_writes (actor_calls plan)))) (\<lambda>ws.
     bindE (register_deliveries ws [] (artifact_deliveries plan)) (\<lambda>ds.
     thenE (forE (\<lambda>w. raise_if (intended_consumers ds (aw_artifact_id w) = [])
         (ArtifactStoreError ''declared artifact has no intended consumer'')) ws)
     (Inr \<lparr>max_total_bytes = limit, write_plans = ws, delivery_plans = ds, artifacts = [],
       made_deliveries = [], delivered_keys = [], actual_readers = (\<lambda>_. []), total_bytes = 0\<rparr>))))"

section \<open>Operations\<close>

text \<open>Strings are UTF-8 bytes, so the length is the encoded size.\<close>

definition write_checks :: "artifact_store \<Rightarrow> artifact_write \<Rightarrow> string \<Rightarrow> int \<Rightarrow> unit res" where
  "write_checks s w producer n =
     thenE (raise_if (find_write (aw_artifact_id w) (write_plans s) \<noteq> Some w)
       (ArtifactStoreError ''artifact write was not declared by the run plan'')) (
     thenE (raise_if (producer \<noteq> aw_producer_call_id w)
       (ArtifactStoreError ''call cannot produce artifact'')) (
     thenE (raise_if (find_artifact (aw_artifact_id w) (artifacts s) \<noteq> None)
       (ArtifactStoreError ''artifact is immutable'')) (
     thenE (raise_if (n > aw_max_bytes w)
       (ArtifactStoreError ''artifact exceeds its byte limit'')) (
     thenE (raise_if (total_bytes s + n > max_total_bytes s)
       (ArtifactStoreError ''aggregate artifact byte ceiling exceeded''))
     (validated (require_gt0 (aw_max_bytes w) ''max_bytes''))))))"

definition store_write ::
    "sha256 \<Rightarrow> artifact_store \<Rightarrow> artifact_write \<Rightarrow> string \<Rightarrow> string \<Rightarrow> stored_artifact res \<times> artifact_store" where
  "store_write sha s w producer payload =
     (let size = int (length payload) in
      case write_checks s w producer size of
        Inl e \<Rightarrow> (Inl e, s)
      | Inr _ \<Rightarrow>
          let a = \<lparr>st_artifact_id = aw_artifact_id w, st_channel_id = aw_channel_id w,
                st_producer_call_id = producer, st_payload = payload,
                st_payload_digest = artifact_payload_digest sha payload, st_byte_size = size,
                st_max_bytes = aw_max_bytes w,
                st_consumers = intended_consumers (delivery_plans s) (aw_artifact_id w)\<rparr>
          in (Inr a, s\<lparr>artifacts := artifacts s @ [a], total_bytes := total_bytes s + size\<rparr>))"

definition add_reader :: "string \<Rightarrow> string \<Rightarrow> (string \<Rightarrow> string list) \<Rightarrow> string \<Rightarrow> string list" where
  "add_reader i consumer r = r(i := r i @ [consumer])"

definition store_deliver ::
    "artifact_store \<Rightarrow> string \<Rightarrow> string \<Rightarrow> delivery_evidence res \<times> artifact_store" where
  "store_deliver s i consumer =
     (case find (\<lambda>d. delivery_key d = (i, consumer)) (delivery_plans s) of
        None \<Rightarrow> (Inl (ArtifactStoreError ''artifact is not declared for call''), s)
      | Some d \<Rightarrow>
          if (i, consumer) \<in> set (delivered_keys s)
          then (Inl (ArtifactStoreError ''artifact was already delivered''), s)
          else (case find_artifact i (artifacts s) of
              None \<Rightarrow> (Inl (ArtifactStoreError ''required artifact has not been produced''), s)
            | Some a \<Rightarrow>
                let e = \<lparr>de_channel_id = ad_channel_id d, de_artifact_id = st_artifact_id a,
                      de_producer_call_id = st_producer_call_id a, de_consumer_call_id = consumer,
                      de_payload = st_payload a, de_payload_digest = st_payload_digest a,
                      de_byte_size = st_byte_size a\<rparr>
                in (Inr e, s\<lparr>made_deliveries := made_deliveries s @ [e],
                      delivered_keys := delivered_keys s @ [(i, consumer)],
                      actual_readers := add_reader i consumer (actual_readers s)\<rparr>)))"

definition store_artifact :: "artifact_store \<Rightarrow> string \<Rightarrow> stored_artifact res" where
  "store_artifact s i = (case find_artifact i (artifacts s) of
       None \<Rightarrow> Inl (ArtifactStoreError ''artifact does not exist'') | Some a \<Rightarrow> Inr a)"

definition was_delivered :: "artifact_store \<Rightarrow> string \<Rightarrow> string \<Rightarrow> bool" where
  "was_delivered s i consumer \<longleftrightarrow> (i, consumer) \<in> set (delivered_keys s)"

definition read_retained ::
    "artifact_store \<Rightarrow> string \<Rightarrow> string \<Rightarrow> stored_artifact res \<times> artifact_store" where
  "read_retained s i consumer =
     (case store_artifact s i of
        Inl e \<Rightarrow> (Inl e, s)
      | Inr a \<Rightarrow>
          if consumer \<in> set (actual_readers s i)
          then (Inl (ArtifactStoreError ''artifact was already read''), s)
          else (Inr a, s\<lparr>actual_readers := add_reader i consumer (actual_readers s)\<rparr>))"

definition store_evidence :: "artifact_store \<Rightarrow> artifact_evidence list" where
  "store_evidence s = map (\<lambda>a. \<lparr>ev_artifact = a, ev_consumers = actual_readers s (st_artifact_id a)\<rparr>) (artifacts s)"

section \<open>Well-formed stores\<close>

definition artifact_ok :: "sha256 \<Rightarrow> artifact_store \<Rightarrow> stored_artifact \<Rightarrow> bool" where
  "artifact_ok sha s a \<longleftrightarrow>
     (\<exists>w\<in>set (write_plans s). aw_artifact_id w = st_artifact_id a \<and> aw_channel_id w = st_channel_id a \<and>
        aw_producer_call_id w = st_producer_call_id a \<and> aw_max_bytes w = st_max_bytes a) \<and>
     st_byte_size a = int (length (st_payload a)) \<and> st_byte_size a \<le> st_max_bytes a \<and>
     st_payload_digest a = artifact_payload_digest sha (st_payload a)"

definition delivery_ok :: "artifact_store \<Rightarrow> delivery_evidence \<Rightarrow> bool" where
  "delivery_ok s e \<longleftrightarrow>
     (\<exists>d\<in>set (delivery_plans s). ad_channel_id d = de_channel_id e \<and>
        delivery_key d = (de_artifact_id e, de_consumer_call_id e)) \<and>
     (\<exists>a\<in>set (artifacts s). st_artifact_id a = de_artifact_id e \<and> st_producer_call_id a = de_producer_call_id e \<and>
        st_payload a = de_payload e \<and> st_payload_digest a = de_payload_digest e \<and> st_byte_size a = de_byte_size e)"

definition store_ok :: "sha256 \<Rightarrow> artifact_store \<Rightarrow> bool" where
  "store_ok sha s \<longleftrightarrow> distinct (map st_artifact_id (artifacts s)) \<and>
     (\<forall>a\<in>set (artifacts s). artifact_ok sha s a) \<and>
     total_bytes s = sum_list (map st_byte_size (artifacts s)) \<and> total_bytes s \<le> max_total_bytes s \<and>
     map (\<lambda>e. (de_artifact_id e, de_consumer_call_id e)) (made_deliveries s) = delivered_keys s \<and>
     distinct (delivered_keys s) \<and> (\<forall>e\<in>set (made_deliveries s). delivery_ok s e)"

inductive store_step :: "sha256 \<Rightarrow> artifact_store \<Rightarrow> artifact_store \<Rightarrow> bool" for sha where
  step_write: "store_step sha s (snd (store_write sha s w producer payload))"
| step_deliver: "store_step sha s (snd (store_deliver s i consumer))"
| step_retained: "store_step sha s (snd (read_retained s i consumer))"


section \<open>Stores that write once\<close>

text \<open>What a store promises: its steps keep a well-formedness invariant, and what is stored under a
  key stays there. Both then hold along every run.\<close>

locale write_once =
  fixes step :: "'s \<Rightarrow> 's \<Rightarrow> bool"
    and ok :: "'s \<Rightarrow> bool"
    and stored :: "'s \<Rightarrow> 'k \<Rightarrow> 'v option"
  assumes step_ok: "step s t \<Longrightarrow> ok s \<Longrightarrow> ok t"
    and step_keeps: "step s t \<Longrightarrow> stored s k = Some v \<Longrightarrow> stored t k = Some v"
begin

lemma run_ok: "step\<^sup>*\<^sup>* s t \<Longrightarrow> ok s \<Longrightarrow> ok t"
  by (induction rule: rtranclp_induct) (auto intro: step_ok)

lemma run_keeps: "step\<^sup>*\<^sup>* s t \<Longrightarrow> stored s k = Some v \<Longrightarrow> stored t k = Some v"
  by (induction rule: rtranclp_induct) (auto intro: step_keeps)

lemma run_agrees: "step\<^sup>*\<^sup>* s t \<Longrightarrow> stored s k = Some v \<Longrightarrow> stored t k = Some w \<Longrightarrow> v = w"
  using run_keeps by fastforce

end

definition stored_at :: "artifact_store \<Rightarrow> string \<Rightarrow> stored_artifact option" where
  "stored_at s i = find_artifact i (artifacts s)"

inductive_cases store_stepE: "store_step sha s t"

definition written_artifact :: "sha256 \<Rightarrow> artifact_store \<Rightarrow> artifact_write \<Rightarrow> string \<Rightarrow> stored_artifact" where
  "written_artifact sha s w payload = \<lparr>st_artifact_id = aw_artifact_id w, st_channel_id = aw_channel_id w,
     st_producer_call_id = aw_producer_call_id w, st_payload = payload,
     st_payload_digest = artifact_payload_digest sha payload, st_byte_size = int (length payload),
     st_max_bytes = aw_max_bytes w,
     st_consumers = intended_consumers (delivery_plans s) (aw_artifact_id w)\<rparr>"

lemma store_write_cases:
  assumes "store_write sha s w producer payload = (r, t)"
  obtains e where "r = Inl e" and "t = s"
  | "r = Inr (written_artifact sha s w payload)" and "producer = aw_producer_call_id w"
    and "find_write (aw_artifact_id w) (write_plans s) = Some w" and "stored_at s (aw_artifact_id w) = None"
    and "int (length payload) \<le> aw_max_bytes w" and "total_bytes s + int (length payload) \<le> max_total_bytes s"
    and "t = s\<lparr>artifacts := artifacts s @ [written_artifact sha s w payload],
      total_bytes := total_bytes s + int (length payload)\<rparr>"
proof (cases "write_checks s w producer (int (length payload))")
  case (Inl e)
  with assms that(1) show thesis by (auto simp: store_write_def Let_def)
next
  case (Inr u)
  then have c: "find_write (aw_artifact_id w) (write_plans s) = Some w" "producer = aw_producer_call_id w"
    "stored_at s (aw_artifact_id w) = None" "int (length payload) \<le> aw_max_bytes w"
    "total_bytes s + int (length payload) \<le> max_total_bytes s"
    unfolding write_checks_def stored_at_def by (simp_all only: res_simps not_not not_less)
  show thesis by (rule that(2)) (use assms Inr c in \<open>auto simp: store_write_def Let_def written_artifact_def\<close>)
qed

lemma store_deliver_cases:
  assumes "store_deliver s i consumer = (r, t)"
  obtains e where "r = Inl e" and "t = s"
  | d a where "d \<in> set (delivery_plans s)" and "delivery_key d = (i, consumer)"
    and "(i, consumer) \<notin> set (delivered_keys s)" and "stored_at s i = Some a"
    and "r = Inr \<lparr>de_channel_id = ad_channel_id d, de_artifact_id = i,
      de_producer_call_id = st_producer_call_id a, de_consumer_call_id = consumer,
      de_payload = st_payload a, de_payload_digest = st_payload_digest a, de_byte_size = st_byte_size a\<rparr>"
    and "t = s\<lparr>made_deliveries := made_deliveries s @ [projr r],
      delivered_keys := delivered_keys s @ [(i, consumer)],
      actual_readers := add_reader i consumer (actual_readers s)\<rparr>"
proof (cases "find (\<lambda>d. delivery_key d = (i, consumer)) (delivery_plans s)")
  case None
  with assms that(1) show thesis by (auto simp: store_deliver_def)
next
  case (Some d)
  note d = find_key_Some [OF this]
  show thesis
  proof (cases "stored_at s i")
    case None
    then show thesis using assms Some that(1)
      by (cases "(i, consumer) \<in> set (delivered_keys s)") (auto simp: store_deliver_def stored_at_def)
  next
    case a: (Some a)
    then have i: "st_artifact_id a = i" unfolding stored_at_def by (auto dest: find_key_Some)
    show thesis
    proof (cases "(i, consumer) \<in> set (delivered_keys s)")
      case True
      then show thesis using assms Some that(1) by (auto simp: store_deliver_def)
    next
      case False
      show thesis by (rule that(2) [of d a])
        (use assms Some d a i False in \<open>auto simp: store_deliver_def stored_at_def Let_def\<close>)
    qed
  qed
qed

lemma read_retained_cases:
  assumes "read_retained s i consumer = (r, t)"
  obtains "t = s" | "t = s\<lparr>actual_readers := add_reader i consumer (actual_readers s)\<rparr>"
  using assms unfolding read_retained_def by (auto split: sum.splits if_splits)

lemma store_step_cases:
  assumes "store_step sha s t"
  obtains "t = s"
  | r where "t = s\<lparr>actual_readers := r\<rparr>"
  | w payload where "find_write (aw_artifact_id w) (write_plans s) = Some w"
    and "stored_at s (aw_artifact_id w) = None" and "int (length payload) \<le> aw_max_bytes w"
    and "total_bytes s + int (length payload) \<le> max_total_bytes s"
    and "t = s\<lparr>artifacts := artifacts s @ [written_artifact sha s w payload],
      total_bytes := total_bytes s + int (length payload)\<rparr>"
  | d a i consumer r where "d \<in> set (delivery_plans s)" and "delivery_key d = (i, consumer)"
    and "(i, consumer) \<notin> set (delivered_keys s)" and "stored_at s i = Some a"
    and "t = s\<lparr>made_deliveries := made_deliveries s @ [\<lparr>de_channel_id = ad_channel_id d, de_artifact_id = i,
      de_producer_call_id = st_producer_call_id a, de_consumer_call_id = consumer,
      de_payload = st_payload a, de_payload_digest = st_payload_digest a, de_byte_size = st_byte_size a\<rparr>],
      delivered_keys := delivered_keys s @ [(i, consumer)], actual_readers := r\<rparr>"
  using assms
proof (rule store_stepE)
  fix w producer payload
  assume "t = snd (store_write sha s w producer payload)"
  then have "store_write sha s w producer payload = (fst (store_write sha s w producer payload), t)" by simp
  then show thesis by (cases rule: store_write_cases) (rule that(1) that(3); assumption)+
next
  fix i consumer
  assume "t = snd (store_deliver s i consumer)"
  then have "store_deliver s i consumer = (fst (store_deliver s i consumer), t)" by simp
  then show thesis
  proof (cases rule: store_deliver_cases)
    case (2 d a)
    show thesis by (rule that(4) [OF 2(1-4)]) (use 2(5,6) in simp)
  qed (rule that(1))
next
  fix i consumer
  assume "t = snd (read_retained s i consumer)"
  then have "read_retained s i consumer = (fst (read_retained s i consumer), t)" by simp
  then show thesis by (cases rule: read_retained_cases) (rule that(1) that(2), assumption)+
qed

lemma stored_at_append [simp]:
  "stored_at (s\<lparr>artifacts := artifacts s @ [a], total_bytes := n\<rparr>) i =
     (case stored_at s i of Some b \<Rightarrow> Some b | None \<Rightarrow> if st_artifact_id a = i then Some a else None)"
proof -
  have "find P (xs @ [a]) = (case find P xs of Some b \<Rightarrow> Some b | None \<Rightarrow> if P a then Some a else None)"
    for P and xs :: "stored_artifact list"
    by (induction xs) auto
  then show ?thesis by (simp add: stored_at_def)
qed



lemma stored_at_None: "stored_at s i = None \<longleftrightarrow> i \<notin> st_artifact_id ` set (artifacts s)"
  by (simp add: stored_at_def find_key_None)

lemma stored_at_Some: "stored_at s i = Some a \<Longrightarrow> a \<in> set (artifacts s) \<and> st_artifact_id a = i"
  unfolding stored_at_def by (rule find_key_Some)

lemma written_artifact_simps [simp]:
  "st_artifact_id (written_artifact sha s w p) = aw_artifact_id w"
  "st_byte_size (written_artifact sha s w p) = int (length p)"
  by (simp_all add: written_artifact_def)

lemma store_step_ok:
  assumes "store_step sha s t" and "store_ok sha s"
  shows "store_ok sha t"
  using assms(1)
proof (cases rule: store_step_cases)
  case 1
  then show ?thesis using assms(2) by simp
next
  case (2 r)
  have "artifact_ok sha t a = artifact_ok sha s a" "delivery_ok t e = delivery_ok s e" for a e
    using 2 by (simp_all add: artifact_ok_def delivery_ok_def)
  then show ?thesis using assms(2) 2 by (simp add: store_ok_def)
next
  case (3 w payload)
  have "w \<in> set (write_plans s)" using find_key_Some [OF 3(1)] by simp
  then have "artifact_ok sha t (written_artifact sha s w payload)"
    using 3 by (auto simp: artifact_ok_def written_artifact_def)
  moreover have "artifact_ok sha t a" if "artifact_ok sha s a" for a using that 3 by (simp add: artifact_ok_def)
  moreover have "delivery_ok t e" if "delivery_ok s e" for e using that 3 by (auto simp: delivery_ok_def)
  ultimately show ?thesis using assms(2) 3 by (auto simp: store_ok_def stored_at_None)
next
  case (4 d a i consumer r)
  note a = stored_at_Some [OF 4(4)]
  let ?e = "\<lparr>de_channel_id = ad_channel_id d, de_artifact_id = i,
      de_producer_call_id = st_producer_call_id a, de_consumer_call_id = consumer,
      de_payload = st_payload a, de_payload_digest = st_payload_digest a, de_byte_size = st_byte_size a\<rparr>"
  have "delivery_ok t ?e" using 4 a by (auto simp: delivery_ok_def)
  moreover have "artifact_ok sha t a" if "artifact_ok sha s a" for a using that 4 by (simp add: artifact_ok_def)
  moreover have "delivery_ok t e" if "delivery_ok s e" for e using that 4 by (auto simp: delivery_ok_def)
  ultimately show ?thesis using assms(2) 4 by (auto simp: store_ok_def)
qed

lemma store_step_keeps: "store_step sha s t \<Longrightarrow> stored_at s i = Some a \<Longrightarrow> stored_at t i = Some a"
  by (erule store_step_cases) (simp, simp add: stored_at_def, simp, simp add: stored_at_def)

interpretation artifact_log: write_once "store_step sha" "store_ok sha" stored_at
  by unfold_locales (auto intro: store_step_ok store_step_keeps)

lemma store_step_plans:
  "store_step sha s t \<Longrightarrow> write_plans t = write_plans s \<and> delivery_plans t = delivery_plans s \<and>
     max_total_bytes t = max_total_bytes s"
  by (erule store_step_cases) auto

lemma store_run_plans:
  "(store_step sha)\<^sup>*\<^sup>* s t \<Longrightarrow> write_plans t = write_plans s \<and> delivery_plans t = delivery_plans s \<and>
     max_total_bytes t = max_total_bytes s"
  by (induction rule: rtranclp_induct) (auto dest: store_step_plans)

lemma new_store_fields:
  assumes "new_store plan limit = Inr s"
  shows "store_ok sha s" and "0 < limit" and "max_total_bytes s = limit" and "artifacts s = []"
    and "actual_readers s = (\<lambda>_. [])" and "made_deliveries s = []" and "delivered_keys s = []"
proof -
  from assms obtain ws ds where "0 < limit" and s: "s = \<lparr>max_total_bytes = limit, write_plans = ws,
      delivery_plans = ds, artifacts = [], made_deliveries = [], delivered_keys = [],
      actual_readers = (\<lambda>_. []), total_bytes = 0\<rparr>"
    unfolding new_store_def bindE_Inr thenE_Inr raise_if_Inr not_le by blast
  then show "store_ok sha s" "0 < limit" "max_total_bytes s = limit" "artifacts s = []"
    "actual_readers s = (\<lambda>_. [])" "made_deliveries s = []" "delivered_keys s = []"
    by (simp_all add: store_ok_def)
qed


section \<open>Runs of the store\<close>

text \<open>C32: on every run of a store, the payloads together stay within the store's limit and each stays
  within the limit of its declaration, an artifact once stored keeps its payload, producer and
  digest for the rest of the run, and every delivery was declared by the plan for that call, was
  made once, and carried the payload that is stored.\<close>

theorem artifacts_written_once:
  assumes "new_store plan limit = Inr s0" and "(store_step sha)\<^sup>*\<^sup>* s0 s" and "(store_step sha)\<^sup>*\<^sup>* s t"
  shows "sum_list (map (\<lambda>a. int (length (st_payload a))) (artifacts t)) \<le> limit \<and>
    list_all (\<lambda>a. int (length (st_payload a)) \<le> st_max_bytes a \<and>
      st_payload_digest a = artifact_payload_digest sha (st_payload a) \<and>
      list_ex (\<lambda>w. aw_artifact_id w = st_artifact_id a \<and> aw_producer_call_id w = st_producer_call_id a \<and>
        aw_max_bytes w = st_max_bytes a) (write_plans s0)) (artifacts t) \<and>
    (stored_at s i = Some a \<longrightarrow> stored_at t i = Some a) \<and>
    distinct (map (\<lambda>e. (de_artifact_id e, de_consumer_call_id e)) (made_deliveries t)) \<and>
    list_all (\<lambda>e. (de_artifact_id e, de_consumer_call_id e) \<in> set (map delivery_key (delivery_plans s0)) \<and>
      map_option st_payload (stored_at t (de_artifact_id e)) = Some (de_payload e)) (made_deliveries t)"
proof -
  note new = new_store_fields [OF assms(1)]
  have run: "(store_step sha)\<^sup>*\<^sup>* s0 t" using assms(2,3) by simp
  have ok: "store_ok sha t" by (rule artifact_log.run_ok [OF run new(1)])
  note plans = store_run_plans [OF run]
  have art: "artifact_ok sha t a" if "a \<in> set (artifacts t)" for a using ok that by (simp add: store_ok_def)
  have bytes: "map (\<lambda>a. int (length (st_payload a))) (artifacts t) = map st_byte_size (artifacts t)"
    using art by (simp add: artifact_ok_def)
  have at: "stored_at t (st_artifact_id a) = Some a" if "a \<in> set (artifacts t)" for a
  proof -
    have "distinct (map st_artifact_id (artifacts t))" using ok by (simp add: store_ok_def)
    then show ?thesis using that unfolding stored_at_def
      by (cases "find_artifact (st_artifact_id a) (artifacts t)")
        (auto simp: find_key_None dest: find_key_Some distinct_map_eq)
  qed
  have dv: "delivery_ok t e" if "e \<in> set (made_deliveries t)" for e using ok that by (simp add: store_ok_def)
  have "(de_artifact_id e, de_consumer_call_id e) \<in> set (map delivery_key (delivery_plans s0)) \<and>
      map_option st_payload (stored_at t (de_artifact_id e)) = Some (de_payload e)"
    if "e \<in> set (made_deliveries t)" for e
    using dv [OF that] at plans unfolding delivery_ok_def by (metis image_eqI list.set_map option.map(2))
  moreover have "sum_list (map st_byte_size (artifacts t)) \<le> limit" using ok plans new(3) by (simp add: store_ok_def)
  moreover have "distinct (map (\<lambda>e. (de_artifact_id e, de_consumer_call_id e)) (made_deliveries t))"
    using ok by (simp add: store_ok_def)
  moreover have "int (length (st_payload a)) \<le> st_max_bytes a \<and>
      st_payload_digest a = artifact_payload_digest sha (st_payload a) \<and>
      list_ex (\<lambda>w. aw_artifact_id w = st_artifact_id a \<and> aw_producer_call_id w = st_producer_call_id a \<and>
        aw_max_bytes w = st_max_bytes a) (write_plans s0)" if "a \<in> set (artifacts t)" for a
    using art [OF that] plans unfolding artifact_ok_def list_ex_iff by auto
  ultimately show ?thesis using artifact_log.run_keeps [OF assms(3)] by (simp add: bytes list_all_iff)
qed

section \<open>The store of a compiled plan\<close>

lemma register_writes_ok:
  "distinct (map aw_artifact_id (known @ ws)) \<Longrightarrow> register_writes known ws = Inr (known @ ws)"
  by (induction ws arbitrary: known) (auto simp: find_key_None)

lemma register_deliveries_ok:
  assumes "distinct (map delivery_key (known @ ds))"
    and "\<And>d. d \<in> set ds \<Longrightarrow> \<exists>w. find_write (ad_artifact_id d) ws = Some w \<and>
      aw_channel_id w = ad_channel_id d \<and> aw_producer_call_id w = ad_producer_call_id d"
  shows "register_deliveries ws known ds = Inr (known @ ds)"
  using assms
proof (induction ds arbitrary: known)
  case (Cons d ds)
  obtain w where "find_write (ad_artifact_id d) ws = Some w" "aw_channel_id w = ad_channel_id d"
    "aw_producer_call_id w = ad_producer_call_id d" using Cons.prems(2) [of d] by auto
  moreover have "register_deliveries ws (known @ [d]) ds = Inr ((known @ [d]) @ ds)"
    by (rule Cons.IH) (use Cons.prems in auto)
  ultimately show ?case using Cons.prems(1) by (auto simp: image_iff)
qed simp

lemma artifact_id_of_inject [simp]: "artifact_id_of a = artifact_id_of b \<longleftrightarrow> a = b"
  by (simp add: artifact_id_of_def)

definition plan_writes :: "run_plan \<Rightarrow> artifact_write list" where
  "plan_writes plan = concat (map artifact_writes (actor_calls plan))"

lemma plan_writes_of: "plan_writes (plan_of sha t p m) = concat (map (writes_of t p) (concat (levels_of p)))"
  by (cases "revision p")
    (simp_all add: plan_writes_def calls_of_def initial_call_of_def revision_call_of_def Let_def comp_def)

lemma writes_of_ids: "map aw_artifact_id (writes_of t p i) =
    map (\<lambda>c. artifact_id_of (channel_id c)) (filter (\<lambda>c. producer_actor_id c = i) (artifact_channels p))"
  by (simp add: writes_of_def)

lemma distinct_writes:
  assumes "distinct (channel_ids p)" and "distinct xs"
  shows "distinct (map aw_artifact_id (concat (map (writes_of t p) xs)))"
  using assms(2)
proof (induction xs)
  case (Cons x xs)
  have inj: "inj_on channel_id (set (artifact_channels p))" "distinct (artifact_channels p)"
    using assms(1) by (simp_all add: distinct_map)
  then have "distinct (map aw_artifact_id (writes_of t p x))"
    unfolding writes_of_ids distinct_map by (auto simp: inj_on_def)
  moreover have "aw_artifact_id w \<noteq> aw_artifact_id v"
    if w: "w \<in> set (writes_of t p x)" and v: "v \<in> set (writes_of t p y)" and y: "y \<in> set xs" for w v y
  proof
    assume eq: "aw_artifact_id w = aw_artifact_id v"
    obtain c d where c: "c \<in> set (artifact_channels p)" "producer_actor_id c = x" "aw_artifact_id w = artifact_id_of (channel_id c)"
      and d: "d \<in> set (artifact_channels p)" "producer_actor_id d = y" "aw_artifact_id v = artifact_id_of (channel_id d)"
      using w v by (auto simp: writes_of_def)
    have "c = d" using inj_onD [OF inj(1) _ c(1) d(1)] eq c(3) d(3) by simp
    with Cons.prems y c(2) d(2) show False by auto
  qed
  ultimately show ?case using Cons by auto
qed simp

lemma delivery_key_of:
  assumes "distinct (channel_ids p)"
  shows "distinct (map delivery_key (deliveries_of p))"
  using assms by (auto simp: distinct_map inj_on_def delivery_key_def delivery_of_def)

lemma write_of_channel:
  assumes "protocol_ok p" and "set (concat levels) = set (actor_ids p)" and "c \<in> set (artifact_channels p)"
  shows "\<exists>w\<in>set (concat (map (writes_of t p) (concat levels))). aw_artifact_id w = artifact_id_of (channel_id c) \<and>
    aw_channel_id w = channel_id c \<and> aw_producer_call_id w = initial_call_id (producer_actor_id c)"
proof -
  have "producer_actor_id c \<in> set (concat levels)" using protocol_ok_parts(5) [OF assms(1,3)] assms(2) by simp
  moreover have "\<exists>w\<in>set (writes_of t p (producer_actor_id c)). aw_artifact_id w = artifact_id_of (channel_id c) \<and>
    aw_channel_id w = channel_id c \<and> aw_producer_call_id w = initial_call_id (producer_actor_id c)"
    using assms(3) by (auto simp: writes_of_def)
  ultimately show ?thesis by fastforce
qed

lemma find_write_unique:
  assumes "distinct (map aw_artifact_id ws)" and "w \<in> set ws"
  shows "find_write (aw_artifact_id w) ws = Some w"
  using assms by (cases "find_write (aw_artifact_id w) ws")
    (auto simp: find_key_None dest: find_key_Some distinct_map_eq)

lemma store_of_plan:
  assumes "protocol_ok p" and "topology_ok p" and "0 < limit"
  shows "new_store (plan_of sha t p m) limit = Inr \<lparr>max_total_bytes = limit,
    write_plans = plan_writes (plan_of sha t p m), delivery_plans = deliveries_of p, artifacts = [],
    made_deliveries = [], delivered_keys = [], actual_readers = (\<lambda>_. []), total_bytes = 0\<rparr>"
proof -
  note good = good_levels_parts [OF levels_of_good(2) [OF assms(1,2)]]
  let ?ws = "concat (map (writes_of t p) (concat (levels_of p)))"
  have dw: "distinct (map aw_artifact_id ?ws)"
    by (rule distinct_writes [OF protocol_ok_parts(3) [OF assms(1)] good(2)])
  have writes: "register_writes [] ?ws = Inr ?ws" using register_writes_ok [of "[]" ?ws] dw by simp
  have "\<exists>w. find_write (ad_artifact_id d) ?ws = Some w \<and>
      aw_channel_id w = ad_channel_id d \<and> aw_producer_call_id w = ad_producer_call_id d"
    if d: "d \<in> set (deliveries_of p)" for d
  proof -
    obtain c where c: "c \<in> set (artifact_channels p)" "d = delivery_of p c" using d by auto
    obtain w where w: "w \<in> set ?ws" "aw_artifact_id w = artifact_id_of (channel_id c)"
      "aw_channel_id w = channel_id c" "aw_producer_call_id w = initial_call_id (producer_actor_id c)"
      using write_of_channel [OF assms(1) good(1) c(1)] by blast
    show ?thesis using find_write_unique [OF dw w(1)] w c(2) by (simp add: delivery_of_def)
  qed
  then have deliveries: "register_deliveries ?ws [] (deliveries_of p) = Inr (deliveries_of p)"
    using register_deliveries_ok [of "[]" "deliveries_of p" ?ws] delivery_key_of [OF protocol_ok_parts(3) [OF assms(1)]]
    by simp
  have "intended_consumers (deliveries_of p) (aw_artifact_id w) \<noteq> []" if w: "w \<in> set ?ws" for w
  proof -
    obtain c where "c \<in> set (artifact_channels p)" "aw_artifact_id w = artifact_id_of (channel_id c)"
      using w by (auto simp: writes_of_def)
    then have "delivery_of p c \<in> set (filter (\<lambda>d. ad_artifact_id d = aw_artifact_id w) (deliveries_of p))"
      by (auto simp: delivery_of_def)
    then show ?thesis unfolding intended_consumers_def by (metis Nil_is_map_conv empty_iff empty_set)
  qed
  then have consumers: "forE (\<lambda>w. raise_if (intended_consumers (deliveries_of p) (aw_artifact_id w) = [])
      (ArtifactStoreError ''declared artifact has no intended consumer'')) ?ws = Inr ()"
    by (simp only: forE_Inr raise_if_Inr) blast
  have plan: "concat (map artifact_writes (actor_calls (plan_of sha t p m))) = ?ws"
    using plan_writes_of [of sha t p m] by (simp only: plan_writes_def)
  have "raise_if (limit \<le> 0) (ValueError ''max_total_bytes must be positive'') = Inr ()" using assms(3) by simp
  then show ?thesis unfolding new_store_def plan writes plan_writes_def
    by (simp only: deliveries consumers plan_of_fields bindE_simps thenE_simps)
qed

text \<open>The store of a compiled plan is always built, the writes of every call and the
  deliveries to every call are declared in it, and every delivery has a producer that writes it.\<close>

theorem compiled_plan_has_store:
  assumes "compile_composite_run_plan sha md task protocol manifest reject = Inr plan" and "0 < limit"
  shows "\<exists>s. new_store plan limit = Inr s \<and> delivery_plans s = artifact_deliveries plan \<and>
    list_all (\<lambda>c. list_all (\<lambda>w. find_write (aw_artifact_id w) (write_plans s) = Some w) (artifact_writes c))
      (actor_calls plan) \<and>
    list_all (\<lambda>d. list_ex (\<lambda>w. aw_artifact_id w = ad_artifact_id d \<and>
      aw_producer_call_id w = ad_producer_call_id d) (write_plans s)) (delivery_plans s)"
proof -
  obtain t p m where p: "plan = plan_of sha t p m" "protocol_ok p" "topology_ok p"
    using compile_Inr [OF assms(1)] by metis
  note good = good_levels_parts [OF levels_of_good(2) [OF p(2,3)]]
  let ?ws = "concat (map (writes_of t p) (concat (levels_of p)))"
  have "find_write (aw_artifact_id w) ?ws = Some w"
    if c: "c \<in> set (actor_calls plan)" "w \<in> set (artifact_writes c)" for c w
  proof (rule find_write_unique)
    show "distinct (map aw_artifact_id ?ws)"
      by (rule distinct_writes [OF protocol_ok_parts(3) [OF p(2)] good(2)])
    show "w \<in> set ?ws" using c unfolding plan_writes_of [of sha t p m, symmetric] p(1) plan_writes_def by auto
  qed
  moreover have "list_ex (\<lambda>w. aw_artifact_id w = ad_artifact_id d \<and>
      aw_producer_call_id w = ad_producer_call_id d) ?ws" if d: "d \<in> set (deliveries_of p)" for d
  proof -
    obtain c where c: "c \<in> set (artifact_channels p)" "d = delivery_of p c" using d by auto
    with write_of_channel [OF p(2) good(1) c(1), of t] show ?thesis
      unfolding list_ex_iff delivery_of_def by auto
  qed
  ultimately show ?thesis
    using store_of_plan [OF p(2,3) assms(2), of sha t m] p(1)
    by (simp add: plan_writes_of list_all_iff)
qed

theorem compiled_plan_has_store_witness:
  "\<exists>plan s. compile_composite_run_plan zero_sha sample_metadata sample_task sample_protocol sample_manifest None = Inr plan \<and>
     new_store plan 65536 = Inr s \<and> delivery_plans s = artifact_deliveries plan"
  using sample_compiles compiled_plan_has_store [where limit = 65536] by fastforce


section \<open>Writing and delivering\<close>



lemma write_again:
  assumes "stored_at s (aw_artifact_id w) = Some a"
  shows "isl (fst (store_write sha s w producer payload)) \<and> snd (store_write sha s w producer payload) = s"
  using store_write_cases [OF surjective_pairing, of sha s w producer payload] assms by fastforce

text \<open>C33: what a call is given is what was written: after a write of a payload, whatever the store
  does in between, a delivery of that artifact returns this payload with its digest and producer.
  A second delivery to the same call and a second write of the artifact are refused and leave
  the store as it was.\<close>

theorem delivery_returns_written:
  assumes "store_write sha s w producer payload = (Inr a, s1)" and "(store_step sha)\<^sup>*\<^sup>* s1 s2"
    and "store_deliver s2 (aw_artifact_id w) consumer = (Inr e, s3)"
  shows "de_payload e = payload \<and> de_payload_digest e = artifact_payload_digest sha payload \<and>
    de_producer_call_id e = producer \<and> de_consumer_call_id e = consumer \<and>
    de_artifact_id e = aw_artifact_id w \<and> de_byte_size e = int (length payload) \<and>
    store_deliver s3 (aw_artifact_id w) consumer =
      (Inl (ArtifactStoreError ''artifact was already delivered''), s3) \<and>
    isl (fst (store_write sha s3 w producer2 payload2)) \<and> snd (store_write sha s3 w producer2 payload2) = s3"
proof -
  have a: "a = written_artifact sha s w payload" "producer = aw_producer_call_id w"
    "stored_at s1 (aw_artifact_id w) = Some a"
    using assms(1) by (cases rule: store_write_cases; simp)+
  have at2: "stored_at s2 (aw_artifact_id w) = Some a" by (rule artifact_log.run_keeps [OF assms(2) a(3)])
  show ?thesis
    using assms(3)
  proof (cases rule: store_deliver_cases)
    case (2 d b)
    have b: "b = a" using 2(4) at2 by simp
    have at3: "stored_at s3 (aw_artifact_id w) = Some a" using at2 2(6) by (simp add: stored_at_def)
    have "find (\<lambda>x. delivery_key x = (aw_artifact_id w, consumer)) (delivery_plans s3) \<noteq> None"
      using 2(1,2,6) by (auto simp: find_None_iff)
    moreover have "(aw_artifact_id w, consumer) \<in> set (delivered_keys s3)" using 2(6) by simp
    ultimately have "store_deliver s3 (aw_artifact_id w) consumer =
        (Inl (ArtifactStoreError ''artifact was already delivered''), s3)"
      by (auto simp: store_deliver_def)
    then show ?thesis using 2(5) b a(1,2) write_again [OF at3] by (simp add: written_artifact_def)
  qed simp
qed

definition sample_write :: artifact_write where
  "sample_write = \<lparr>aw_channel_id = ''report'', aw_artifact_id = ''artifact.report'',
     aw_producer_call_id = ''actor.scout.initial'', aw_max_bytes = 64\<rparr>"

definition sample_store :: artifact_store where
  "sample_store = \<lparr>max_total_bytes = 128, write_plans = [sample_write],
     delivery_plans = [\<lparr>ad_channel_id = ''report'', ad_artifact_id = ''artifact.report'',
       ad_producer_call_id = ''actor.scout.initial'', ad_consumer_call_id = ''actor.fixer.initial''\<rparr>],
     artifacts = [], made_deliveries = [], delivered_keys = [], actual_readers = (\<lambda>_. []), total_bytes = 0\<rparr>"

theorem delivery_returns_written_witness:
  "\<exists>a s1 e s3. store_write zero_sha sample_store sample_write ''actor.scout.initial'' ''root cause'' = (Inr a, s1) \<and>
     store_deliver s1 ''artifact.report'' ''actor.fixer.initial'' = (Inr e, s3) \<and> de_payload e = ''root cause''"
proof -
  obtain a s1 where 1: "store_write zero_sha sample_store sample_write ''actor.scout.initial'' ''root cause'' = (Inr a, s1)"
    by (simp add: store_write_def write_checks_def sample_store_def sample_write_def require_gt0_def Let_def)
  obtain e s3 where 2: "store_deliver s1 (aw_artifact_id sample_write) ''actor.fixer.initial'' = (Inr e, s3)"
    using 1 by (auto simp: store_write_def write_checks_def store_deliver_def sample_store_def sample_write_def
        require_gt0_def delivery_key_def Let_def)
  have "de_payload e = ''root cause''" using delivery_returns_written [OF 1 rtranclp.rtrancl_refl 2] by simp
  with 1 2 show ?thesis by (auto simp: sample_write_def)
qed


definition sample_flow :: run_plan where
  "sample_flow = (plan_of zero_sha (sample_task_validated ''fix the bug'') sample_protocol sample_manifest)
     \<lparr>actor_calls := [(initial_call_of (sample_task_validated ''fix the bug'') sample_protocol ''scout'')
        \<lparr>artifact_writes := [sample_write]\<rparr>],
      artifact_deliveries := delivery_plans sample_store\<rparr>"

lemma sample_flow_store: "new_store sample_flow 128 = Inr sample_store"
  by (simp add: new_store_def sample_flow_def sample_store_def sample_write_def delivery_key_def
      intended_consumers_def raise_if_def)

theorem artifacts_written_once_witness:
  "\<exists>t a. (store_step zero_sha)\<^sup>*\<^sup>* sample_store t \<and> stored_at t ''artifact.report'' = Some a \<and>
     st_payload a = ''root cause'' \<and> sum_list (map (\<lambda>a. int (length (st_payload a))) (artifacts t)) \<le> 128"
proof -
  obtain a t where 1: "store_write zero_sha sample_store sample_write ''actor.scout.initial'' ''root cause'' = (Inr a, t)"
    "stored_at t ''artifact.report'' = Some a" "st_payload a = ''root cause''"
    by (simp add: store_write_def write_checks_def sample_store_def sample_write_def require_gt0_def stored_at_def Let_def)
  have run: "(store_step zero_sha)\<^sup>*\<^sup>* sample_store t"
    using store_step.step_write [of zero_sha sample_store sample_write "''actor.scout.initial''" "''root cause''"] 1 by auto
  then show ?thesis
    using artifacts_written_once [OF sample_flow_store run rtranclp.rtrancl_refl] run 1(2,3) by blast
qed

end
