(* ===== verification/Programs.thy ===== *)
theory Programs
  imports Prelude
begin

text \<open>
  Code that changes state, raises, and may not return: a program takes the state, and gives
  \<open>None\<close> when it never returns, else its result with the state it leaves, also when it raises.
  The state of a run includes the world that the clock, the provider and the tools change. The
  weakest precondition \<open>wp d m Q E\<close> asks \<open>Q\<close> of a normal result, \<open>E\<close> of an exception and \<open>d\<close> of a
  run that never returns, so \<open>d = True\<close> is partial and \<open>d = False\<close> total correctness. Its
  equations are in the collection \<open>wp_simps\<close>.
\<close>

named_theorems wp_simps \<open>the weakest precondition of each combinator\<close>

type_synonym ('a, 's) prog = "'s \<Rightarrow> ('a res \<times> 's) option"

section \<open>Combinators\<close>

definition returnS :: "'a \<Rightarrow> ('a, 's) prog" where
  "returnS a s = Some (Inr a, s)"

definition raiseS :: "exn \<Rightarrow> ('a, 's) prog" where
  "raiseS e s = Some (Inl e, s)"

definition bindS :: "('a, 's) prog \<Rightarrow> ('a \<Rightarrow> ('b, 's) prog) \<Rightarrow> ('b, 's) prog" where
  "bindS m f s = (case m s of
     None \<Rightarrow> None
   | Some (Inl e, t) \<Rightarrow> Some (Inl e, t)
   | Some (Inr a, t) \<Rightarrow> f a t)"

definition liftS :: "'a res \<Rightarrow> ('a, 's) prog" where
  "liftS r s = Some (r, s)"

definition getS :: "('s \<Rightarrow> 'a) \<Rightarrow> ('a, 's) prog" where
  "getS f s = Some (Inr (f s), s)"

definition putS :: "('s \<Rightarrow> 's) \<Rightarrow> (unit, 's) prog" where
  "putS f s = Some (Inr (), f s)"

definition raiseS_if :: "bool \<Rightarrow> exn \<Rightarrow> (unit, 's) prog" where
  "raiseS_if b e = liftS (raise_if b e)"

definition thenS :: "(unit, 's) prog \<Rightarrow> ('b, 's) prog \<Rightarrow> ('b, 's) prog" where
  "thenS m n = bindS m (\<lambda>_. n)"

fun forS :: "('a \<Rightarrow> (unit, 's) prog) \<Rightarrow> 'a list \<Rightarrow> (unit, 's) prog" where
  "forS f [] = returnS ()"
| "forS f (x # xs) = thenS (f x) (forS f xs)"

fun mapS :: "('a \<Rightarrow> ('b, 's) prog) \<Rightarrow> 'a list \<Rightarrow> ('b list, 's) prog" where
  "mapS f [] = returnS []"
| "mapS f (x # xs) = bindS (f x) (\<lambda>y. bindS (mapS f xs) (\<lambda>ys. returnS (y # ys)))"

text \<open>\<open>try: m except p: raise h\<close>, and an operation on one component of the state.\<close>

definition catchS :: "(exn \<Rightarrow> bool) \<Rightarrow> (exn \<Rightarrow> exn) \<Rightarrow> ('a, 's) prog \<Rightarrow> ('a, 's) prog" where
  "catchS p h m s = (case m s of
     None \<Rightarrow> None
   | Some (Inl e, t) \<Rightarrow> Some (Inl (if p e then h e else e), t)
   | Some (Inr a, t) \<Rightarrow> Some (Inr a, t))"

text \<open>\<open>try: m except ...: n\<close> where the handler picks the exceptions it takes.\<close>

definition handleS :: "(exn \<Rightarrow> ('a, 's) prog option) \<Rightarrow> ('a, 's) prog \<Rightarrow> ('a, 's) prog" where
  "handleS h m s = (case m s of
     Some (Inl e, t) \<Rightarrow> (case h e of None \<Rightarrow> Some (Inl e, t) | Some n \<Rightarrow> n t)
   | r \<Rightarrow> r)"

definition onS :: "('s \<Rightarrow> 'c) \<Rightarrow> ('c \<Rightarrow> 's \<Rightarrow> 's) \<Rightarrow> ('c \<Rightarrow> 'a res \<times> 'c) \<Rightarrow> ('a, 's) prog" where
  "onS getter setter f s = (case f (getter s) of (r, c) \<Rightarrow> Some (r, setter c s))"

section \<open>Weakest preconditions\<close>

definition wp :: "bool \<Rightarrow> ('a, 's) prog \<Rightarrow> ('a \<Rightarrow> 's \<Rightarrow> bool) \<Rightarrow> (exn \<Rightarrow> 's \<Rightarrow> bool) \<Rightarrow> 's \<Rightarrow> bool" where
  "wp d m Q E s \<longleftrightarrow> (case m s of
     None \<Rightarrow> d
   | Some (Inl e, t) \<Rightarrow> E e t
   | Some (Inr a, t) \<Rightarrow> Q a t)"

lemma wp_return [wp_simps]: "wp d (returnS a) Q E = Q a"
  by (simp add: fun_eq_iff wp_def returnS_def)

lemma wp_raise [wp_simps]: "wp d (raiseS e) Q E = E e"
  by (simp add: fun_eq_iff wp_def raiseS_def)

lemma wp_bind [wp_simps]: "wp d (bindS m f) Q E = wp d m (\<lambda>a. wp d (f a) Q E) E"
  by (simp add: fun_eq_iff wp_def bindS_def split: option.split sum.split)

lemma wp_lift [wp_simps]: "wp d (liftS r) Q E = (case r of Inl e \<Rightarrow> E e | Inr a \<Rightarrow> Q a)"
  by (simp add: fun_eq_iff wp_def liftS_def split: sum.split)

lemma wp_get [wp_simps]: "wp d (getS f) Q E = (\<lambda>s. Q (f s) s)"
  by (simp add: fun_eq_iff wp_def getS_def)

lemma wp_put [wp_simps]: "wp d (putS f) Q E = (\<lambda>s. Q () (f s))"
  by (simp add: fun_eq_iff wp_def putS_def)

lemma wp_raise_if [wp_simps]: "wp d (raiseS_if b e) Q E = (if b then E e else Q ())"
  by (simp add: raiseS_if_def wp_lift)

lemma wp_then [wp_simps]: "wp d (thenS m n) Q E = wp d m (\<lambda>_. wp d n Q E) E"
  by (simp add: thenS_def wp_bind)

lemma wp_catch [wp_simps]:
  "wp d (catchS p h m) Q E = wp d m Q (\<lambda>e. E (if p e then h e else e))"
  by (simp add: fun_eq_iff wp_def catchS_def split: option.split sum.split)

lemma wp_handle [wp_simps]:
  "wp d (handleS h m) Q E = wp d m Q (\<lambda>e. case h e of None \<Rightarrow> E e | Some n \<Rightarrow> wp d n Q E)"
proof
  fix s
  show "wp d (handleS h m) Q E s = wp d m Q (\<lambda>e. case h e of None \<Rightarrow> E e | Some n \<Rightarrow> wp d n Q E) s"
  proof (cases "m s")
    case (Some a)
    then show ?thesis
      by (cases a; cases "fst a"; cases "h (projl (fst a))") (simp_all add: wp_def handleS_def)
  qed (simp add: wp_def handleS_def)
qed

lemma wp_on [wp_simps]:
  "wp d (onS getter setter f) Q E = (\<lambda>s.
     (case f (getter s) of (Inl e, c) \<Rightarrow> E e (setter c s) | (Inr a, c) \<Rightarrow> Q a (setter c s)))"
  by (simp add: fun_eq_iff wp_def onS_def split: prod.split sum.split)

lemma wp_mono:
  assumes "wp d m Q E s" and "\<And>a t. Q a t \<Longrightarrow> Q' a t" and "\<And>e t. E e t \<Longrightarrow> E' e t"
  shows "wp d m Q' E' s"
  using assms by (auto simp: wp_def split: option.splits sum.splits)

lemma wp_if [wp_simps]: "wp d (if b then m else n) Q E = (if b then wp d m Q E else wp d n Q E)"
  by simp

lemma wp_result: "wp True m Q E s \<Longrightarrow> m s = Some (Inr a, t) \<Longrightarrow> Q a t"
  by (simp add: wp_def)

lemma wp_error: "wp True m Q E s \<Longrightarrow> m s = Some (Inl e, t) \<Longrightarrow> E e t"
  by (simp add: wp_def)

lemma wp_partial: "wp False m Q E s \<Longrightarrow> wp d m Q E s"
  by (auto simp: wp_def split: option.splits)

lemma wp_total: "wp False m Q E s \<Longrightarrow> \<exists>r t. m s = Some (r, t)"
  by (auto simp: wp_def split: option.splits)

text \<open>Loops: an invariant of the pre and the remaining elements.\<close>

lemma wp_for:
  assumes step: "\<And>pre x rest s. xs = pre @ x # rest \<Longrightarrow> I pre s \<Longrightarrow> wp d (f x) (\<lambda>_. I (pre @ [x])) E s"
    and init: "I [] s" and final: "\<And>t. I xs t \<Longrightarrow> Q () t"
  shows "wp d (forS f xs) Q E s"
proof -
  have "wp d (forS f rest) Q E s" if "xs = pre @ rest" "I pre s" for pre rest s
    using that
  proof (induction rest arbitrary: pre s)
    case Nil
    then show ?case using final by (simp add: wp_return)
  next
    case (Cons x rest)
    have "wp d (f x) (\<lambda>_. I (pre @ [x])) E s" by (rule step [OF Cons.prems])
    moreover have "wp d (forS f rest) Q E t" if "I (pre @ [x]) t" for t
      by (rule Cons.IH) (use Cons.prems(1) that in simp_all)
    ultimately show ?case unfolding forS.simps wp_then by (rule wp_mono)
  qed
  from this [of "[]" xs s] init show ?thesis by simp
qed

lemma wp_map:
  assumes step: "\<And>pre ys x rest s. xs = pre @ x # rest \<Longrightarrow> I pre ys s \<Longrightarrow>
      wp d (f x) (\<lambda>y. I (pre @ [x]) (ys @ [y])) E s"
    and init: "I [] [] s" and final: "\<And>ys t. I xs ys t \<Longrightarrow> Q ys t"
  shows "wp d (mapS f xs) Q E s"
proof -
  have "wp d (mapS f rest) (\<lambda>zs. Q (ys @ zs)) E s" if "xs = pre @ rest" "I pre ys s" for pre rest ys s
    using that
  proof (induction rest arbitrary: pre ys s)
    case Nil
    then show ?case using final by (simp add: wp_return)
  next
    case (Cons x rest)
    have "wp d (mapS f rest) (\<lambda>zs. Q (ys @ y # zs)) E t" if "I (pre @ [x]) (ys @ [y]) t" for y t
      using Cons.IH [of "pre @ [x]" "ys @ [y]" t] Cons.prems(1) that by simp
    then have "wp d (f x) (\<lambda>y. wp d (mapS f rest) (\<lambda>zs. Q (ys @ y # zs)) E) E s"
      by (rule wp_mono [OF step [OF Cons.prems]])
    then show ?case by (simp add: wp_bind wp_return)
  qed
  from this [of "[]" xs "[]" s] init show ?thesis by simp
qed

lemma wp_result_total: "wp False m Q E s \<Longrightarrow> (\<And>e t. \<not> E e t) \<Longrightarrow> \<exists>a t. m s = Some (Inr a, t) \<and> Q a t"
  unfolding wp_def by (cases "m s") (force split: sum.splits)+

section \<open>Programs that return\<close>

definition returns :: "('b, 's) prog \<Rightarrow> bool" where
  "returns m \<longleftrightarrow> (\<forall>s. m s \<noteq> None)"

named_theorems returns_intros \<open>programs that always return\<close>

lemma returns_bind [returns_intros]: "returns m \<Longrightarrow> (\<And>a. returns (f a)) \<Longrightarrow> returns (bindS m f)"
  by (auto simp: returns_def bindS_def split: option.split sum.split)

lemma returns_then [returns_intros]: "returns m \<Longrightarrow> returns n \<Longrightarrow> returns (thenS m n)"
  unfolding thenS_def by (rule returns_bind)

lemma returns_basic [returns_intros]:
  "returns (returnS a)" "returns (raiseS e)" "returns (liftS r)" "returns (getS g)" "returns (putS h)"
  "returns (raiseS_if b e)" "returns (onS getter setter k)"
  by (auto simp: returns_def returnS_def raiseS_def liftS_def getS_def putS_def raiseS_if_def onS_def split: prod.split)

lemma returns_handle [returns_intros]:
  "returns m \<Longrightarrow> (\<And>e n. h e = Some n \<Longrightarrow> returns n) \<Longrightarrow> returns (handleS h m)"
  by (auto simp: returns_def handleS_def split: option.split sum.split)

lemma returns_catch [returns_intros]: "returns m \<Longrightarrow> returns (catchS p h m)"
  by (auto simp: returns_def catchS_def split: option.split sum.split)

lemma returns_for [returns_intros]: "(\<And>x. x \<in> set xs \<Longrightarrow> returns (f x)) \<Longrightarrow> returns (forS f xs)"
  by (induction xs) (auto intro!: returns_intros)

lemma returns_map [returns_intros]: "(\<And>x. x \<in> set xs \<Longrightarrow> returns (f x)) \<Longrightarrow> returns (mapS f xs)"
  by (induction xs) (auto intro!: returns_intros)

lemma returns_result: "returns m \<Longrightarrow> \<exists>r t. m s = Some (r, t)"
  unfolding returns_def by (metis not_None_eq surj_pair)

end
