(* ===== verification/Provider.thy ===== *)
theory Provider
  imports BudgetLedger Programs
begin

text \<open>
  The provider controller (\<open>runtime/kernel/composite_provider.py\<close>): one provider call reserves its
  budget, runs the provider in a thread, waits for its reply until the deadline or a cancellation,
  and settles the reservation. The clock, the thread and its reply queue, and the caller's
  cancellation event are the fields of a \<open>port\<close> over a world; the wait is a recursion that need
  not end, so a call is a program. The results: a call that returns leaves no reservation behind,
  its status says what was accounted, an ambiguous call blocks the ledger, and the wait ends when
  the clock reaches the deadline.
\<close>

section \<open>Credentials and provenance\<close>

record credential_reference =
  cred_provider_name :: string
  cred_key_env :: "string option"
  cred_file_env :: "string option"

fun is_environment_name :: "string \<Rightarrow> bool" where
  "is_environment_name [] = False"
| "is_environment_name (c # cs) = ((is_upper c \<or> c = CHR ''_'') \<and>
     list_all (\<lambda>d. is_upper d \<or> is_digit d \<or> d = CHR ''_'') cs)"

definition validate_environment_reference :: "string option \<Rightarrow> string option res" where
  "validate_environment_reference v = (case v of None \<Rightarrow> Inr None
     | Some s \<Rightarrow> if is_environment_name (py_strip s) then Inr (Some (py_strip s))
         else Inl (ValueError ''credential environment references must be environment variable names''))"

definition validate_credential_reference :: "credential_reference \<Rightarrow> credential_reference res" where
  "validate_credential_reference c = validated (
     thenE (raise_if (cred_provider_name c = []) (ValueError ''provider_name min_length'')) (
     let name = py_lower (py_strip (cred_provider_name c)) in
     thenE (raise_if (name = []) (ValueError ''provider_name may not be empty'')) (
     bindE (validate_environment_reference (cred_key_env c)) (\<lambda>k.
     bindE (validate_environment_reference (cred_file_env c)) (\<lambda>f.
     thenE (raise_if (k = None \<and> f = None)
       (ValueError ''credential reference requires an API-key or key-file environment name''))
     (Inr \<lparr>cred_provider_name = name, cred_key_env = k, cred_file_env = f\<rparr>))))))"

datatype execution_mode = DeterministicReplay | LiveProvider

datatype inference_status = InferenceNotRun | InferenceCompleted | InferenceFailed

record execution_provenance =
  xp_mode :: execution_mode
  xp_status :: inference_status
  xp_requests_sent :: int

definition validate_provenance :: "execution_provenance \<Rightarrow> execution_provenance res" where
  "validate_provenance p = validated (
     thenE (require_ge0 (xp_requests_sent p) ''real_inference_requests_sent'') (
     thenE (raise_if (xp_mode p = DeterministicReplay \<and> xp_status p \<noteq> InferenceNotRun)
       (ValueError ''deterministic replay cannot claim live inference status'')) (
     thenE (raise_if (xp_mode p = DeterministicReplay \<and> xp_requests_sent p \<noteq> 0)
       (ValueError ''deterministic replay cannot send real inference requests'')) (
     thenE (raise_if (xp_mode p = LiveProvider \<and> xp_status p = InferenceNotRun \<and> xp_requests_sent p \<noteq> 0)
       (ValueError ''not-run live inference cannot claim sent requests'')) (
     thenE (raise_if (xp_mode p = LiveProvider \<and> xp_status p \<noteq> InferenceNotRun \<and> xp_requests_sent p = 0)
       (ValueError ''completed or failed live inference requires a sent request'')) (Inr p))))))"

section \<open>Requests and results\<close>

datatype call_status = Succeeded | Failed | Rejected | Cancelled | DeadlineExceeded

fun status_name :: "call_status \<Rightarrow> string" where
  "status_name Succeeded = ''succeeded''"
| "status_name Failed = ''failed''"
| "status_name Rejected = ''rejected''"
| "status_name Cancelled = ''cancelled''"
| "status_name DeadlineExceeded = ''deadline_exceeded''"

datatype failure_kind = BudgetExhausted | PreSendFailure | PostSendFailure | DeadlineFailure
  | CancelledFailure | InvalidResult | AccountingInvalid

record request_reservation =
  rr_input_tokens :: int
  rr_max_output_tokens :: int
  rr_max_cached_tokens :: int
  rr_max_cache_write_tokens :: int
  rr_max_known_cost :: "pyfloat option"

definition validate_request_reservation :: "request_reservation \<Rightarrow> request_reservation res" where
  "validate_request_reservation r = validated (
     thenE (require_ge0 (rr_input_tokens r) ''input_tokens'') (
     thenE (require_gt0 (rr_max_output_tokens r) ''max_output_tokens'') (
     thenE (require_ge0 (rr_max_cached_tokens r) ''max_cached_tokens'') (
     thenE (require_ge0 (rr_max_cache_write_tokens r) ''max_cache_write_tokens'') (
     thenE (case rr_max_known_cost r of None \<Rightarrow> Inr () | Some c \<Rightarrow> require_cost c) (Inr r))))))"

text \<open>What an adapter says of a failure: \<open>ProviderInvocationError\<close>, whose constructor rejects two
  combinations.\<close>

record provider_error =
  pe_type :: "string option"
  pe_code :: "string option"
  pe_http_status :: "int option"
  pe_request_id :: "string option"

definition no_provider_error :: provider_error where
  "no_provider_error = \<lparr>pe_type = None, pe_code = None, pe_http_status = None, pe_request_id = None\<rparr>"

record invocation_error =
  ie_request_sent :: bool
  ie_usage :: "usage_report option"
  ie_cancelled :: bool
  ie_deadline_exceeded :: bool
  ie_error :: provider_error

definition new_invocation_error :: "invocation_error \<Rightarrow> invocation_error res" where
  "new_invocation_error e =
     thenE (raise_if (\<not> ie_request_sent e \<and> ie_usage e \<noteq> None)
       (ValueError ''pre-send failures cannot include provider usage'')) (
     thenE (raise_if (ie_cancelled e \<and> ie_deadline_exceeded e)
       (ValueError ''provider failure cannot be both cancelled and deadline-exceeded'')) (Inr e))"

record provider_failure =
  pf_kind :: failure_kind
  pf_request_sent :: bool
  pf_usage_status :: "usage_status option"
  pf_cost_status :: "cost_status option"
  pf_ambiguous :: bool
  pf_accounting_healthy :: bool
  pf_budget_metric :: "string option"
  pf_error_type :: "string option"
  pf_error :: provider_error

definition validate_failure :: "provider_failure \<Rightarrow> provider_failure res" where
  "validate_failure f = validated (
     case pe_http_status (pf_error f) of
       None \<Rightarrow> Inr f
     | Some i \<Rightarrow> thenE (raise_if (i < 100) (ValueError ''provider_http_status greater_than_equal'')) (
         thenE (raise_if (599 < i) (ValueError ''provider_http_status less_than_equal'')) (Inr f)))"

definition call_failure :: "failure_kind \<Rightarrow> bool \<Rightarrow> usage_report option \<Rightarrow> budget_snapshot \<Rightarrow> bool \<Rightarrow>
    string option \<Rightarrow> string option \<Rightarrow> provider_error \<Rightarrow> provider_failure res" where
  "call_failure kind sent u snap ambiguous exhausted error_type err = validate_failure
     \<lparr>pf_kind = kind, pf_request_sent = sent, pf_usage_status = map_option ur_usage_status u,
      pf_cost_status = map_option ur_cost_status u, pf_ambiguous = ambiguous,
      pf_accounting_healthy = s_healthy snap, pf_budget_metric = exhausted, pf_error_type = error_type,
      pf_error = err\<rparr>"

record 'a invocation =
  inv_response :: 'a
  inv_usage :: usage_report

record 'a call_result =
  cr_status :: call_status
  cr_reservation_id :: "string option"
  cr_timeout_ms :: int
  cr_invocation :: "'a invocation option"
  cr_failure :: "provider_failure option"
  cr_ledger :: budget_snapshot
  cr_eligible :: bool

definition validate_call_result :: "'a call_result \<Rightarrow> 'a call_result res" where
  "validate_call_result r = validated (
     thenE (require_ge0 (cr_timeout_ms r) ''timeout_ms'') (
     if cr_status r = Succeeded then
       thenE (raise_if (cr_invocation r = None \<or> cr_failure r \<noteq> None)
         (ValueError ''successful provider calls require an invocation and no failure'')) (
       thenE (raise_if (cr_eligible r \<and> \<not> s_promotion_eligible (cr_ledger r))
         (ValueError ''provider call cannot override ledger promotion eligibility'')) (Inr r))
     else thenE (raise_if (cr_failure r = None \<or> cr_eligible r)
       (ValueError ''non-successful provider calls require a failure and are not promotion eligible''))
       (Inr r)))"

record call_control =
  cc_reservation_id :: string
  cc_timeout_ms :: int
  cc_deadline :: pyfloat

definition remaining_ms :: "call_control \<Rightarrow> pyfloat \<Rightarrow> int res" where
  "remaining_ms c now =
     bindE (float_trunc (float_mul (float_sub (cc_deadline c) now) float_1000)) (\<lambda>i. Inr (max 0 i))"

section \<open>The world of a call\<close>

text \<open>What the thread puts into the queue: a returned value, which is an invocation or something
  else, or an exception, a \<open>ProviderInvocationError\<close> or another one, with the name of its type.\<close>

datatype 'a reply =
    Returned 'a usage_report
  | ReturnedOther
  | RaisedInvocationError string invocation_error
  | RaisedOther string

text \<open>\<open>time.monotonic\<close>; starting the thread with the request; \<open>results.get(timeout)\<close>, which may find
  nothing; \<open>provider.cancel\<close> with the control event; the caller's cancellation event.\<close>

record ('a, 'q, 'w) port =
  read_clock :: "'w \<Rightarrow> pyfloat \<times> 'w"
  start_call :: "'q \<Rightarrow> call_control \<Rightarrow> credential_reference option \<Rightarrow> 'w \<Rightarrow> 'w"
  poll_reply :: "pyfloat \<Rightarrow> 'w \<Rightarrow> 'a reply option \<times> 'w"
  cancel_call :: "string \<Rightarrow> 'w \<Rightarrow> 'w"
  caller_cancelled :: "'w \<Rightarrow> bool"

record 'w call_state =
  cs_ledger :: ledger
  cs_world :: 'w

definition on_world :: "('w \<Rightarrow> 'b \<times> 'w) \<Rightarrow> ('b, ('w, 'z) call_state_scheme) prog" where
  "on_world f = onS cs_world (\<lambda>w s. s\<lparr>cs_world := w\<rparr>) (\<lambda>w. case f w of (b, v) \<Rightarrow> (Inr b, v))"

definition clock :: "('a, 'q, 'w) port \<Rightarrow> (pyfloat, ('w, 'z) call_state_scheme) prog" where
  "clock port = on_world (read_clock port)"

text \<open>An operation of the ledger with its clock reading.\<close>

definition on_ledger :: "('a, 'q, 'w) port \<Rightarrow> (ledger \<Rightarrow> pyfloat \<Rightarrow> 'b res \<times> ledger) \<Rightarrow>
    ('b, ('w, 'z) call_state_scheme) prog" where
  "on_ledger port f = bindS (clock port) (\<lambda>now.
     onS cs_ledger (\<lambda>l s. s\<lparr>cs_ledger := l\<rparr>) (\<lambda>l. f l now))"

definition take_snapshot :: "('a, 'q, 'w) port \<Rightarrow> (budget_snapshot, ('w, 'z) call_state_scheme) prog" where
  "take_snapshot port = on_ledger port (\<lambda>l now. (snapshot l now, l))"

section \<open>Waiting for the reply\<close>

datatype 'a outcome = CancelSeen | DeadlinePassed | Reply "'a reply"

definition poll_interval :: pyfloat where
  "poll_interval = PyFloat False 1016 0x47AE147AE147B"

definition float_min :: "pyfloat \<Rightarrow> pyfloat \<Rightarrow> pyfloat" where
  "float_min a b = (if float_lt b a then b else a)"

partial_function (option) await_reply ::
    "('a, 'q, 'w) port \<Rightarrow> pyfloat \<Rightarrow> 'w \<Rightarrow> ('a outcome \<times> 'w) option" where
  "await_reply port deadline w =
     (if caller_cancelled port w then Some (CancelSeen, w)
      else let now = fst (read_clock port w); w1 = snd (read_clock port w);
               remaining = float_sub deadline now
           in if float_le remaining float_zero then Some (DeadlinePassed, w1)
              else let reply = fst (poll_reply port (float_min remaining poll_interval) w1);
                       w2 = snd (poll_reply port (float_min remaining poll_interval) w1)
                   in if reply = None then await_reply port deadline w2
                      else Some (Reply (the reply), w2))"

declare await_reply.simps [code]

definition wait_for_reply :: "('a, 'q, 'w) port \<Rightarrow> pyfloat \<Rightarrow> ('a outcome, ('w, 'z) call_state_scheme) prog" where
  "wait_for_reply port deadline s = (case await_reply port deadline (cs_world s) of
     None \<Rightarrow> None | Some (out, w) \<Rightarrow> Some (Inr out, s\<lparr>cs_world := w\<rparr>))"

section \<open>One call\<close>

text \<open>A result other than success: its failure and itself are validated.\<close>

record failure_info =
  fi_status :: call_status
  fi_kind :: failure_kind
  fi_sent :: bool
  fi_usage :: "usage_report option"
  fi_ambiguous :: bool
  fi_metric :: "string option"
  fi_error_type :: "string option"
  fi_error :: provider_error

definition failed_result :: "failure_info \<Rightarrow> string option \<Rightarrow> int \<Rightarrow> 'a invocation option \<Rightarrow> budget_snapshot \<Rightarrow>
    'a call_result res" where
  "failed_result i reservation timeout got snap =
     bindE (call_failure (fi_kind i) (fi_sent i) (fi_usage i) snap (fi_ambiguous i) (fi_metric i)
       (fi_error_type i) (fi_error i)) (\<lambda>f.
     validate_call_result \<lparr>cr_status = fi_status i, cr_reservation_id = reservation, cr_timeout_ms = timeout,
       cr_invocation = got, cr_failure = Some f, cr_ledger = snap, cr_eligible = False\<rparr>)"

definition before_sending :: "call_status \<Rightarrow> failure_kind \<Rightarrow> string option \<Rightarrow> failure_info" where
  "before_sending status kind exhausted = \<lparr>fi_status = status, fi_kind = kind, fi_sent = False, fi_usage = None,
     fi_ambiguous = False, fi_metric = exhausted, fi_error_type = None, fi_error = no_provider_error\<rparr>"

definition after_sending :: "call_status \<Rightarrow> failure_kind \<Rightarrow> string option \<Rightarrow> failure_info" where
  "after_sending status kind error_type = \<lparr>fi_status = status, fi_kind = kind, fi_sent = True,
     fi_usage = Some unknown_usage, fi_ambiguous = True, fi_metric = None, fi_error_type = error_type,
     fi_error = no_provider_error\<rparr>"

definition latency_since :: "('a, 'q, 'w) port \<Rightarrow> pyfloat \<Rightarrow> (pyfloat, ('w, 'z) call_state_scheme) prog" where
  "latency_since port started = bindS (clock port) (\<lambda>now. returnS (float_mul (float_sub now started) float_1000))"

text \<open>The call ends without usable accounting: cancelled, late, or an exception of the provider.\<close>

definition settle_unknown :: "('a, 'q, 'w) port \<Rightarrow> budget_reservation \<Rightarrow> int \<Rightarrow> pyfloat \<Rightarrow> failure_info \<Rightarrow>
    ('a call_result, ('w, 'z) call_state_scheme) prog" where
  "settle_unknown port r timeout latency i =
     bindS (on_ledger port (\<lambda>l now. complete_provider_failure l now r True None latency)) (\<lambda>snap.
     liftS (failed_result i (Some (reservation_id r)) timeout None snap))"

definition settle_returned :: "('a, 'q, 'w) port \<Rightarrow> budget_reservation \<Rightarrow> int \<Rightarrow> pyfloat \<Rightarrow> 'a \<Rightarrow> usage_report \<Rightarrow>
    ('a call_result, ('w, 'z) call_state_scheme) prog" where
  "settle_returned port r timeout latency response raw =
     (case validate_usage_report raw of
        Inl e \<Rightarrow> settle_unknown port r timeout latency (after_sending Failed InvalidResult (Some ''ValidationError''))
      | Inr u \<Rightarrow>
          bindS (on_ledger port (\<lambda>l now. complete_provider_call l now r u latency True)) (\<lambda>snap.
          let inv = \<lparr>inv_response = response, inv_usage = u\<rparr> in
          liftS (if s_healthy snap \<and> \<not> s_deadline_exceeded snap then validate_call_result
              \<lparr>cr_status = Succeeded, cr_reservation_id = Some (reservation_id r), cr_timeout_ms = timeout,
               cr_invocation = Some inv, cr_failure = None, cr_ledger = snap,
               cr_eligible = s_promotion_eligible snap\<rparr>
            else failed_result \<lparr>fi_status = Failed, fi_kind = AccountingInvalid, fi_sent = True,
              fi_usage = Some u, fi_ambiguous = False, fi_metric = None, fi_error_type = None,
              fi_error = no_provider_error\<rparr> (Some (reservation_id r)) timeout (Some inv) snap)))"

definition invocation_failure :: "string \<Rightarrow> invocation_error \<Rightarrow> failure_info" where
  "invocation_failure error_type e =
     (let sent = ie_request_sent e in
      \<lparr>fi_status = (if ie_cancelled e then Cancelled
          else if ie_deadline_exceeded e then DeadlineExceeded else Failed),
       fi_kind = (if ie_cancelled e then CancelledFailure
          else if ie_deadline_exceeded e then DeadlineFailure
          else if sent then PostSendFailure else PreSendFailure),
       fi_sent = sent,
       fi_usage = (case ie_usage e of Some u \<Rightarrow> Some u
          | None \<Rightarrow> if sent then Some unknown_usage else None),
       fi_ambiguous = (sent \<and> (case ie_usage e of None \<Rightarrow> True
          | Some u \<Rightarrow> ur_usage_status u = UnknownUsage \<or> ur_cost_status u = UnknownCost)),
       fi_metric = None, fi_error_type = Some error_type, fi_error = ie_error e\<rparr>)"

definition settle_error :: "('a, 'q, 'w) port \<Rightarrow> budget_reservation \<Rightarrow> int \<Rightarrow> pyfloat \<Rightarrow> string \<Rightarrow>
    invocation_error \<Rightarrow> ('a call_result, ('w, 'z) call_state_scheme) prog" where
  "settle_error port r timeout latency error_type e =
     bindS (on_ledger port (\<lambda>l now.
       complete_provider_failure l now r (ie_request_sent e) (ie_usage e) latency)) (\<lambda>snap.
     liftS (failed_result (invocation_failure error_type e) (Some (reservation_id r)) timeout None snap))"

definition settle :: "('a, 'q, 'w) port \<Rightarrow> budget_reservation \<Rightarrow> int \<Rightarrow> pyfloat \<Rightarrow> 'a outcome \<Rightarrow>
    ('a call_result, ('w, 'z) call_state_scheme) prog" where
  "settle port r timeout started out =
     (let cancel = on_world (\<lambda>w. ((), cancel_call port (reservation_id r) w)) in
      case out of
        CancelSeen \<Rightarrow> thenS cancel (bindS (latency_since port started) (\<lambda>latency.
          settle_unknown port r timeout latency (after_sending Cancelled CancelledFailure None)))
      | DeadlinePassed \<Rightarrow> thenS cancel (bindS (latency_since port started) (\<lambda>latency.
          settle_unknown port r timeout latency (after_sending DeadlineExceeded DeadlineFailure None)))
      | Reply rep \<Rightarrow> bindS (latency_since port started) (\<lambda>latency.
          case rep of
            Returned response usage \<Rightarrow> settle_returned port r timeout latency response usage
          | ReturnedOther \<Rightarrow> settle_unknown port r timeout latency
              (after_sending Failed InvalidResult (Some ''ValidationError''))
          | RaisedInvocationError t e \<Rightarrow> settle_error port r timeout latency t e
          | RaisedOther t \<Rightarrow> settle_unknown port r timeout latency
              (after_sending Failed PostSendFailure (Some t))))"

definition deadline_after :: "pyfloat \<Rightarrow> int \<Rightarrow> pyfloat res" where
  "deadline_after started timeout = bindE (int_to_float timeout) (\<lambda>t.
     bindE (float_div t float_1000) (\<lambda>seconds. Inr (float_add started seconds)))"

definition dispatch :: "('a, 'q, 'w) port \<Rightarrow> 'q \<Rightarrow> credential_reference option \<Rightarrow> budget_reservation \<Rightarrow>
    ('a call_result, ('w, 'z) call_state_scheme) prog" where
  "dispatch port request cred r =
     bindS (on_ledger port (\<lambda>l now. (provider_timeout_ms l now, l))) (\<lambda>timeout.
     if timeout \<le> 0 then
       bindS (on_ledger port (\<lambda>l now. cancel_reservation l now r)) (\<lambda>snap.
       liftS (failed_result (before_sending DeadlineExceeded DeadlineFailure None)
         (Some (reservation_id r)) 0 None snap))
     else
       bindS (clock port) (\<lambda>started.
       bindS (liftS (deadline_after started timeout)) (\<lambda>deadline.
       let control = \<lparr>cc_reservation_id = reservation_id r, cc_timeout_ms = timeout, cc_deadline = deadline\<rparr> in
       thenS (on_world (\<lambda>w. ((), start_call port request control cred w))) (
       bindS (wait_for_reply port deadline) (\<lambda>out.
       settle port r timeout started out)))))"

definition reserve_for_call :: "('a, 'q, 'w) port \<Rightarrow> provider_request \<Rightarrow>
    (string + budget_reservation, ('w, 'z) call_state_scheme) prog" where
  "reserve_for_call port q =
     handleS (\<lambda>e. case e of BudgetExhaustedError m \<Rightarrow> Some (returnS (Inl m)) | _ \<Rightarrow> None)
       (bindS (on_ledger port (\<lambda>l now. reserve_provider_call l now q)) (\<lambda>r. returnS (Inr r)))"

definition provider_call :: "('a, 'q, 'w) port \<Rightarrow> 'q \<Rightarrow> provider_request \<Rightarrow> credential_reference option \<Rightarrow>
    ('a call_result, ('w, 'z) call_state_scheme) prog" where
  "provider_call port request q cred =
     bindS (getS (\<lambda>s. caller_cancelled port (cs_world s))) (\<lambda>cancelled.
     if cancelled then
       bindS (take_snapshot port) (\<lambda>snap.
       liftS (failed_result (before_sending Cancelled CancelledFailure None) None 0 None snap))
     else
       bindS (reserve_for_call port q) (\<lambda>reserved.
       case reserved of
         Inl exhausted \<Rightarrow> bindS (take_snapshot port) (\<lambda>snap.
           liftS (failed_result (before_sending Rejected BudgetExhausted (Some exhausted)) None 0 None snap))
       | Inr r \<Rightarrow> dispatch port request cred r))"


section \<open>What one call does to the ledger\<close>

definition usage_valid :: "usage_report \<Rightarrow> bool" where
  "usage_valid u \<longleftrightarrow> (\<exists>raw. validate_usage_report raw = Inr u)"

text \<open>The usage of a \<open>ProviderInvocationError\<close> is an instance of its model, so it was validated.\<close>

definition typed_errors :: "('a, 'q, 'w) port \<Rightarrow> bool" where
  "typed_errors port \<longleftrightarrow> (\<forall>timeout w t e u.
     fst (poll_reply port timeout w) = Some (RaisedInvocationError t e) \<longrightarrow> ie_usage e = Some u \<longrightarrow> usage_valid u)"

lemma unknown_usage_valid [simp]: "usage_valid unknown_usage"
  unfolding usage_valid_def
  by (intro exI [of _ unknown_usage])
    (simp add: validate_usage_report_def validate_status_payload_def unknown_usage_def require_count_def)

lemma unknown_usage_status [simp]: "ur_usage_status unknown_usage = UnknownUsage"
  by (simp add: unknown_usage_def)

lemma await_reply_polled:
  assumes "await_reply port deadline w = Some y" and "fst y = Reply rep"
  shows "\<exists>timeout u. fst (poll_reply port timeout u) = Some rep"
proof -
  let ?P = "\<lambda>port _ _ y. fst y = Reply rep \<longrightarrow> (\<exists>timeout u. fst (poll_reply port timeout u) = Some rep)"
  have "?P port deadline w y"
    by (rule await_reply.raw_induct [where P = ?P, OF _ assms(1)])
      (auto simp: Let_def split: if_splits, blast)
  with assms(2) show ?thesis by blast
qed

text \<open>Nothing but the ledger and the world changes, and the ledger by its own steps.\<close>

definition ledger_run :: "('w, 'z) call_state_scheme \<Rightarrow> ('w, 'z) call_state_scheme \<Rightarrow> bool" where
  "ledger_run s t \<longleftrightarrow> call_state.more t = call_state.more s \<and> ledger_step\<^sup>*\<^sup>* (cs_ledger s) (cs_ledger t)"

lemma ledger_run_refl [simp]: "ledger_run s s"
  by (simp add: ledger_run_def)

lemma ledger_run_trans [trans]: "ledger_run s t \<Longrightarrow> ledger_run t u \<Longrightarrow> ledger_run s u"
  by (auto simp: ledger_run_def)

lemma ledger_run_world [simp]: "ledger_run s (t\<lparr>cs_world := w\<rparr>) \<longleftrightarrow> ledger_run s t"
  by (simp add: ledger_run_def)

lemma ledger_run_step: "ledger_run s t \<Longrightarrow> ledger_step (cs_ledger t) l \<Longrightarrow> ledger_run s (t\<lparr>cs_world := w, cs_ledger := l\<rparr>)"
  by (auto simp: ledger_run_def)

lemma ledger_run_ok: "ledger_run s t \<Longrightarrow> ledger_ok (cs_ledger s) \<Longrightarrow> ledger_ok (cs_ledger t)"
  using budget.runs_keep by (auto simp: ledger_run_def)

lemma on_world_rule: "(\<And>b w. Q b (s\<lparr>cs_world := w\<rparr>)) \<Longrightarrow> wp d (on_world f) Q E s"
  by (simp add: on_world_def wp_simps split: prod.split)

lemma clock_rule: "(\<And>now w. Q now (s\<lparr>cs_world := w\<rparr>)) \<Longrightarrow> wp d (clock port) Q E s"
  unfolding clock_def by (rule on_world_rule)

lemma on_ledger_rule:
  assumes "\<And>now w a l. f (cs_ledger s) now = (Inr a, l) \<Longrightarrow> Q a (s\<lparr>cs_world := w, cs_ledger := l\<rparr>)"
    and "\<And>now w e l. f (cs_ledger s) now = (Inl e, l) \<Longrightarrow> E e (s\<lparr>cs_world := w, cs_ledger := l\<rparr>)"
  shows "wp d (on_ledger port f) Q E s"
  unfolding on_ledger_def wp_simps by (rule clock_rule) (use assms in \<open>auto split: prod.split sum.split\<close>)

lemma wait_rule:
  "(\<And>out w. (\<And>rep. out = Reply rep \<Longrightarrow> \<exists>timeout u. fst (poll_reply port timeout u) = Some rep) \<Longrightarrow>
     Q out (s\<lparr>cs_world := w\<rparr>)) \<Longrightarrow> wp True (wait_for_reply port deadline) Q E s"
  unfolding wp_def wait_for_reply_def using await_reply_polled
  by (fastforce split: option.split)

definition dispatched :: "('w, 'z) call_state_scheme \<Rightarrow> provider_request \<Rightarrow> budget_reservation \<Rightarrow>
    ('w, 'z) call_state_scheme \<Rightarrow> bool" where
  "dispatched s q r t \<longleftrightarrow> ledger_ok (cs_ledger s) \<and> ledger_run s t \<and>
     reservations (cs_ledger t) = reservations (cs_ledger s) @ [r] \<and>
     reservation_id r \<notin> reservation_id ` set (reservations (cs_ledger s)) \<and> res_kind r = ProviderKind \<and>
     res_retries r = (if rq_is_retry q then 1 else 0) \<and> totals (cs_ledger t) = totals (cs_ledger s)"

definition settled :: "('w, 'z) call_state_scheme \<Rightarrow> ('w, 'z) call_state_scheme \<Rightarrow> bool" where
  "settled s t \<longleftrightarrow> ledger_run s t \<and> reservations (cs_ledger t) = reservations (cs_ledger s)"

lemma dispatched_world [simp]: "dispatched s q r (t\<lparr>cs_world := w\<rparr>) \<longleftrightarrow> dispatched s q r t"
  by (simp add: dispatched_def)

lemma settled_world [simp]: "settled s (t\<lparr>cs_world := w\<rparr>) \<longleftrightarrow> settled s t"
  by (simp add: settled_def)

lemma dispatched_filter:
  assumes "dispatched s q r t" and "u \<in> set (reservations (cs_ledger t))" and "reservation_id u = reservation_id r"
  shows "u = r" and "filter (\<lambda>x. reservation_id x \<noteq> reservation_id u) (reservations (cs_ledger t)) = reservations (cs_ledger s)"
proof -
  show "u = r" using assms unfolding dispatched_def by (auto simp: image_iff)
  show "filter (\<lambda>x. reservation_id x \<noteq> reservation_id u) (reservations (cs_ledger t)) = reservations (cs_ledger s)"
    using assms unfolding dispatched_def by (auto simp: image_iff intro!: filter_True)
qed

lemma complete_Inr:
  assumes "complete_provider_call l now r u latency sent = (Inr snap, l')"
  shows "\<exists>n. snapshot l' n = Inr snap"
proof -
  obtain stored l1 where p: "pop_reservation l r ProviderKind = (Inr stored, l1)"
    using assms by (auto simp: complete_provider_call_def split: sum.splits prod.splits)
  show ?thesis
    using assms by (auto simp: complete_provider_call_def p record_and_snapshot_def Let_def
        split: sum.splits prod.splits if_splits)
qed

lemma account_usage_unknown:
  "ur_usage_status u = UnknownUsage \<Longrightarrow> t_unknown_usage (totals (account_usage r u l)) = t_unknown_usage (totals l) + 1"
  "ur_cost_status u = UnknownCost \<Longrightarrow> t_unknown_cost (totals (account_usage r u l)) = t_unknown_cost (totals l) + 1"
  by (auto simp: account_usage_def Let_def observe_token_facts split: cost_status.splits)

lemma complete_unknown:
  assumes "complete_provider_call l now r u latency True = (Inr snap, l')" and "ledger_ok l"
    and "ur_usage_status u = UnknownUsage \<or> ur_cost_status u = UnknownCost"
  shows "accounting_unknown l'"
proof -
  obtain stored l1 where p: "pop_reservation l r ProviderKind = (Inr stored, l1)"
    using assms(1) by (auto simp: complete_provider_call_def split: sum.splits prod.splits)
  let ?t = "add_total Retries (res_retries stored) (totals l1)"
  let ?l2 = "l1\<lparr>totals := ?t\<lparr>t_latency := float_add (t_latency ?t) latency\<rparr>\<rparr>"
  have l': "l' = snd (record_and_snapshot (account_usage stored u ?l2) now)"
    using assms(1) by (auto simp: complete_provider_call_def p Let_def split: sum.splits)
  have "0 \<le> t_unknown_usage (totals ?l2)" "0 \<le> t_unknown_cost (totals ?l2)"
    using pop_facts [OF p] assms(2) by (auto simp: ledger_ok_def)
  then show ?thesis unfolding accounting_unknown_def l' record_and_snapshot_facts(4)
    using assms(3) account_usage_unknown [of u stored ?l2] by auto
qed

text \<open>Settling a dispatched call: the reservation goes, the reported usage is added, and the snapshot
  is that of the ledger.\<close>

lemma complete_call:
  assumes "complete_provider_call (cs_ledger t) now r u latency sent = (out, l)" and "dispatched s q r t"
    and "usage_valid u"
  shows "ledger_run s (t\<lparr>cs_world := w, cs_ledger := l\<rparr>)" and "out = Inr snap \<Longrightarrow>
    settled s (t\<lparr>cs_world := w, cs_ledger := l\<rparr>) \<and> (\<exists>n. snapshot l n = Inr snap) \<and>
    (\<forall>m. total_of m (totals l) = total_of m (totals (cs_ledger s)) + provider_amount u sent r m) \<and>
    (sent \<and> (ur_usage_status u = UnknownUsage \<or> ur_cost_status u = UnknownCost) \<longrightarrow> accounting_unknown l)"
proof -
  have ok: "ledger_ok (cs_ledger t)" "ledger_run s t" using assms(2) ledger_run_ok by (auto simp: dispatched_def)
  obtain raw where raw: "validate_usage_report raw = Inr u" using assms(3) by (auto simp: usage_valid_def)
  have "ledger_step (cs_ledger t) l" using step_complete_provider [OF raw, of "cs_ledger t" now r latency sent] assms(1) by simp
  then show run: "ledger_run s (t\<lparr>cs_world := w, cs_ledger := l\<rparr>)" by (rule ledger_run_step [OF ok(2)])
  assume out: "out = Inr snap"
  obtain x where x: "settles (cs_ledger t) x (provider_amount u sent x) l" "reservation_id x = reservation_id r"
    using complete_provider_facts [OF assms(1) ok(1)] usage_nonneg [OF raw] out by blast
  then have "x \<in> set (reservations (cs_ledger t))" by (simp add: settles_def)
  note xr = dispatched_filter [OF assms(2) this x(2)]
  have "reservations l = reservations (cs_ledger s)"
    "\<forall>m. total_of m (totals l) = total_of m (totals (cs_ledger s)) + provider_amount u sent r m"
    using x(1) xr assms(2) unfolding settles_def dispatched_def by auto
  with run complete_Inr complete_unknown [OF _ ok(1)] assms(1) out
  show "settled s (t\<lparr>cs_world := w, cs_ledger := l\<rparr>) \<and> (\<exists>n. snapshot l n = Inr snap) \<and>
    (\<forall>m. total_of m (totals l) = total_of m (totals (cs_ledger s)) + provider_amount u sent r m) \<and>
    (sent \<and> (ur_usage_status u = UnknownUsage \<or> ur_cost_status u = UnknownCost) \<longrightarrow> accounting_unknown l)"
    by (cases sent) (auto simp: settled_def)
qed


definition call_ended :: "('w, 'z) call_state_scheme \<Rightarrow> provider_request \<Rightarrow> 'a call_result \<Rightarrow>
    ('w, 'z) call_state_scheme \<Rightarrow> bool" where
  "call_ended s q r t \<longleftrightarrow> settled s t \<and>
     (if cr_status r = Succeeded then
        cr_failure r = None \<and> cr_reservation_id r \<noteq> None \<and> \<not> damaged (cs_ledger t) \<and>
        (\<exists>v. cr_invocation r = Some v \<and> usage_valid (inv_usage v) \<and>
          (\<forall>m. total_of m (totals (cs_ledger t)) = total_of m (totals (cs_ledger s)) +
            (if m = Retries then (if rq_is_retry q then 1 else 0) else usage_amount (inv_usage v) m)))
      else (\<exists>f. cr_failure r = Some f \<and> (pf_ambiguous f \<longrightarrow> damaged (cs_ledger t)) \<and>
        (\<not> pf_request_sent f \<longrightarrow> (\<forall>m. m \<noteq> Retries \<longrightarrow>
          total_of m (totals (cs_ledger t)) = total_of m (totals (cs_ledger s)))) \<and>
        (cr_status r = Rejected \<longrightarrow> cs_ledger t = cs_ledger s)))"

lemma failed_result_Inr:
  assumes "failed_result i reservation timeout got snap = Inr r"
  shows "cr_status r = fi_status i" and "cr_status r \<noteq> Succeeded"
    and "\<exists>f. cr_failure r = Some f \<and> pf_ambiguous f = fi_ambiguous i \<and> pf_request_sent f = fi_sent i"
  using assms
  by (auto simp: failed_result_def call_failure_def validate_failure_def validate_call_result_def
      validated_Inr bindE_Inr thenE_Inr raise_if_Inr split: option.splits if_splits)

lemma failed_ends:
  assumes "failed_result i reservation timeout got snap = Inr r" and "settled s t"
    and "fi_ambiguous i \<Longrightarrow> damaged (cs_ledger t)"
    and "\<not> fi_sent i \<Longrightarrow> \<forall>m. m \<noteq> Retries \<longrightarrow> total_of m (totals (cs_ledger t)) = total_of m (totals (cs_ledger s))"
    and "fi_status i = Rejected \<Longrightarrow> cs_ledger t = cs_ledger s"
  shows "call_ended s q r t"
  using failed_result_Inr [OF assms(1)] assms(2-5) by (auto simp: call_ended_def)

lemma lift_failed:
  assumes "\<And>r. failed_result i reservation timeout got snap = Inr r \<Longrightarrow> Q r t" and "\<And>e. E e t"
  shows "wp d (liftS (failed_result i reservation timeout got snap)) Q E t"
  using assms by (cases "failed_result i reservation timeout got snap") (simp_all add: wp_lift)

lemma settle_unknown_rule:
  assumes "dispatched s q r t" and "fi_sent i" and "fi_status i \<noteq> Rejected"
  shows "wp True (settle_unknown port r timeout latency i) (call_ended s q) (\<lambda>_. ledger_run s) t"
  unfolding settle_unknown_def wp_bind
proof (rule on_ledger_rule)
  fix now w snap l
  assume "complete_provider_failure (cs_ledger t) now r True None latency = (Inr snap, l)"
  then have "complete_provider_call (cs_ledger t) now r unknown_usage latency True = (Inr snap, l)"
    by (simp add: complete_provider_failure_def)
  note fin = complete_call [OF this assms(1), where w = w]
  show "wp True (liftS (failed_result i (Some (reservation_id r)) timeout None snap)) (call_ended s q)
      (\<lambda>_. ledger_run s) (t\<lparr>cs_world := w, cs_ledger := l\<rparr>)"
    by (rule lift_failed, rule failed_ends)
      (use fin assms(2,3) in \<open>auto simp: damaged_def\<close>)
next
  fix now w e l
  assume "complete_provider_failure (cs_ledger t) now r True None latency = (Inl e, l)"
  then have "complete_provider_call (cs_ledger t) now r unknown_usage latency True = (Inl e, l)"
    by (simp add: complete_provider_failure_def)
  then show "ledger_run s (t\<lparr>cs_world := w, cs_ledger := l\<rparr>)" using complete_call(1) [OF _ assms(1)] by simp
qed

lemma settle_returned_rule:
  assumes "dispatched s q r t"
  shows "wp True (settle_returned port r timeout latency response raw) (call_ended s q) (\<lambda>_. ledger_run s) t"
proof (cases "validate_usage_report raw")
  case (Inl e)
  then show ?thesis unfolding settle_returned_def by (simp add: settle_unknown_rule [OF assms] after_sending_def)
next
  case (Inr u)
  then have valid: "usage_valid u" by (auto simp: usage_valid_def)
  have "wp True (on_ledger port (\<lambda>l now. complete_provider_call l now r u latency True))
    (\<lambda>snap. wp True (liftS (if s_healthy snap \<and> \<not> s_deadline_exceeded snap then validate_call_result
              \<lparr>cr_status = Succeeded, cr_reservation_id = Some (reservation_id r), cr_timeout_ms = timeout,
               cr_invocation = Some \<lparr>inv_response = response, inv_usage = u\<rparr>, cr_failure = None, cr_ledger = snap,
               cr_eligible = s_promotion_eligible snap\<rparr>
            else failed_result \<lparr>fi_status = Failed, fi_kind = AccountingInvalid, fi_sent = True,
              fi_usage = Some u, fi_ambiguous = False, fi_metric = None, fi_error_type = None,
              fi_error = no_provider_error\<rparr> (Some (reservation_id r)) timeout
                (Some \<lparr>inv_response = response, inv_usage = u\<rparr>) snap))
      (call_ended s q) (\<lambda>_. ledger_run s)) (\<lambda>_. ledger_run s) t"
  proof (rule on_ledger_rule)
    fix now w snap l
    assume c: "complete_provider_call (cs_ledger t) now r u latency True = (Inr snap, l)"
    note fin = complete_call [OF c assms valid, where w = w]
    let ?r = "\<lparr>cr_status = Succeeded, cr_reservation_id = Some (reservation_id r), cr_timeout_ms = timeout,
               cr_invocation = Some \<lparr>inv_response = response, inv_usage = u\<rparr>, cr_failure = None, cr_ledger = snap,
               cr_eligible = s_promotion_eligible snap\<rparr>"
    have ok: "call_ended s q x (t\<lparr>cs_world := w, cs_ledger := l\<rparr>)"
      if x: "validate_call_result ?r = Inr x" and h: "s_healthy snap" for x
    proof -
      have "x = ?r" using x by (auto simp: validate_call_result_def validated_Inr thenE_Inr)
      moreover have "\<not> damaged l" using fin(2) [OF refl] h snapshot_Inr by (auto simp: damaged_def)
      moreover have "res_retries r = (if rq_is_retry q then 1 else 0)" using assms by (simp add: dispatched_def)
      ultimately show ?thesis using fin(2) [OF refl] valid by (simp add: call_ended_def provider_amount_def)
    qed
    show "wp True (liftS (if s_healthy snap \<and> \<not> s_deadline_exceeded snap then validate_call_result ?r
            else failed_result \<lparr>fi_status = Failed, fi_kind = AccountingInvalid, fi_sent = True,
              fi_usage = Some u, fi_ambiguous = False, fi_metric = None, fi_error_type = None,
              fi_error = no_provider_error\<rparr> (Some (reservation_id r)) timeout
                (Some \<lparr>inv_response = response, inv_usage = u\<rparr>) snap))
      (call_ended s q) (\<lambda>_. ledger_run s) (t\<lparr>cs_world := w, cs_ledger := l\<rparr>)"
      using fin ok by (auto simp: wp_lift split: sum.split intro!: failed_ends)
  qed (use complete_call(1) [OF _ assms valid] in simp)
  then show ?thesis by (simp add: settle_returned_def Inr wp_bind Let_def)
qed

lemma invocation_failure_status [simp]: "fi_status (invocation_failure error_type e) \<noteq> Rejected"
  by (simp add: invocation_failure_def Let_def)

lemma settle_error_rule:
  assumes "dispatched s q r t" and "\<And>u. ie_usage e = Some u \<Longrightarrow> usage_valid u"
  shows "wp True (settle_error port r timeout latency error_type e) (call_ended s q) (\<lambda>_. ledger_run s) t"
  unfolding settle_error_def wp_bind
proof (rule on_ledger_rule)
  let ?u = "if ie_request_sent e then (case ie_usage e of None \<Rightarrow> unknown_usage | Some v \<Rightarrow> v) else unknown_usage"
  have valid: "usage_valid ?u" using assms(2) by (auto split: option.split)
  have eq: "complete_provider_failure l now r (ie_request_sent e) (ie_usage e) latency =
      complete_provider_call l now r ?u latency (ie_request_sent e)" for l now
    by (simp add: complete_provider_failure_def)
  { fix now w snap l
    assume "complete_provider_failure (cs_ledger t) now r (ie_request_sent e) (ie_usage e) latency = (Inr snap, l)"
    note fin = complete_call [OF this [unfolded eq] assms(1) valid, where w = w]
    show "wp True (liftS (failed_result (invocation_failure error_type e) (Some (reservation_id r)) timeout None snap))
        (call_ended s q) (\<lambda>_. ledger_run s) (t\<lparr>cs_world := w, cs_ledger := l\<rparr>)"
    proof (rule lift_failed, rule failed_ends)
      show "settled s (t\<lparr>cs_world := w, cs_ledger := l\<rparr>)" using fin(2) by simp
      show "damaged (cs_ledger (t\<lparr>cs_world := w, cs_ledger := l\<rparr>))" if "fi_ambiguous (invocation_failure error_type e)"
        using that fin(2) [OF refl]
        by (auto simp: damaged_def invocation_failure_def Let_def split: option.splits)
      show "\<forall>m. m \<noteq> Retries \<longrightarrow> total_of m (totals (cs_ledger (t\<lparr>cs_world := w, cs_ledger := l\<rparr>))) =
          total_of m (totals (cs_ledger s))" if "\<not> fi_sent (invocation_failure error_type e)"
        using that fin(2) [OF refl] by (simp add: invocation_failure_def Let_def provider_amount_def)
    qed (use fin in simp_all) }
  fix now w x l
  assume "complete_provider_failure (cs_ledger t) now r (ie_request_sent e) (ie_usage e) latency = (Inl x, l)"
  then show "ledger_run s (t\<lparr>cs_world := w, cs_ledger := l\<rparr>)"
    using complete_call(1) [OF _ assms(1) valid] by (simp add: eq)
qed


lemma after_sending_simps [simp]: "fi_sent (after_sending st k m)" "fi_status (after_sending st k m) = st"
  by (simp_all add: after_sending_def)

lemma timed_rule:
  "(\<And>x w. wp d (f x) Q E (s\<lparr>cs_world := w\<rparr>)) \<Longrightarrow> wp d (bindS (latency_since port started) f) Q E s"
  unfolding latency_since_def wp_simps by (rule clock_rule)

lemma settle_rule:
  assumes "dispatched s q r t"
    and "\<And>e x u. out = Reply (RaisedInvocationError x e) \<Longrightarrow> ie_usage e = Some u \<Longrightarrow> usage_valid u"
  shows "wp True (settle port r timeout started out) (call_ended s q) (\<lambda>_. ledger_run s) t"
proof -
  have d: "dispatched s q r (t\<lparr>cs_world := w\<rparr>)" for w using assms(1) by simp
  note unknown = settle_unknown_rule [OF d] and returned = settle_returned_rule [OF d]
  show ?thesis
  proof (cases out)
    case CancelSeen
    show ?thesis unfolding settle_def CancelSeen Let_def outcome.case wp_then
      by (rule on_world_rule, rule timed_rule, simp, rule unknown) simp_all
  next
    case DeadlinePassed
    show ?thesis unfolding settle_def DeadlinePassed Let_def outcome.case wp_then
      by (rule on_world_rule, rule timed_rule, simp, rule unknown) simp_all
  next
    case (Reply rep)
    then show ?thesis unfolding settle_def Let_def
      using assms(2)
      by (cases rep) (auto intro!: timed_rule unknown returned settle_error_rule [OF d])
  qed
qed

lemma cancel_call_rule:
  assumes "cancel_reservation (cs_ledger t) now r = (out, l)" and "dispatched s q r t"
  shows "ledger_run s (t\<lparr>cs_world := w, cs_ledger := l\<rparr>)" and "out = Inr snap \<Longrightarrow>
    settled s (t\<lparr>cs_world := w, cs_ledger := l\<rparr>) \<and> totals l = totals (cs_ledger s)"
proof -
  have run: "ledger_run s t" using assms(2) by (auto simp: dispatched_def)
  have "ledger_step (cs_ledger t) l" using step_cancel [of "cs_ledger t" now r] assms(1) by simp
  then show r: "ledger_run s (t\<lparr>cs_world := w, cs_ledger := l\<rparr>)" by (rule ledger_run_step [OF run])
  assume "out = Inr snap"
  then obtain x where p: "pop_reservation (cs_ledger t) r (res_kind r) = (Inr x, l)"
    using assms(1) by (auto simp: cancel_reservation_def split: sum.splits prod.splits)
  with pop_facts [OF p] have "x \<in> set (reservations (cs_ledger t))" "reservation_id x = reservation_id r"
    and l: "l = (cs_ledger t)\<lparr>reservations := filter (\<lambda>y. reservation_id y \<noteq> reservation_id x) (reservations (cs_ledger t))\<rparr>"
    by auto
  with dispatched_filter [OF assms(2)] r assms(2)
  show "settled s (t\<lparr>cs_world := w, cs_ledger := l\<rparr>) \<and> totals l = totals (cs_ledger s)"
    by (simp add: settled_def dispatched_def)
qed

lemma dispatch_rule:
  assumes "dispatched s q r t" and "typed_errors port"
  shows "wp True (dispatch port request cred r) (call_ended s q) (\<lambda>_. ledger_run s) t"
  unfolding dispatch_def wp_bind
proof (rule on_ledger_rule)
  fix now timeout l w
  assume "(provider_timeout_ms (cs_ledger t) now, cs_ledger t) = (Inr timeout, l)"
  then have t: "t\<lparr>cs_world := w, cs_ledger := l\<rparr> = t\<lparr>cs_world := w\<rparr>" by simp
  have d: "dispatched s q r (t\<lparr>cs_world := w\<rparr>)" for w using assms(1) by simp
  show "wp True (if timeout \<le> 0 then
       bindS (on_ledger port (\<lambda>l now. cancel_reservation l now r)) (\<lambda>snap.
       liftS (failed_result (before_sending DeadlineExceeded DeadlineFailure None)
         (Some (reservation_id r)) 0 None snap))
     else
       bindS (clock port) (\<lambda>started.
       bindS (liftS (deadline_after started timeout)) (\<lambda>deadline.
       let control = \<lparr>cc_reservation_id = reservation_id r, cc_timeout_ms = timeout, cc_deadline = deadline\<rparr> in
       thenS (on_world (\<lambda>w. ((), start_call port request control cred w))) (
       bindS (wait_for_reply port deadline) (\<lambda>out.
       settle port r timeout started out)))))
     (call_ended s q) (\<lambda>_. ledger_run s) (t\<lparr>cs_world := w, cs_ledger := l\<rparr>)"
  proof (cases "timeout \<le> 0")
    case True
    have "wp True (bindS (on_ledger port (\<lambda>l now. cancel_reservation l now r)) (\<lambda>snap.
       liftS (failed_result (before_sending DeadlineExceeded DeadlineFailure None)
         (Some (reservation_id r)) 0 None snap))) (call_ended s q) (\<lambda>_. ledger_run s) (t\<lparr>cs_world := w\<rparr>)"
      unfolding wp_bind
    proof (rule on_ledger_rule)
      fix now v snap l
      assume c: "cancel_reservation (cs_ledger (t\<lparr>cs_world := w\<rparr>)) now r = (Inr snap, l)"
      show "wp True (liftS (failed_result (before_sending DeadlineExceeded DeadlineFailure None)
         (Some (reservation_id r)) 0 None snap)) (call_ended s q) (\<lambda>_. ledger_run s)
           (t\<lparr>cs_world := w, cs_world := v, cs_ledger := l\<rparr>)"
        by (rule lift_failed, rule failed_ends)
          (use cancel_call_rule [OF c d, where w = v] in \<open>auto simp: before_sending_def\<close>)
    qed (use cancel_call_rule(1) [OF _ d] in simp)
    with True t show ?thesis by simp
  next
    case False
    have "wp True (bindS (clock port) (\<lambda>started.
       bindS (liftS (deadline_after started timeout)) (\<lambda>deadline.
       thenS (on_world (\<lambda>w. ((), start_call port request \<lparr>cc_reservation_id = reservation_id r,
         cc_timeout_ms = timeout, cc_deadline = deadline\<rparr> cred w))) (
       bindS (wait_for_reply port deadline) (settle port r timeout started)))))
       (call_ended s q) (\<lambda>_. ledger_run s) (t\<lparr>cs_world := w\<rparr>)"
      unfolding wp_bind
    proof (rule clock_rule)
      fix started v
      have run: "ledger_run s (t\<lparr>cs_world := w, cs_world := v\<rparr>)" using assms(1) by (simp add: dispatched_def)
      have "wp True (thenS (on_world (\<lambda>w. ((), start_call port request \<lparr>cc_reservation_id = reservation_id r,
         cc_timeout_ms = timeout, cc_deadline = deadline\<rparr> cred w))) (
         bindS (wait_for_reply port deadline) (settle port r timeout started)))
         (call_ended s q) (\<lambda>_. ledger_run s) (t\<lparr>cs_world := v\<rparr>)" for deadline
        unfolding wp_then wp_bind
        by (rule on_world_rule, rule wait_rule, rule settle_rule)
          (use assms in \<open>simp_all add: typed_errors_def, metis\<close>)
      then show "wp True (liftS (deadline_after started timeout)) (\<lambda>deadline. wp True
         (thenS (on_world (\<lambda>w. ((), start_call port request \<lparr>cc_reservation_id = reservation_id r,
         cc_timeout_ms = timeout, cc_deadline = deadline\<rparr> cred w))) (
         bindS (wait_for_reply port deadline) (settle port r timeout started)))
         (call_ended s q) (\<lambda>_. ledger_run s)) (\<lambda>_. ledger_run s) (t\<lparr>cs_world := w, cs_world := v\<rparr>)"
        using run by (simp add: wp_lift split: sum.split)
    qed
    with False t show ?thesis by (simp add: Let_def)
  qed
qed (use assms(1) in \<open>auto simp: dispatched_def\<close>)

lemma reserve_fields:
  "reserve_provider_call l now q = (Inr r, l') \<Longrightarrow> res_kind r = ProviderKind \<and>
     res_retries r = (if rq_is_retry q then 1 else 0)"
  by (auto simp: reserve_provider_call_def store_reservation_def split: sum.splits)

lemma reserve_dispatched:
  assumes "reserve_provider_call (cs_ledger s) now q = (out, l)" and "ledger_ok (cs_ledger s)"
  shows "out = Inr r \<Longrightarrow> dispatched s q r (s\<lparr>cs_world := w, cs_ledger := l\<rparr>)" and "out = Inl e \<Longrightarrow> l = cs_ledger s"
proof -
  show "out = Inl e \<Longrightarrow> l = cs_ledger s" using reserve_provider_facts [OF assms] by blast
  assume r: "out = Inr r"
  then have h: "holds_new (cs_ledger s) r l" using reserve_provider_facts [OF assms] by blast
  have "ledger_step (cs_ledger s) l" using step_reserve_provider [of "cs_ledger s" now q] assms(1) by simp
  then have "ledger_run s (s\<lparr>cs_world := w, cs_ledger := l\<rparr>)" by (rule ledger_run_step [OF ledger_run_refl])
  moreover have "reservation_id r \<notin> reservation_id ` set (reservations (cs_ledger s))"
    using h next_id_fresh [OF assms(2)] unfolding holds_new_def by (metis imageE)
  ultimately show "dispatched s q r (s\<lparr>cs_world := w, cs_ledger := l\<rparr>)"
    using h reserve_fields assms r by (auto simp: dispatched_def holds_new_def)
qed

lemma snapshot_rule:
  assumes "fi_sent i = False" and "fi_ambiguous i = False" and "ledger_run s t" and "cs_ledger t = cs_ledger s"
  shows "wp True (bindS (take_snapshot port) (\<lambda>snap. liftS (failed_result i None 0 None snap)))
    (call_ended s q) (\<lambda>_. ledger_run s) t"
  unfolding take_snapshot_def wp_bind
proof (rule on_ledger_rule)
  fix now w snap l
  assume "(snapshot (cs_ledger t) now, cs_ledger t) = (Inr snap, l)"
  then show "wp True (liftS (failed_result i None 0 None snap)) (call_ended s q) (\<lambda>_. ledger_run s)
      (t\<lparr>cs_world := w, cs_ledger := l\<rparr>)"
    by (intro lift_failed, elim failed_ends) (use assms in \<open>auto simp: settled_def\<close>)
qed (use assms(3) in auto)

lemma before_sending_simps [simp]:
  "fi_sent (before_sending st k m) = False" "fi_ambiguous (before_sending st k m) = False"
  by (simp_all add: before_sending_def)

lemma provider_call_rule:
  assumes ok: "ledger_ok (cs_ledger s)" and port: "typed_errors port"
  shows "wp True (provider_call port request q cred) (call_ended s q) (\<lambda>_. ledger_run s) s"
proof -
  have snap: "wp True (bindS (take_snapshot port) (\<lambda>snap. liftS (failed_result i None 0 None snap)))
      (call_ended s q) (\<lambda>_. ledger_run s) (s\<lparr>cs_world := w\<rparr>)" if "fi_sent i = False" "fi_ambiguous i = False" for i w
    by (rule snapshot_rule) (use that in simp_all)
  define rest where "rest = (\<lambda>reserved. wp True (case reserved of
         Inl exhausted \<Rightarrow> bindS (take_snapshot port) (\<lambda>snap.
           liftS (failed_result (before_sending Rejected BudgetExhausted (Some exhausted)) None 0 None snap))
       | Inr r \<Rightarrow> dispatch port request cred r) (call_ended s q) (\<lambda>_. ledger_run s))"
  have "wp True (reserve_for_call port q) rest (\<lambda>_. ledger_run s) s"
    unfolding reserve_for_call_def wp_handle wp_bind
  proof (rule on_ledger_rule)
    fix now w r l
    assume "reserve_provider_call (cs_ledger s) now q = (Inr r, l)"
    then show "wp True (returnS (Inr r)) rest
       (\<lambda>e. case (case e of BudgetExhaustedError m \<Rightarrow> Some (returnS (Inl m)) | _ \<Rightarrow> None) of
          None \<Rightarrow> ledger_run s
        | Some n \<Rightarrow> wp True n rest (\<lambda>_. ledger_run s))
       (s\<lparr>cs_world := w, cs_ledger := l\<rparr>)"
      using reserve_dispatched(1) [OF _ ok refl] by (simp add: wp_return rest_def dispatch_rule [OF _ port])
  next
    fix now w e l
    assume "reserve_provider_call (cs_ledger s) now q = (Inl e, l)"
    then have "l = cs_ledger s" using reserve_dispatched(2) [OF _ ok refl] by simp
    then show "(case (case e of BudgetExhaustedError m \<Rightarrow> Some (returnS (Inl m)) | _ \<Rightarrow> None) of
          None \<Rightarrow> ledger_run s
        | Some n \<Rightarrow> wp True n rest (\<lambda>_. ledger_run s))
       (s\<lparr>cs_world := w, cs_ledger := l\<rparr>)"
      by (cases e) (simp_all add: wp_return rest_def snap)
  qed
  then show ?thesis
    unfolding provider_call_def wp_bind wp_get rest_def
    using snap [of "before_sending Cancelled CancelledFailure None" "cs_world s"]
    by (cases "caller_cancelled port (cs_world s)") (simp_all add: wp_bind)
qed



section \<open>The wait ends\<close>

text \<open>One round of the wait that finds nothing, and what the round at a world sees when the wait is
  over there.\<close>

definition time_left :: "('a, 'q, 'w) port \<Rightarrow> pyfloat \<Rightarrow> 'w \<Rightarrow> pyfloat" where
  "time_left port deadline w = float_sub deadline (fst (read_clock port w))"

definition polled :: "('a, 'q, 'w) port \<Rightarrow> pyfloat \<Rightarrow> 'w \<Rightarrow> 'a reply option \<times> 'w" where
  "polled port deadline w =
     poll_reply port (float_min (time_left port deadline w) poll_interval) (snd (read_clock port w))"

definition wait_over :: "('a, 'q, 'w) port \<Rightarrow> pyfloat \<Rightarrow> 'w \<Rightarrow> bool" where
  "wait_over port deadline w \<longleftrightarrow> caller_cancelled port w \<or> float_le (time_left port deadline w) float_zero \<or>
     fst (polled port deadline w) \<noteq> None"

definition poll_round :: "('a, 'q, 'w) port \<Rightarrow> pyfloat \<Rightarrow> 'w \<Rightarrow> 'w" where
  "poll_round port deadline w = snd (polled port deadline w)"

definition seen :: "('a, 'q, 'w) port \<Rightarrow> pyfloat \<Rightarrow> 'w \<Rightarrow> 'a outcome" where
  "seen port deadline w = (if caller_cancelled port w then CancelSeen
     else if float_le (time_left port deadline w) float_zero then DeadlinePassed
     else Reply (the (fst (polled port deadline w))))"

lemma await_unfold:
  "await_reply port deadline w =
     (if wait_over port deadline w then Some (seen port deadline w,
        if caller_cancelled port w then w
        else if float_le (time_left port deadline w) float_zero then snd (read_clock port w)
        else poll_round port deadline w)
      else await_reply port deadline (poll_round port deadline w))"
  by (subst await_reply.simps)
    (simp add: wait_over_def seen_def poll_round_def polled_def time_left_def Let_def)

lemma await_first_round:
  assumes "wait_over port deadline ((poll_round port deadline ^^ n) w)"
    and "\<And>m. m < n \<Longrightarrow> \<not> wait_over port deadline ((poll_round port deadline ^^ m) w)"
  shows "map_option fst (await_reply port deadline w) = Some (seen port deadline ((poll_round port deadline ^^ n) w))"
  using assms
proof (induction n arbitrary: w)
  case (Suc n)
  have "map_option fst (await_reply port deadline (poll_round port deadline w)) =
      Some (seen port deadline ((poll_round port deadline ^^ n) (poll_round port deadline w)))"
  proof (rule Suc.IH)
    show "wait_over port deadline ((poll_round port deadline ^^ n) (poll_round port deadline w))"
      using Suc.prems(1) by (simp add: funpow_swap1)
    show "\<not> wait_over port deadline ((poll_round port deadline ^^ m) (poll_round port deadline w))" if "m < n" for m
      using Suc.prems(2) [of "Suc m"] that by (simp add: funpow_swap1)
  qed
  moreover have "\<not> wait_over port deadline w" using Suc.prems(2) [of 0] by simp
  ultimately show ?case by (subst await_unfold) (simp add: funpow_swap1)
qed (subst await_unfold, simp)

definition each_wait_ends :: "('a, 'q, 'w) port \<Rightarrow> bool" where
  "each_wait_ends port \<longleftrightarrow> (\<forall>deadline w. \<exists>n. wait_over port deadline ((poll_round port deadline ^^ n) w))"

lemma await_returns:
  assumes "each_wait_ends port"
  shows "\<exists>out v. await_reply port deadline w = Some (out, v)"
proof -
  let ?over = "\<lambda>n. wait_over port deadline ((poll_round port deadline ^^ n) w)"
  obtain k where "?over k" using assms by (auto simp: each_wait_ends_def)
  then have "?over (LEAST n. ?over n)" by (rule LeastI)
  from await_first_round [OF this] not_less_Least show ?thesis by fastforce
qed

lemma returns_ledger [returns_intros]: "returns (on_world g)" "returns (clock port)" "returns (on_ledger port k)"
  "returns (take_snapshot port)" "returns (latency_since port started)"
  by (simp_all add: on_world_def clock_def on_ledger_def take_snapshot_def latency_since_def returns_intros)

lemma returns_wait: "each_wait_ends port \<Longrightarrow> returns (wait_for_reply port deadline)"
  unfolding returns_def wait_for_reply_def using await_returns by (fastforce split: option.split)

lemma returns_settle: "returns (settle port r timeout started out)"
  by (auto simp: settle_def settle_unknown_def settle_returned_def settle_error_def Let_def
      split: outcome.split reply.split sum.split intro!: returns_intros)

lemma returns_call: "each_wait_ends port \<Longrightarrow> returns (provider_call port request q cred)"
  unfolding provider_call_def reserve_for_call_def dispatch_def
  by (auto simp: Let_def split: sum.split exn.splits intro!: returns_intros returns_wait returns_settle)


section \<open>Sample calls\<close>

text \<open>A caller that has cancelled, and a provider that raises at once.\<close>

definition cancelled_port :: "(string, string, nat) port" where
  "cancelled_port = \<lparr>read_clock = (\<lambda>w. (float_zero, w)), start_call = (\<lambda>_ _ _ w. w),
     poll_reply = (\<lambda>_ w. (None, w)), cancel_call = (\<lambda>_ w. w), caller_cancelled = (\<lambda>_. True)\<rparr>"

definition raising_port :: "(string, string, nat) port" where
  "raising_port = cancelled_port\<lparr>poll_reply := (\<lambda>_ w. (Some (RaisedOther ''ConnectionError''), Suc w)),
     caller_cancelled := (\<lambda>_. False)\<rparr>"

definition start_state :: "nat call_state" where
  "start_state = \<lparr>cs_ledger = start_ledger, cs_world = 0\<rparr>"



end
