(* ===== verification/JsonText.thy ===== *)
theory JsonText
  imports Floats
begin

text \<open>
  JSON as the runtime writes it: \<open>json.dumps(value, sort_keys=True, separators=(",", ":"))\<close>, with and
  without \<open>ensure_ascii\<close>, of the values a model dumped in JSON mode is made of. Strings are UTF-8
  bytes; a float is printed by \<open>float.__repr__\<close>, the shortest decimal that reads back as it.
\<close>

section \<open>Values\<close>

datatype json =
    JNull
  | JBool bool
  | JInt int
  | JFloat pyfloat
  | JStr string
  | JList "json list"
  | JDict "(string \<times> json) list"

text \<open>The same value as an argument of the identity digests.\<close>

fun pyval_of :: "json \<Rightarrow> pyval" where
  "pyval_of JNull = PNone"
| "pyval_of (JBool b) = PBool b"
| "pyval_of (JInt i) = PInt i"
| "pyval_of (JFloat f) = PFloat f"
| "pyval_of (JStr s) = PStr s"
| "pyval_of (JList xs) = PList (map pyval_of xs)"
| "pyval_of (JDict es) = PDict (map (\<lambda>(k, v). (PStr k, pyval_of v)) es)"

definition jopt :: "('a \<Rightarrow> json) \<Rightarrow> 'a option \<Rightarrow> json" where
  "jopt f v = (case v of None \<Rightarrow> JNull | Some x \<Rightarrow> f x)"

section \<open>Floats\<close>

text \<open>\<open>decimal_scale\<close> is \<open>400\<close> decimal places: the least positive double is above \<open>10^-324\<close>, so a
  scaled one has more digits than any shortest decimal.\<close>

definition scaled :: "pyfloat \<Rightarrow> nat" where
  "scaled f = float_magnitude f * 10 ^ 400 div 2 ^ 1074"

text \<open>The double nearest to \<open>d\<close> times a power of ten.\<close>

definition decimal_float :: "nat \<Rightarrow> int \<Rightarrow> pyfloat" where
  "decimal_float d x = (if 0 \<le> x then ratio_float False (d * 10 ^ nat x) 1 else ratio_float False d (10 ^ nat (- x)))"

text \<open>With \<open>n\<close> digits: the decimals below and above the value that read back as it, the nearer of two
  (the even one of a tie).\<close>

definition shortest_at :: "pyfloat \<Rightarrow> nat \<Rightarrow> (nat \<times> int) option" where
  "shortest_at f n =
     (let g = float_abs f; v = scaled f; l = length (show_nat v); k = l - n; d = v div 10 ^ k; x = int k - 400;
          below = (decimal_float d x = g); above = (decimal_float (Suc d) x = g);
          twice = 2 * float_magnitude f * 10 ^ 400; mid = (2 * d + 1) * 10 ^ k * 2 ^ 1074
      in if below \<and> above then Some (if mid < twice \<or> (mid = twice \<and> odd d) then Suc d else d, x)
         else if below then Some (d, x) else if above then Some (Suc d, x) else None)"

definition shortest_decimal :: "pyfloat \<Rightarrow> nat \<times> int" where
  "shortest_decimal f = (case find (\<lambda>n. shortest_at f n \<noteq> None) [1..<18] of
     None \<Rightarrow> (scaled f, - 400) | Some n \<Rightarrow> the (shortest_at f n))"

definition zeros :: "nat \<Rightarrow> string" where
  "zeros n = replicate n (CHR ''0'')"

definition strip_zeros :: "string \<Rightarrow> string" where
  "strip_zeros s = rev (dropWhile (\<lambda>c. c = CHR ''0'') (rev s))"

text \<open>The point comes after \<open>p\<close> digits; a scientific exponent has at least two digits.\<close>

definition place_point :: "string \<Rightarrow> int \<Rightarrow> string" where
  "place_point ds p =
     (if p \<le> - 4 \<or> 16 < p then
        let e = p - 1; es = show_nat (nat \<bar>e\<bar>) in
        (case ds of [] \<Rightarrow> [] | c # cs \<Rightarrow> c # (if cs = [] then [] else CHR ''.'' # cs)) @ ''e'' @
        (if e < 0 then ''-'' else ''+'') @ zeros (2 - length es) @ es
      else if p \<le> 0 then ''0.'' @ zeros (nat (- p)) @ ds
      else if int (length ds) \<le> p then ds @ zeros (nat p - length ds) @ ''.0''
      else take (nat p) ds @ ''.'' @ drop (nat p) ds)"

definition float_repr :: "pyfloat \<Rightarrow> string" where
  "float_repr f =
     (if is_nan f then ''nan''
      else (if flt_sign f then ''-'' else '''') @
        (if is_inf f then ''inf''
         else if float_magnitude f = 0 then ''0.0''
         else let (d, x) = shortest_decimal f; s = show_nat d in place_point (strip_zeros s) (int (length s) + x)))"

definition json_float :: "pyfloat \<Rightarrow> string" where
  "json_float f = (if is_nan f then ''NaN''
     else if is_inf f then (if flt_sign f then ''-Infinity'' else ''Infinity'') else float_repr f)"

section \<open>Strings\<close>

text \<open>The code points of a UTF-8 string.\<close>

fun code_points :: "string \<Rightarrow> nat list" where
  "code_points [] = []"
| "code_points (a # s) = (let n = of_char a; k = (if n < 192 then 0 else if n < 224 then 1 else if n < 240 then 2 else 3);
     lead = (if n < 192 then n else if n < 224 then n mod 32 else if n < 240 then n mod 16 else n mod 8)
   in fold (\<lambda>b acc. acc * 64 + of_char b mod 64) (take k s) lead # code_points (drop k s))"

definition unicode_escape :: "nat \<Rightarrow> string" where
  "unicode_escape n = CHR 0x5C # CHR ''u'' # hex_digits 4 n"

definition short_escape :: "nat \<Rightarrow> string option" where
  "short_escape n = map_of [(0x22, [CHR 0x5C, CHR 0x22]), (0x5C, [CHR 0x5C, CHR 0x5C]), (0x0A, [CHR 0x5C, CHR ''n'']),
     (0x0D, [CHR 0x5C, CHR ''r'']), (0x09, [CHR 0x5C, CHR ''t'']), (0x0C, [CHR 0x5C, CHR ''f'']),
     (0x08, [CHR 0x5C, CHR ''b''])] n"

text \<open>\<open>ensure_ascii\<close> escapes everything outside the printable ASCII characters, with a surrogate pair
  beyond the basic plane.\<close>

definition ascii_escape :: "nat \<Rightarrow> string" where
  "ascii_escape n = (case short_escape n of Some e \<Rightarrow> e
   | None \<Rightarrow> if 32 \<le> n \<and> n < 127 then [char_of n]
       else if n < 65536 then unicode_escape n
       else unicode_escape (0xD800 + (n - 65536) div 1024) @ unicode_escape (0xDC00 + (n - 65536) mod 1024))"

definition plain_escape :: "char \<Rightarrow> string" where
  "plain_escape c = (case short_escape (of_char c) of Some e \<Rightarrow> e
   | None \<Rightarrow> if of_char c < (32 :: nat) then unicode_escape (of_char c) else [c])"

definition json_string :: "bool \<Rightarrow> string \<Rightarrow> string" where
  "json_string ascii s = [CHR 0x22] @ (if ascii then concat (map ascii_escape (code_points s))
     else concat (map plain_escape s)) @ [CHR 0x22]"

section \<open>Texts\<close>

fun commas :: "string list \<Rightarrow> string" where
  "commas [] = []"
| "commas [x] = x"
| "commas (x # y # xs) = x @ '','' @ commas (y # xs)"

fun json_text :: "bool \<Rightarrow> json \<Rightarrow> string" where
  "json_text ascii JNull = ''null''"
| "json_text ascii (JBool b) = (if b then ''true'' else ''false'')"
| "json_text ascii (JInt i) = show_int i"
| "json_text ascii (JFloat f) = json_float f"
| "json_text ascii (JStr s) = json_string ascii s"
| "json_text ascii (JList xs) = ''['' @ commas (map (json_text ascii) xs) @ '']''"
| "json_text ascii (JDict es) = CHR 0x7B # commas (map (\<lambda>(k, t). json_string ascii k @ '':'' @ t)
     (sort_key fst (map (\<lambda>(k, v). (k, json_text ascii v)) es))) @ [CHR 0x7D]"

end
