(* ===== verification/PublicSession.thy ===== *)
theory PublicSession
  imports Harness JsonText
begin

text \<open>
  The public session context (\<open>HarnessPublicSessionContext\<close> and its validators in
  \<open>contracts/harness.py\<close>): what an earlier message of a session may carry over to the actors of a
  run, within limits and without private text. Text is scanned by code points; \<open>word\<close> says which
  non-ASCII code points are alphanumeric in the Unicode database of the Python build. A casefold
  matters to the scan only where it gives ASCII letters, the nineteen code points of
  \<open>fold_table\<close>. The result: a validated context is a fixed point of validation, keeps its limits and
  carries the digest of its content.
\<close>

section \<open>Identifiers and references\<close>

definition portable_char :: "char \<Rightarrow> bool" where
  "portable_char c \<longleftrightarrow> is_lower c \<or> is_upper c \<or> is_digit c \<or> c \<in> {CHR ''_'', CHR ''.'', CHR ''-''}"

fun contains_sub :: "'a list \<Rightarrow> 'a list \<Rightarrow> bool" where
  "contains_sub p [] \<longleftrightarrow> p = []"
| "contains_sub p (x # xs) \<longleftrightarrow> take (length p) (x # xs) = p \<or> contains_sub p xs"

text \<open>The pattern \<open>[A-Za-z0-9][A-Za-z0-9_.-]{0,127}\<close>, without two dots in a row.\<close>

definition is_portable_id :: "string \<Rightarrow> bool" where
  "is_portable_id s \<longleftrightarrow> s \<noteq> [] \<and> (is_lower (hd s) \<or> is_upper (hd s) \<or> is_digit (hd s)) \<and>
     list_all portable_char (tl s) \<and> length s \<le> 128 \<and> \<not> contains_sub ''..'' s"

definition require_portable_id :: "string \<Rightarrow> string \<Rightarrow> string res" where
  "require_portable_id value field_name = bindE (require_nonempty value field_name) (\<lambda>normalized.
     if is_portable_id normalized then Inr normalized
     else Inl (ValueError (field_name @ '' must be a portable public identifier'')))"

definition safe_artifact_ref :: "string \<Rightarrow> string res" where
  "safe_artifact_ref value =
     (let normalized = backslash_to_slash (py_strip value) in
      thenE (raise_if (normalized = []) (ValueError ''artifact_ref may not be empty'')) (
      thenE (raise_if (contains_sub ''://'' normalized \<or> starts_with normalized ''/'' \<or> starts_with normalized ''.'')
        (ValueError ''artifact_ref may not traverse or reference absolute/hidden filesystem state'')) (
      thenE (raise_if (list_ex (\<lambda>part. starts_with part ''.'') (posix_parts normalized))
        (ValueError ''artifact_ref may not traverse or hide filesystem state''))
      (Inr normalized))))"

section \<open>Public text\<close>

definition points :: "string \<Rightarrow> nat list" where
  "points s = map of_char s"

definition ascii_letter :: "nat \<Rightarrow> bool" where
  "ascii_letter n \<longleftrightarrow> 65 \<le> n \<and> n \<le> 90 \<or> 97 \<le> n \<and> n \<le> 122"

definition ascii_digit :: "nat \<Rightarrow> bool" where
  "ascii_digit n \<longleftrightarrow> 48 \<le> n \<and> n \<le> 57"

definition lower_point :: "nat \<Rightarrow> nat" where
  "lower_point n = (if 65 \<le> n \<and> n \<le> 90 then n + 32 else n)"

definition fold_table :: "(nat \<times> string) list" where
  "fold_table = [(0xDF, ''ss''), (0x130, ''i''), (0x149, ''n''), (0x17F, ''s''), (0x1F0, ''j''), (0x1E96, ''h''),
     (0x1E97, ''t''), (0x1E98, ''w''), (0x1E99, ''y''), (0x1E9A, ''a''), (0x1E9E, ''ss''), (0x212A, ''k''),
     (0xFB00, ''ff''), (0xFB01, ''fi''), (0xFB02, ''fl''), (0xFB03, ''ffi''), (0xFB04, ''ffl''), (0xFB05, ''st''),
     (0xFB06, ''st'')]"

text \<open>The casefold up to its non-ASCII code points: a code point that folds to ASCII letters next to
  a combining mark keeps the mark as \<open>128\<close>, on the side where it stands.\<close>

definition fold_point :: "nat \<Rightarrow> nat list" where
  "fold_point n = (case map_of fold_table n of
     None \<Rightarrow> [lower_point n]
   | Some s \<Rightarrow> (if n = 0x149 then [128] else []) @ points s @
       (if n \<in> {0x130, 0x1F0, 0x1E96, 0x1E97, 0x1E98, 0x1E99, 0x1E9A} then [128] else []))"

definition casefolded :: "nat list \<Rightarrow> nat list" where
  "casefolded s = concat (map fold_point s)"

text \<open>\<open>re.sub("[^a-z0-9]+", "_", s).strip("_")\<close>: the words of letters and digits.\<close>

definition compact_char :: "nat \<Rightarrow> bool" where
  "compact_char n \<longleftrightarrow> 97 \<le> n \<and> n \<le> 122 \<or> ascii_digit n"

function compact_runs :: "nat list \<Rightarrow> nat list" where
  "compact_runs [] = []"
| "compact_runs (n # ns) = (if compact_char n then n # compact_runs ns
     else 95 # compact_runs (dropWhile (\<lambda>m. \<not> compact_char m) ns))"
  by pat_completeness auto

termination
  by (relation "measure length") (simp_all add: less_Suc_eq_le length_dropWhile_le)

definition compacted :: "nat list \<Rightarrow> nat list" where
  "compacted s = (let t = dropWhile (\<lambda>n. n = 95) (compact_runs s) in rev (dropWhile (\<lambda>n. n = 95) (rev t)))"

definition forbidden_fragments :: "string list" where
  "forbidden_fragments = [''api_key'', ''authorization'', ''bearer '', ''credential'', ''evaluator'', ''full_context'',
     ''hidden'', ''long_term'', ''password'', ''predictor'', ''private_key'', ''raw_patch'', ''repository_snapshot'',
     ''sealed'', ''source_uri'', ''token'', ''workspace_snapshot'']"

definition forbidden_phrases :: "string list" where
  "forbidden_phrases = [''full context'', ''pre-call context'', ''raw patch'', ''repository snapshot'', ''workspace snapshot'']"

definition regex_space :: "nat \<Rightarrow> bool" where
  "regex_space n \<longleftrightarrow> 9 \<le> n \<and> n \<le> 13 \<or> 28 \<le> n \<and> n \<le> 32 \<or> n \<in> {0x85, 0xA0, 0x1680, 0x2028, 0x2029, 0x202F, 0x205F, 0x3000} \<or>
     0x2000 \<le> n \<and> n \<le> 0x200A"

definition regex_word :: "(nat \<Rightarrow> bool) \<Rightarrow> nat \<Rightarrow> bool" where
  "regex_word word n \<longleftrightarrow> (if n < 128 then ascii_letter n \<or> ascii_digit n \<or> n = 95 else word n)"

text \<open>\<open>[A-Za-z0-9._~+/=-]\<close> ignoring case, which takes in four more code points.\<close>

definition bearer_char :: "nat \<Rightarrow> bool" where
  "bearer_char n \<longleftrightarrow> ascii_letter n \<or> ascii_digit n \<or> n \<in> set (points ''._~+/=-'') \<or> n \<in> {0x130, 0x131, 0x17F, 0x212A}"

definition bearer_at :: "nat list \<Rightarrow> bool" where
  "bearer_at s \<longleftrightarrow> map lower_point (take 6 s) = points ''bearer'' \<and> takeWhile regex_space (drop 6 s) \<noteq> [] \<and>
     16 \<le> length (takeWhile bearer_char (dropWhile regex_space (drop 6 s)))"

definition key_char :: "nat \<Rightarrow> bool" where
  "key_char n \<longleftrightarrow> ascii_letter n \<or> ascii_digit n \<or> n = 95 \<or> n = 45"

definition word_at :: "(nat \<Rightarrow> bool) \<Rightarrow> nat list \<Rightarrow> nat \<Rightarrow> bool" where
  "word_at word s i \<longleftrightarrow> i < length s \<and> regex_word word (s ! i)"

definition key_at :: "(nat \<Rightarrow> bool) \<Rightarrow> nat list \<Rightarrow> bool" where
  "key_at word s \<longleftrightarrow> take 3 s = points ''sk-'' \<and>
     list_ex (\<lambda>j. word_at word s (j - 1) \<noteq> word_at word s j)
       [15..<Suc (3 + length (takeWhile key_char (drop 3 s)))]"

text \<open>Both patterns begin with a word character after \<open>\b\<close>: the character before is no word character.\<close>

fun search_keys :: "(nat \<Rightarrow> bool) \<Rightarrow> bool \<Rightarrow> nat list \<Rightarrow> bool" where
  "search_keys word prev [] \<longleftrightarrow> False"
| "search_keys word prev (n # ns) \<longleftrightarrow> (\<not> prev \<and> (bearer_at (n # ns) \<or> key_at word (n # ns))) \<or>
     search_keys word (regex_word word n) ns"

definition private_key_headers :: "string list" where
  "private_key_headers = map (\<lambda>k. ''-----BEGIN '' @ k @ ''PRIVATE KEY-----'') [''RSA '', ''EC '', ''OPENSSH '', '''']"

definition assert_public_text :: "(nat \<Rightarrow> bool) \<Rightarrow> string \<Rightarrow> unit res" where
  "assert_public_text word value =
     (let s = code_points value; lowered = casefolded s; compact = compacted lowered in
      thenE (raise_if (search_keys word False s \<or> list_ex (\<lambda>h. contains_sub h value) private_key_headers)
        (ValueError ''summary contains resolved credential material'')) (
      thenE (raise_if (list_ex (\<lambda>f. contains_sub (points f) compact \<or> contains_sub (points f) lowered) forbidden_fragments)
        (ValueError ''summary references non-public session state'')) (
      raise_if (list_ex (\<lambda>f. contains_sub (points f) lowered) forbidden_phrases)
        (ValueError ''summary references non-public session state''))))"


section \<open>Contracts\<close>

record session_limits =
  sl_max_entries :: int
  sl_max_total_bytes :: int
  sl_max_summary_bytes :: int

definition validate_session_limits :: "session_limits \<Rightarrow> session_limits res" where
  "validate_session_limits l = validated (
     thenE (require_ge0 (sl_max_entries l) ''max_entries'') (
     thenE (raise_if (64 < sl_max_entries l) (ValueError ''max_entries less_than_equal'')) (
     thenE (require_ge0 (sl_max_total_bytes l) ''max_total_bytes'') (
     thenE (raise_if (262144 < sl_max_total_bytes l) (ValueError ''max_total_bytes less_than_equal'')) (
     thenE (require_ge0 (sl_max_summary_bytes l) ''max_summary_bytes'') (
     thenE (raise_if (16384 < sl_max_summary_bytes l) (ValueError ''max_summary_bytes less_than_equal''))
     (Inr l)))))))"

record carryover_ref =
  co_artifact_ref :: string
  co_artifact_digest :: string
  co_summary :: string
  co_digest :: string

definition carryover_fields :: "carryover_ref \<Rightarrow> (string \<times> json) list" where
  "carryover_fields c = [(''artifact_ref'', JStr (co_artifact_ref c)), (''artifact_digest'', JStr (co_artifact_digest c)),
     (''summary'', JStr (co_summary c)), (''public_safe'', JBool True)]"

definition carryover_json :: "carryover_ref \<Rightarrow> json" where
  "carryover_json c = JDict (carryover_fields c @ [(''carryover_digest'', JStr (co_digest c))])"

definition public_carryover_digest :: "sha256 \<Rightarrow> carryover_ref \<Rightarrow> string" where
  "public_carryover_digest sha c = identity_digest sha ''harness-public-carryover-ref''
     (pyval_of (JDict [(''kind'', JStr ''harness-public-carryover-ref''), (''ref'', JDict (carryover_fields c))]))"

definition bind_digest :: "string \<Rightarrow> string \<Rightarrow> string \<Rightarrow> string res" where
  "bind_digest given computed msg = thenE (raise_if (given \<noteq> [] \<and> given \<noteq> computed) (ValueError msg)) (Inr computed)"

definition validate_carryover :: "sha256 \<Rightarrow> (nat \<Rightarrow> bool) \<Rightarrow> carryover_ref \<Rightarrow> carryover_ref res" where
  "validate_carryover sha word c = validated (
     bindE (safe_artifact_ref (py_trim (co_artifact_ref c))) (\<lambda>ref.
     bindE (require_digest (py_trim (co_artifact_digest c)) ''artifact_digest'') (\<lambda>dg.
     bindE (require_nonempty (py_trim (co_summary c)) ''summary'') (\<lambda>summary.
     thenE (assert_public_text word summary) (
     let d = \<lparr>co_artifact_ref = ref, co_artifact_digest = dg, co_summary = summary, co_digest = py_trim (co_digest c)\<rparr> in
     bindE (bind_digest (co_digest d) (public_carryover_digest sha d)
       ''carryover digest does not match the public artifact reference'') (\<lambda>bound.
     Inr (d\<lparr>co_digest := bound\<rparr>)))))))"

record session_context =
  sc_session_id :: string
  sc_release_digest :: string
  sc_manifest_digest :: string
  sc_next_sequence :: int
  sc_parent_message_id :: "string option"
  sc_limits :: session_limits
  sc_carryover :: "carryover_ref list"
  sc_digest :: string

definition context_fields :: "session_context \<Rightarrow> (string \<times> json) list" where
  "context_fields c =
     [(''schema_version'', JStr ''repo-repair-public-session-context-v1''), (''session_id'', JStr (sc_session_id c)),
      (''active_release_digest'', JStr (sc_release_digest c)), (''session_manifest_digest'', JStr (sc_manifest_digest c)),
      (''next_sequence'', JInt (sc_next_sequence c)), (''parent_message_id'', jopt JStr (sc_parent_message_id c)),
      (''limits'', JDict [(''max_entries'', JInt (sl_max_entries (sc_limits c))),
        (''max_total_bytes'', JInt (sl_max_total_bytes (sc_limits c))),
        (''max_summary_bytes'', JInt (sl_max_summary_bytes (sc_limits c)))]),
      (''carryover'', JList (map carryover_json (sc_carryover c)))]"

definition no_session_digest :: "sha256 \<Rightarrow> string" where
  "no_session_digest sha = identity_digest sha ''harness-public-session-context''
     (pyval_of (JDict [(''kind'', JStr ''no-public-session-context'')]))"

definition public_session_context_digest :: "sha256 \<Rightarrow> session_context option \<Rightarrow> string" where
  "public_session_context_digest sha c = (case c of None \<Rightarrow> no_session_digest sha
   | Some s \<Rightarrow> identity_digest sha ''harness-public-session-context''
       (pyval_of (JDict [(''kind'', JStr ''harness-public-session-context''), (''context'', JDict (context_fields s))])))"

definition session_bytes :: "json \<Rightarrow> string" where
  "session_bytes v = json_text False v @ [CHR 0x0A]"

definition carryover_total :: "session_context \<Rightarrow> int" where
  "carryover_total c = sum_list (map (\<lambda>e. int (length (session_bytes (carryover_json e)))) (sc_carryover c))"

definition check_context :: "session_context \<Rightarrow> unit res" where
  "check_context c =
     thenE (raise_if (sl_max_entries (sc_limits c) < int (length (sc_carryover c)))
       (ValueError ''public session carryover exceeds the configured entry limit'')) (
     thenE (raise_if (\<not> distinct (map co_artifact_ref (sc_carryover c)))
       (ValueError ''public session carryover artifact_refs must be unique'')) (
     thenE (forE (\<lambda>e. raise_if (sl_max_summary_bytes (sc_limits c) < int (length (co_summary e)))
       (ValueError ''public session carryover summary exceeds the configured summary byte limit'')) (sc_carryover c)) (
     raise_if (sl_max_total_bytes (sc_limits c) < carryover_total c)
       (ValueError ''public session carryover exceeds the configured total byte limit''))))"

definition validate_session_context :: "sha256 \<Rightarrow> (nat \<Rightarrow> bool) \<Rightarrow> session_context \<Rightarrow> session_context res" where
  "validate_session_context sha word c = validated (
     bindE (require_portable_id (py_trim (sc_session_id c)) ''session_id'') (\<lambda>sid.
     bindE (require_digest (py_trim (sc_release_digest c)) ''active_release_digest'') (\<lambda>release.
     bindE (require_digest (py_trim (sc_manifest_digest c)) ''session_manifest_digest'') (\<lambda>manifest.
     thenE (require_ge0 (sc_next_sequence c) ''next_sequence'') (
     bindE (optE (\<lambda>p. require_portable_id (py_trim p) ''parent_message_id'') (sc_parent_message_id c)) (\<lambda>parent.
     bindE (validate_session_limits (sc_limits c)) (\<lambda>limits.
     bindE (mapE (validate_carryover sha word) (sc_carryover c)) (\<lambda>entries.
     let d = \<lparr>sc_session_id = sid, sc_release_digest = release, sc_manifest_digest = manifest,
       sc_next_sequence = sc_next_sequence c, sc_parent_message_id = parent, sc_limits = limits,
       sc_carryover = entries, sc_digest = py_trim (sc_digest c)\<rparr> in
     thenE (check_context d) (
     bindE (bind_digest (sc_digest d) (public_session_context_digest sha (Some d))
       ''public session context digest mismatch'') (\<lambda>bound.
     Inr (d\<lparr>sc_digest := bound\<rparr>)))))))))))"

definition actor_visible_value :: "session_context \<Rightarrow> json" where
  "actor_visible_value c = JDict
     [(''session_id'', JStr (sc_session_id c)), (''parent_message_id'', jopt JStr (sc_parent_message_id c)),
      (''next_sequence'', JInt (sc_next_sequence c)), (''carryover'', JList (map carryover_json (sc_carryover c))),
      (''carryover_count'', JInt (int (length (sc_carryover c)))), (''context_digest'', JStr (sc_digest c))]"


section \<open>A validated context\<close>

lemma portable_no_space:
  assumes "is_portable_id s"
  shows "py_strip s = s" and "py_trim s = s"
proof -
  have "\<forall>c\<in>set s. portable_char c"
    using assms by (cases s) (auto simp: is_portable_id_def portable_char_def list_all_iff)
  moreover have "portable_char c \<Longrightarrow> \<not> is_py_space c \<and> \<not> is_trim_space c" for c
    by (auto simp: portable_char_def is_lower_def is_upper_def is_digit_def is_py_space_def is_trim_space_def Let_def)
  ultimately show "py_strip s = s" "py_trim s = s" by (auto intro!: strip_with_id)
qed

lemma require_portable_Inr [res_simps]:
  "require_portable_id v n = Inr s \<longleftrightarrow> s = py_strip v \<and> is_portable_id s"
  by (auto simp: require_portable_id_def require_nonempty_Inr bindE_Inr is_portable_id_def)

lemma strip_with_fix: "\<not> p (hd t) \<Longrightarrow> \<not> p (last t) \<Longrightarrow> strip_with p t = t"
proof -
  assume "\<not> p (hd t)" "\<not> p (last t)"
  then have "dropWhile p t = t" "dropWhile p (rev t) = rev t" by (auto simp: dropWhile_eq_self_iff hd_rev)
  then show ?thesis by (simp add: strip_with_def)
qed

lemma backslash_strip: "py_strip (backslash_to_slash (py_strip v)) = backslash_to_slash (py_strip v)"
proof (cases "py_strip v = []")
  case False
  let ?t = "backslash_to_slash (py_strip v)"
  have c: "\<not> is_py_space (if (of_char c :: nat) = 92 then CHR ''/'' else c)" if "\<not> is_py_space c" for c
    using that by (simp add: is_py_space_def)
  have "\<not> is_py_space (hd ?t)" "\<not> is_py_space (last ?t)"
    using strip_with_ends [OF False] False c by (simp_all add: backslash_to_slash_def hd_map last_map)
  then show ?thesis by (intro strip_with_fix)
next
  case True
  show ?thesis unfolding True by (simp add: backslash_to_slash_def strip_with_def)
qed

lemma safe_artifact_ref_Inr:
  "safe_artifact_ref v = Inr r \<Longrightarrow> safe_artifact_ref r = Inr r \<and> py_strip r = r \<and> py_trim r = r"
proof -
  assume r: "safe_artifact_ref v = Inr r"
  then have eq: "r = backslash_to_slash (py_strip v)" by (auto simp: safe_artifact_ref_def Let_def res_simps)
  then have s: "py_strip r = r" using backslash_strip by simp
  have "backslash_to_slash r = r" unfolding eq by (simp add: backslash_to_slash_def)
  with r s eq show "safe_artifact_ref r = Inr r \<and> py_strip r = r \<and> py_trim r = r"
    by (auto simp: safe_artifact_ref_def Let_def res_simps) (metis py_trim_strip)
qed

lemma bind_digest_Inr [res_simps]: "bind_digest g c m = Inr d \<longleftrightarrow> (g = [] \<or> g = c) \<and> d = c"
  by (auto simp: bind_digest_def res_simps)

lemma public_digests [simp]: "is_digest (public_carryover_digest sha c)" "is_digest (public_session_context_digest sha x)"
  by (simp_all add: public_carryover_digest_def public_session_context_digest_def no_session_digest_def split: option.split)

lemma public_carryover_digest_update [simp]:
  "public_carryover_digest sha (c\<lparr>co_digest := x\<rparr>) = public_carryover_digest sha c"
  by (simp add: public_carryover_digest_def carryover_fields_def)

lemma context_fields_update [simp]: "context_fields (c\<lparr>sc_digest := x\<rparr>) = context_fields c"
  by (simp add: context_fields_def)

lemma validate_carryover_fixpoint:
  assumes "validate_carryover sha word c = Inr d"
  shows "validate_carryover sha word d = Inr d" and "assert_public_text word (co_summary d) = Inr ()"
    and "co_digest d = public_carryover_digest sha d"
proof -
  obtain ref dg summary where
    ref: "safe_artifact_ref (py_trim (co_artifact_ref c)) = Inr ref"
    and dg: "is_digest dg" and summary: "py_strip summary = summary" "summary \<noteq> []" "assert_public_text word summary = Inr ()"
    and d: "d = \<lparr>co_artifact_ref = ref, co_artifact_digest = dg, co_summary = summary,
      co_digest = public_carryover_digest sha \<lparr>co_artifact_ref = ref, co_artifact_digest = dg, co_summary = summary, co_digest = py_trim (co_digest c)\<rparr>\<rparr>"
    using assms by (auto simp: validate_carryover_def res_simps Let_def)
  note r = safe_artifact_ref_Inr [OF ref]
  have e: "public_carryover_digest sha d =
      public_carryover_digest sha \<lparr>co_artifact_ref = ref, co_artifact_digest = dg, co_summary = summary, co_digest = py_trim (co_digest c)\<rparr>"
    by (simp add: d public_carryover_digest_def carryover_fields_def)
  then show dgst: "co_digest d = public_carryover_digest sha d" by (simp add: d)
  show "assert_public_text word (co_summary d) = Inr ()" using summary by (simp add: d)
  have tr: "py_trim summary = summary" using summary(1) py_trim_strip by metis
  show "validate_carryover sha word d = Inr d"
    unfolding validate_carryover_def
    using r dg summary tr is_digest_stable [OF dg] is_digest_stable(2) [OF public_digests(1) [of sha d]] dgst e
    by (simp add: res_simps d Let_def)
qed


lemma validated_context_parts:
  assumes "validate_session_context sha word c = Inr d"
  shows "is_portable_id (sc_session_id d)" and "is_digest (sc_release_digest d)" and "is_digest (sc_manifest_digest d)"
    and "0 \<le> sc_next_sequence d" and "pred_option is_portable_id (sc_parent_message_id d)"
    and "validate_session_limits (sc_limits d) = Inr (sc_limits d)"
    and "\<And>e. e \<in> set (sc_carryover d) \<Longrightarrow> validate_carryover sha word e = Inr e"
    and "check_context d = Inr ()" and "sc_digest d = public_session_context_digest sha (Some d)"
proof -
  have limits: "validate_session_limits l = Inr m \<Longrightarrow> validate_session_limits m = Inr m" for l m
    by (auto simp: validate_session_limits_def res_simps)
  have cc: "check_context (x\<lparr>sc_digest := y\<rparr>) = check_context x" for x y
    by (simp add: check_context_def carryover_total_def)
  have dg: "public_session_context_digest sha (Some (x\<lparr>sc_digest := y\<rparr>)) = public_session_context_digest sha (Some x)" for x y
    by (simp add: public_session_context_digest_def)
  obtain entries sid release manifest parent lim where fields: "is_portable_id sid" "is_digest release" "is_digest manifest"
      "0 \<le> sc_next_sequence c" "optE (\<lambda>p. require_portable_id (py_trim p) ''parent_message_id'') (sc_parent_message_id c) = Inr parent"
      "validate_session_limits (sc_limits c) = Inr lim" "mapE (validate_carryover sha word) (sc_carryover c) = Inr entries"
    and rest: "check_context \<lparr>sc_session_id = sid, sc_release_digest = release, sc_manifest_digest = manifest,
       sc_next_sequence = sc_next_sequence c, sc_parent_message_id = parent, sc_limits = lim,
       sc_carryover = entries, sc_digest = py_trim (sc_digest c)\<rparr> = Inr ()"
      "d = (let x = \<lparr>sc_session_id = sid, sc_release_digest = release, sc_manifest_digest = manifest,
       sc_next_sequence = sc_next_sequence c, sc_parent_message_id = parent, sc_limits = lim,
       sc_carryover = entries, sc_digest = py_trim (sc_digest c)\<rparr> in x\<lparr>sc_digest := public_session_context_digest sha (Some x)\<rparr>)"
    using assms by (auto simp only: validate_session_context_def Let_def bindE_Inr thenE_Inr validated_Inr
        require_portable_Inr require_digest_Inr bind_digest_Inr require_ge0_def raise_if_Inr not_less)
  define x where "x = \<lparr>sc_session_id = sid, sc_release_digest = release, sc_manifest_digest = manifest,
       sc_next_sequence = sc_next_sequence c, sc_parent_message_id = parent, sc_limits = lim,
       sc_carryover = entries, sc_digest = py_trim (sc_digest c)\<rparr>"
  have entries: "mapE (validate_carryover sha word) (sc_carryover c) = Inr entries" by fact
  have x: "sc_carryover x = entries" "check_context x = Inr ()" "is_portable_id (sc_session_id x)"
      "is_digest (sc_release_digest x)" "is_digest (sc_manifest_digest x)" "0 \<le> sc_next_sequence x"
      "optE (\<lambda>p. require_portable_id (py_trim p) ''parent_message_id'') (sc_parent_message_id c) = Inr (sc_parent_message_id x)"
      "validate_session_limits (sc_limits c) = Inr (sc_limits x)"
    and d: "d = x\<lparr>sc_digest := public_session_context_digest sha (Some x)\<rparr>"
    using fields rest by (simp_all add: x_def Let_def)
  show "is_portable_id (sc_session_id d)" "is_digest (sc_release_digest d)" "is_digest (sc_manifest_digest d)"
    "0 \<le> sc_next_sequence d" using x d by simp_all
  show "pred_option is_portable_id (sc_parent_message_id d)"
    using x(7) d by (cases "sc_parent_message_id c"; cases "sc_parent_message_id x") (auto simp: res_simps)
  show "validate_session_limits (sc_limits d) = Inr (sc_limits d)" using limits [OF x(8)] d by simp
  show "validate_carryover sha word e = Inr e" if "e \<in> set (sc_carryover d)" for e
    using mapE_all [OF entries, of "\<lambda>e. validate_carryover sha word e = Inr e"] validate_carryover_fixpoint(1) that x(1) d by auto
  show "check_context d = Inr ()" using x(2) d cc by simp
  show "sc_digest d = public_session_context_digest sha (Some d)" using d dg by simp
qed

text \<open>C36: a validated public session context is a fixed point of validation, so the runtime sees what
  the service checked, and its digest is that of its content. Its entries are at most
  \<open>max_entries\<close>, for distinct artifacts, within the summary and total byte limits, and their
  summaries pass the text scan.\<close>

theorem session_context_bound:
  assumes "validate_session_context sha word c = Inr d"
  shows "validate_session_context sha word d = Inr d \<and> sc_digest d = public_session_context_digest sha (Some d) \<and>
    int (length (sc_carryover d)) \<le> sl_max_entries (sc_limits d) \<and> sl_max_entries (sc_limits d) \<le> 64 \<and>
    distinct (map co_artifact_ref (sc_carryover d)) \<and> carryover_total d \<le> sl_max_total_bytes (sc_limits d) \<and>
    list_all (\<lambda>e. int (length (co_summary e)) \<le> sl_max_summary_bytes (sc_limits d) \<and>
      assert_public_text word (co_summary e) = Inr ()) (sc_carryover d)"
proof -
  note d = validated_context_parts [OF assms]
  have entries: "mapE (validate_carryover sha word) (sc_carryover d) = Inr (sc_carryover d)"
    using d(7) by (simp add: mapE_fixpoint)
  have parent: "optE (\<lambda>p. require_portable_id (py_trim p) ''parent_message_id'') (sc_parent_message_id d) = Inr (sc_parent_message_id d)"
    using d(5) by (cases "sc_parent_message_id d") (simp_all add: res_simps portable_no_space)
  have self: "\<lparr>sc_session_id = sc_session_id d, sc_release_digest = sc_release_digest d,
      sc_manifest_digest = sc_manifest_digest d, sc_next_sequence = sc_next_sequence d,
      sc_parent_message_id = sc_parent_message_id d, sc_limits = sc_limits d, sc_carryover = sc_carryover d,
      sc_digest = public_session_context_digest sha (Some d)\<rparr> = d"
    using d(9) by simp
  have same: "\<lparr>sc_session_id = sc_session_id d, sc_release_digest = sc_release_digest d,
      sc_manifest_digest = sc_manifest_digest d, sc_next_sequence = sc_next_sequence d,
      sc_parent_message_id = sc_parent_message_id d, sc_limits = sc_limits d, sc_carryover = sc_carryover d,
      sc_digest = sc_digest d\<rparr> = d" by simp
  have trim: "py_trim (sc_digest d) = sc_digest d" using is_digest_stable(2) [OF public_digests(2)] d(9) by simp

  have 1: "require_portable_id (py_trim (sc_session_id d)) n = Inr (sc_session_id d)"
    "require_digest (py_trim (sc_release_digest d)) n = Inr (sc_release_digest d)"
    "require_digest (py_trim (sc_manifest_digest d)) n = Inr (sc_manifest_digest d)"
    "require_ge0 (sc_next_sequence d) n = Inr ()" for n
    using d(1-4) portable_no_space [OF d(1)] is_digest_stable [OF d(2)] is_digest_stable [OF d(3)]
    by (simp_all add: require_portable_Inr require_digest_Inr require_ge0_def)
  have 2: "bind_digest (sc_digest d) (public_session_context_digest sha (Some d)) n =
      Inr (public_session_context_digest sha (Some d))" for n
    using d(9) by (simp add: bind_digest_Inr)
  have "validate_session_context sha word d = Inr d"
    unfolding validate_session_context_def trim by (simp add: 1 2 parent entries d(6,8) self same Let_def)
  moreover have "assert_public_text word (co_summary e) = Inr ()" if "e \<in> set (sc_carryover d)" for e
    using validate_carryover_fixpoint(2) [OF d(7) [OF that]] .
  moreover have "sl_max_entries (sc_limits d) \<le> 64" using d(6) by (auto simp: validate_session_limits_def res_simps)
  ultimately show ?thesis
    using d(8,9) by (auto simp: check_context_def res_simps list_all_iff)
qed


definition sample_carryover :: carryover_ref where
  "sample_carryover = \<lparr>co_artifact_ref = ''out/report.md'', co_artifact_digest = sample_digest,
     co_summary = ''ok'', co_digest = []\<rparr>"

definition sample_session :: session_context where
  "sample_session = \<lparr>sc_session_id = '' s1'', sc_release_digest = sample_digest, sc_manifest_digest = sample_digest,
     sc_next_sequence = 2, sc_parent_message_id = Some ''m1'',
     sc_limits = \<lparr>sl_max_entries = 8, sl_max_total_bytes = 4096, sl_max_summary_bytes = 512\<rparr>,
     sc_carryover = [sample_carryover], sc_digest = []\<rparr>"

lemma zero_public_digests [simp]:
  "public_carryover_digest zero_sha c = replicate 64 (CHR ''0'')"
  "public_session_context_digest zero_sha x = replicate 64 (CHR ''0'')"
  by (simp_all add: public_carryover_digest_def public_session_context_digest_def no_session_digest_def split: option.split)

theorem session_context_bound_witness:
  "\<exists>d. validate_session_context zero_sha (\<lambda>_. False) sample_session = Inr d \<and> sc_session_id d = ''s1'' \<and>
     validate_session_context zero_sha (\<lambda>_. False) d = Inr d"
proof -
  have dg: "require_digest (py_trim sample_digest) n = Inr sample_digest" for n
    using sample_digest_valid is_digest_stable [of sample_digest] by (simp add: require_digest_Inr)
  let ?z = "replicate 64 (CHR ''0'')"
  let ?e = "sample_carryover\<lparr>co_digest := ?z\<rparr>"
  have parts: "safe_artifact_ref (py_trim ''out/report.md'') = Inr ''out/report.md''"
    "require_nonempty (py_trim ''ok'') ''summary'' = Inr ''ok''"
    "py_trim [] = []" by code_simp+
  have scan: "assert_public_text (\<lambda>_. False) ''ok'' = Inr ()"
    by (simp add: assert_public_text_def points_def casefolded_def fold_point_def fold_table_def lower_point_def
        compacted_def compact_char_def ascii_digit_def forbidden_fragments_def forbidden_phrases_def
        private_key_headers_def bearer_at_def key_at_def Let_def)
  have entry: "validate_carryover zero_sha (\<lambda>_. False) sample_carryover = Inr ?e"
    by (simp add: validate_carryover_def sample_carryover_def parts scan dg bind_digest_def Let_def)
  have ids: "require_portable_id (py_trim '' s1'') ''session_id'' = Inr ''s1''"
    "require_portable_id (py_trim ''m1'') ''parent_message_id'' = Inr ''m1''" by code_simp+
  let ?d = "sample_session\<lparr>sc_session_id := ''s1'', sc_carryover := [?e]\<rparr>"
  have "check_context ?d = Inr ()" by code_simp
  then have "validate_session_context zero_sha (\<lambda>_. False) sample_session = Inr (?d\<lparr>sc_digest := ?z\<rparr>)"
    by (simp add: validate_session_context_def sample_session_def parts dg ids entry bind_digest_def require_ge0_def
        validate_session_limits_def Let_def)
  then show ?thesis using session_context_bound by fastforce
qed

end
