(* ===== verification/RuntimePlan.thy ===== *)
theory RuntimePlan
  imports Compiler PublicSession
begin

text \<open>
  What the composite runtime checks before it runs a plan (\<open>CompositeRuntime.__init__\<close> and
  \<open>_validate_inputs\<close> of \<open>runtime/kernel/composite_runtime.py\<close>): the plan belongs to the task and
  the scratch workspace, its stages can be executed in order, exactly the termination call emits
  the patch, and the artifact reads of the calls are the deliveries. The result: a compiled plan
  passes on its own task exactly when no verification argument has blanks at its ends, because
  the compiler trims them and the runtime compares with the task.
\<close>

definition runtime_error :: "string \<Rightarrow> string \<Rightarrow> 'a res" where
  "runtime_error kind msg = Inl (CompositeRuntimeError kind msg)"

definition reject_if :: "bool \<Rightarrow> string \<Rightarrow> string \<Rightarrow> unit res" where
  "reject_if b kind msg = raise_if b (CompositeRuntimeError kind msg)"

lemma reject_if_Inr [res_simps]: "reject_if b kind msg = Inr u \<longleftrightarrow> \<not> b"
  by (simp add: reject_if_def res_simps)

lemma reject_if_simps [simp]: "reject_if False kind msg = Inr ()" "reject_if True kind msg = Inl (CompositeRuntimeError kind msg)"
  by (simp_all add: reject_if_def)

section \<open>Bindings\<close>

record scratch_binding =
  sb_workspace_id :: string
  sb_workspace_digest :: string

definition validate_scratch_binding :: "scratch_binding \<Rightarrow> scratch_binding res" where
  "validate_scratch_binding b = validated (
     thenE (raise_if (sb_workspace_id b = []) (ValueError ''workspace_id min_length'')) (
     let i = py_strip (sb_workspace_id b); d = py_lower (py_strip (sb_workspace_digest b)) in
     thenE (raise_if (i = []) (ValueError ''workspace_id may not be empty'')) (
     thenE (raise_if (\<not> is_digest d) (ValueError ''workspace_digest must be a lowercase SHA-256 digest''))
     (Inr \<lparr>sb_workspace_id = i, sb_workspace_digest = d\<rparr>))))"

section \<open>Stages\<close>

text \<open>The dict \<open>_calls\<close>: the last call with an id wins.\<close>

definition find_call :: "run_plan \<Rightarrow> string \<Rightarrow> actor_call option" where
  "find_call plan i = find (\<lambda>c. call_id c = i) (rev (actor_calls plan))"

fun check_staged_calls :: "run_plan \<Rightarrow> string list \<Rightarrow> string list \<Rightarrow> string list res" where
  "check_staged_calls plan staged [] = Inr staged"
| "check_staged_calls plan staged (i # is) =
     thenE (reject_if (find_call plan i = None) ''unknown_staged_call'' ''stage references unknown call'') (
     thenE (reject_if (i \<in> set staged) ''call_scheduled_twice'' ''call is scheduled more than once'')
     (check_staged_calls plan (staged @ [i]) is))"

fun check_stages :: "run_plan \<Rightarrow> nat \<Rightarrow> string list \<Rightarrow> string list \<Rightarrow> plan_stage list \<Rightarrow> unit res" where
  "check_stages plan n completed staged [] = Inr ()"
| "check_stages plan n completed staged (s # ss) =
     thenE (reject_if (stage_index s \<noteq> n) ''stage_order_invalid''
       ''CompositeRunPlan stages must have contiguous deterministic indices'') (
     thenE (reject_if (\<not> subset_list (depends_on_stage_ids s) completed) ''stage_dependency_invalid''
       ''stage depends on an unexecuted stage'') (
     bindE (check_staged_calls plan staged (stage_call_ids s)) (\<lambda>staged.
     check_stages plan (Suc n) (completed @ [stage_id s]) staged ss)))"

text \<open>The dict \<open>{call_id: stage_index}\<close>: the last stage that lists a call wins.\<close>

definition call_position :: "run_plan \<Rightarrow> string \<Rightarrow> nat res" where
  "call_position plan i = (case find (\<lambda>s. i \<in> set (stage_call_ids s)) (rev (stages plan)) of
     None \<Rightarrow> Inl (KeyError i) | Some s \<Rightarrow> Inr (stage_index s))"

section \<open>Context reads\<close>

fun find_retained :: "run_plan \<Rightarrow> string \<Rightarrow> actor_call \<Rightarrow> artifact_delivery list \<Rightarrow> string option res" where
  "find_retained plan artifact c [] = Inr None"
| "find_retained plan artifact c (d # ds) =
     (case find_call plan (ad_consumer_call_id d) of
        Some prior \<Rightarrow>
          if ad_artifact_id d = artifact \<and> call_actor_id prior = call_actor_id c then
            bindE (call_position plan (call_id prior)) (\<lambda>p.
            bindE (call_position plan (call_id c)) (\<lambda>q.
            if p < q then Inr (Some (call_id prior)) else find_retained plan artifact c ds))
          else find_retained plan artifact c ds
      | None \<Rightarrow> find_retained plan artifact c ds)"

definition retained_artifact_source :: "run_plan \<Rightarrow> string \<Rightarrow> actor_call \<Rightarrow> string option res" where
  "retained_artifact_source plan artifact c =
     (if call_kind c \<noteq> RevisionCall then Inr None
      else find_retained plan artifact c (artifact_deliveries plan))"

definition delivery_keys :: "run_plan \<Rightarrow> (string \<times> string) list" where
  "delivery_keys plan = map (\<lambda>d. (ad_artifact_id d, ad_consumer_call_id d)) (artifact_deliveries plan)"

text \<open>A read may add a key to \<open>read_keys\<close>.\<close>

definition check_read :: "run_plan \<Rightarrow> actor_call \<Rightarrow> context_read \<Rightarrow> (string \<times> string) list res" where
  "check_read plan c r =
     (let ref = source_ref r; key = (ref, call_id c) in
      case source_kind r of
        SourceTask \<Rightarrow> thenE (reject_if (ref \<notin> {''issue'', ''public_reproduction''})
          ''undeclared_task_read'' ''unsupported public task read'') (Inr [])
      | SourceWorkspace \<Rightarrow> thenE (reject_if (ref \<noteq> ''scratch_workspace'')
          ''undeclared_workspace_read'' ''unsupported workspace read'') (Inr [])
      | SourceSession \<Rightarrow> thenE (reject_if (ref \<noteq> ''public_carryover'')
          ''undeclared_session_read'' ''unsupported public session read'') (Inr [])
      | SourceArtifact \<Rightarrow>
          if key \<in> set (delivery_keys plan) then Inr [key]
          else bindE (retained_artifact_source plan ref c) (\<lambda>source.
            thenE (reject_if (source = None \<or> source = Some []) ''undelivered_artifact_read''
              ''artifact is not delivered to call'') (Inr []))
      | SourcePriorOutput \<Rightarrow>
          (case find_call plan ref of
             None \<Rightarrow> runtime_error ''unknown_prior_output'' ''prior output call does not exist''
           | Some s \<Rightarrow>
               bindE (call_position plan (call_id s)) (\<lambda>p.
               bindE (call_position plan (call_id c)) (\<lambda>q.
               thenE (reject_if (q \<le> p) ''future_prior_output''
                 ''prior actor output must come from an earlier stage'') (Inr [])))))"

definition check_call_reads :: "run_plan \<Rightarrow> actor_call \<Rightarrow> (string \<times> string) list res" where
  "check_call_reads plan c =
     thenE (reject_if (\<not> distinct (map read_id (context_reads c))) ''duplicate_context_read''
       ''call has duplicate read ids'')
     (bindE (mapE (check_read plan c) (context_reads c)) (\<lambda>ks. Inr (concat ks)))"

definition declares_session :: "run_plan \<Rightarrow> bool" where
  "declares_session plan \<longleftrightarrow>
     list_ex (\<lambda>c. list_ex (\<lambda>r. source_kind r = SourceSession) (context_reads c)) (actor_calls plan)"

section \<open>The inputs of a run\<close>

text \<open>\<open>==\<close> of two ceilings compares the costs as floats.\<close>

definition same_ceilings :: "task_ceilings \<Rightarrow> task_ceilings \<Rightarrow> bool" where
  "same_ceilings a b \<longleftrightarrow>
     a\<lparr>max_known_cost_usd := float_zero, max_estimated_cost_usd := float_zero\<rparr> =
     b\<lparr>max_known_cost_usd := float_zero, max_estimated_cost_usd := float_zero\<rparr> \<and>
     float_le (max_known_cost_usd a) (max_known_cost_usd b) \<and>
     float_le (max_known_cost_usd b) (max_known_cost_usd a) \<and>
     float_le (max_estimated_cost_usd a) (max_estimated_cost_usd b) \<and>
     float_le (max_estimated_cost_usd b) (max_estimated_cost_usd a)"

definition expected_verification :: "task_envelope \<Rightarrow> verification_action list" where
  "expected_verification t = map (\<lambda>s. \<lparr>va_step_id = step_id s, va_argv = step_argv s, va_cwd = step_cwd s,
     va_timeout_ms = step_timeout_ms s, va_exit_codes = expected_exit_codes s\<rparr>) (public_reproduction t)"

definition validate_inputs :: "run_plan \<Rightarrow> task_envelope \<Rightarrow> scratch_binding \<Rightarrow> session_context option \<Rightarrow> unit res" where
  "validate_inputs plan t scratch session =
     thenE (reject_if (task_envelope_dg plan \<noteq> task_manifest_digest t) ''task_identity_mismatch''
       ''CompositeRunPlan is bound to another TaskEnvelope'') (
     thenE (reject_if (\<not> same_ceilings (aggregate_ceiling (budget_ledger plan)) (ceilings t))
       ''ceiling_mismatch'' ''compiled aggregate ceiling does not match the public task'') (
     thenE (reject_if (sb_workspace_digest scratch \<noteq> snapshot_digest (workspace_snapshot t))
       ''scratch_identity_mismatch''
       ''scratch workspace digest does not match the immutable public snapshot digest'') (
     thenE (reject_if (scheduled_model_calls (budget_ledger plan) \<noteq> length (actor_calls plan))
       ''scheduled_call_mismatch'' ''budget ledger scheduled_model_calls does not match actor calls'') (
     thenE (reject_if (\<not> distinct (map stage_id (stages plan))) ''duplicate_stage_id''
       ''CompositeRunPlan stage ids must be unique'') (
     thenE (check_stages plan 0 [] [] (stages plan)) (
     thenE (reject_if (map call_id (filter emits_final_patch (actor_calls plan)) \<noteq>
         [final_actor_call_id (plan_termination plan)])
       ''termination_invalid'' ''exactly the termination call must emit the final patch'') (
     thenE (reject_if (tp_max_patch_bytes (plan_termination plan) \<noteq> max_patch_bytes (ceilings t))
       ''patch_ceiling_mismatch'' ''termination patch ceiling does not match the public task'') (
     thenE (reject_if (pv_actions (public_verification plan) \<noteq> expected_verification t)
       ''public_verification_mismatch'' ''compiled public verification differs from the TaskEnvelope'') (
     thenE (forE (\<lambda>c. reject_if (\<not> subset_list (call_tool_ids c) (allowed_capabilities t))
       ''task_denied_tool'' ''call references a task-denied tool'') (actor_calls plan)) (
     bindE (mapE (check_call_reads plan) (actor_calls plan)) (\<lambda>keys.
     thenE (reject_if (set (concat keys) \<noteq> set (delivery_keys plan)) ''inert_artifact_delivery''
       ''every artifact delivery must have exactly one declared consumer read'')
     (reject_if (session \<noteq> None \<and> \<not> declares_session plan) ''undeclared_session_context''
       ''public session context was supplied but no actor declared a session read''))))))))))))"

section \<open>The checks of a compiled plan\<close>

lemma find_call_iff:
  assumes "distinct (map call_id (actor_calls plan))"
  shows "find_call plan i = Some c \<longleftrightarrow> c \<in> set (actor_calls plan) \<and> call_id c = i"
proof
  assume "find_call plan i = Some c"
  from find_key_Some [OF this [unfolded find_call_def]] show "c \<in> set (actor_calls plan) \<and> call_id c = i" by simp
next
  assume c: "c \<in> set (actor_calls plan) \<and> call_id c = i"
  have "distinct (map call_id (rev (actor_calls plan)))" using assms by (simp add: rev_map [symmetric])
  from find_Some_unique [OF this, of c] c show "find_call plan i = Some c" by (simp add: find_call_def)
qed

lemma check_staged_calls_Inr:
  "check_staged_calls plan staged is = Inr t \<longleftrightarrow>
     (\<forall>i\<in>set is. find_call plan i \<noteq> None) \<and> distinct is \<and> set is \<inter> set staged = {} \<and> t = staged @ is"
  by (induction "is" arbitrary: staged) (auto simp: res_simps)

lemma check_stages_Inr:
  "check_stages plan n completed staged ss = Inr () \<longleftrightarrow>
     (\<forall>k<length ss. stage_index (ss ! k) = n + k \<and>
        set (depends_on_stage_ids (ss ! k)) \<subseteq> set completed \<union> stage_id ` set (take k ss)) \<and>
     (\<forall>s\<in>set ss. \<forall>i\<in>set (stage_call_ids s). find_call plan i \<noteq> None) \<and>
     distinct (concat (map stage_call_ids ss)) \<and> set (concat (map stage_call_ids ss)) \<inter> set staged = {}"
proof (induction ss arbitrary: n completed staged)
  case (Cons s ss)
  have k: "(\<forall>k<length (s # ss). P k) \<longleftrightarrow> P 0 \<and> (\<forall>k<length ss. P (Suc k))" for P
    by (simp add: All_less_Suc2)
  have "(\<forall>k<length ss. stage_index (ss ! k) = Suc n + k \<and>
        set (depends_on_stage_ids (ss ! k)) \<subseteq> set (completed @ [stage_id s]) \<union> stage_id ` set (take k ss)) \<longleftrightarrow>
     (\<forall>k<length ss. stage_index ((s # ss) ! Suc k) = n + Suc k \<and>
        set (depends_on_stage_ids ((s # ss) ! Suc k)) \<subseteq> set completed \<union> stage_id ` set (take (Suc k) (s # ss)))"
    by simp
  then show ?case
    unfolding check_stages.simps k
    by (simp add: thenE_Inr bindE_Inr reject_if_Inr check_staged_calls_Inr Cons.IH) auto
qed simp


text \<open>Where a list of disjoint lists holds an element.\<close>

lemma distinct_concat_nth:
  assumes "distinct (concat xss)" and "j < length xss" and "k < length xss"
    and "x \<in> set (xss ! j)" and "x \<in> set (xss ! k)"
  shows "j = k"
  using assms
proof (induction xss arbitrary: j k)
  case (Cons xs xss)
  have tl: "x \<in> set (concat xss)" if "x \<in> set (xss ! i)" "i < length xss" for i using that by auto
  show ?case using Cons tl by (cases j; cases k) auto
qed simp

lemma first_holder:
  assumes "distinct (concat xss)" and "k < length xss" and "x \<in> set (xss ! k)"
  shows "length (takeWhile (\<lambda>l. x \<notin> set l) xss) = k"
proof -
  let ?n = "length (takeWhile (\<lambda>l. x \<notin> set l) xss)"
  have "?n \<noteq> length xss"
    using assms(2,3) takeWhile_eq_all_conv [of "\<lambda>l. x \<notin> set l" xss] takeWhile_eq_take [of "\<lambda>l. x \<notin> set l" xss] by force
  then have less: "?n < length xss" using length_takeWhile_le [of "\<lambda>l. x \<notin> set l" xss] by simp
  have "x \<in> set (xss ! ?n)" using nth_length_takeWhile [OF less] by simp
  from distinct_concat_nth [OF assms(1) less assms(2) this assms(3)] show ?thesis .
qed

lemma find_Some_set: "find P xs = Some x \<Longrightarrow> x \<in> set xs \<and> P x"
  by (auto simp: find_Some_iff in_set_conv_nth)

lemma call_position_eq:
  assumes index: "\<forall>k<length (stages plan). stage_index (stages plan ! k) = k"
    and disjoint: "distinct (concat (map stage_call_ids (stages plan)))"
    and staged: "i \<in> set (concat (map stage_call_ids (stages plan)))"
  shows "call_position plan i = Inr (call_stage (stages plan) i)"
proof -
  obtain s where s: "find (\<lambda>s. i \<in> set (stage_call_ids s)) (rev (stages plan)) = Some s"
    using staged by (cases "find (\<lambda>s. i \<in> set (stage_call_ids s)) (rev (stages plan))") (auto simp: find_None_iff)
  from find_Some_set [OF this] obtain k where k: "k < length (stages plan)" "s = stages plan ! k" "i \<in> set (stage_call_ids (stages plan ! k))"
    by (auto simp: in_set_conv_nth)
  have "call_stage (stages plan) i = k"
    unfolding call_stage_def by (rule first_holder [OF disjoint]) (use k in simp_all)
  then show ?thesis using s k index by (simp add: call_position_def)
qed

lemma stage_name_inject [simp]: "stage_name i = stage_name j \<longleftrightarrow> i = j"
  by (simp add: stage_name_def)

lemma stages_of_nth:
  assumes "k < length (stages_of p ls)"
  shows "stages_of p ls ! k = (if k < length ls then stage_of p ls k (ls ! k)
      else revision_stage_of p ls (the (protocol_feedback p)))"
    and "k < length ls \<or> k = length ls \<and> protocol_feedback p \<noteq> None"
  using assms by (auto simp: stages_of_def nth_append nth_enumerate_eq split: option.splits)

lemma stages_of_index:
  assumes "k < length (stages_of p ls)"
  shows "stage_index (stages_of p ls ! k) = k" and "stage_id (stages_of p ls ! k) = stage_name k"
  using stages_of_nth [OF assms] by (auto simp: stage_of_def revision_stage_of_def)

lemma stages_of_ids: "stage_id ` set (take k (stages_of p ls)) = stage_name ` {..<min k (length (stages_of p ls))}"
proof -
  let ?n = "min k (length (stages_of p ls))"
  have "take k (stages_of p ls) = take ?n (stages_of p ls)" by (simp add: min_def)
  then have "set (take k (stages_of p ls)) = (!) (stages_of p ls) ` {0..<?n}" by (simp only: nth_image [of ?n] min.cobounded2)
  then show ?thesis using stages_of_index(2) [of _ p ls] by (auto simp: image_image)
qed

lemma stage_dependencies:
  assumes ok: "protocol_ok p" and top: "topology_ok p" and k: "k < length (stages_of p (levels_of p))"
  shows "set (depends_on_stage_ids (stages_of p (levels_of p) ! k)) \<subseteq> stage_name ` {..<k}"
proof -
  let ?ls = "levels_of p"
  note good = levels_of_good(2) [OF ok top] note parts = good_levels_parts [OF good]
  have in_ls: "producer_actor_id c \<in> set (concat ?ls)" "consumer_actor_id c \<in> set (concat ?ls)"
    if "c \<in> set (artifact_channels p)" for c using protocol_ok_parts(5) [OF ok that] by (simp_all only: parts(1))
  show ?thesis
  proof (cases "k < length ?ls")
    case True
    have "phase_of ?ls (producer_actor_id c) < k"
      if c: "c \<in> set (artifact_channels p)" "channel_id c \<in> set (inbound_of p (?ls ! k))" for c
    proof -
      obtain d where d: "d \<in> set (artifact_channels p)" "channel_id c = channel_id d"
        "\<not> is_feedback (protocol_feedback p) d" "consumer_actor_id d \<in> set (?ls ! k)"
        using c(2) by (auto simp: inbound_of_def)
      have "c = d" using distinct_map_eq [OF protocol_ok_parts(3) [OF ok] c(1) d(1,2)] .
      then have "(producer_actor_id c, consumer_actor_id c) \<in> edge_set (primary_channels p (protocol_feedback p))"
        using d by (auto simp: in_edge_set primary_channels_def)
      then have "phase_of ?ls (producer_actor_id c) < phase_of ?ls (consumer_actor_id c)"
        using good protocol_ok_parts(5) [OF ok c(1)] unfolding good_levels_def by blast
      moreover have "phase_of ?ls (consumer_actor_id c) = k"
        unfolding phase_of_def using d(4) \<open>c = d\<close> by (intro first_holder [OF parts(2) True]) simp
      ultimately show ?thesis by simp
    qed
    then show ?thesis using stages_of_nth(1) [OF k] True by (auto simp: stage_of_def parents_of_def)
  next
    case False
    then obtain f where f: "k = length ?ls" "protocol_feedback p = Some f" using stages_of_nth(2) [OF k] by auto
    have "phase_of ?ls (producer_actor_id f) < k"
      using f phase_of_less in_ls(1) [OF protocol_feedback_Some(1) [OF ok f(2)]] by simp
    then show ?thesis using stages_of_nth(1) [OF k] f by (simp add: revision_stage_of_def)
  qed
qed



subsection \<open>Lookups in a compiled plan\<close>

lemma compiled_call_cases:
  assumes "protocol_ok p" and "topology_ok p" and "c \<in> set (calls_of t p (levels_of p))"
  obtains (initial) i where "i \<in> set (actor_ids p)" "c = initial_call_of t p i"
    | (revision) r where "revision p = Some r" "c = revision_call_of p r"
proof -
  note nodes = good_levels_parts(1) [OF levels_of_good(2) [OF assms(1,2)]]
  from assms(3) have "c \<in> initial_call_of t p ` set (actor_ids p) \<union>
      (case revision p of None \<Rightarrow> {} | Some r \<Rightarrow> {revision_call_of p r})"
    unfolding calls_of_def set_append set_map nodes by (auto split: option.splits)
  then show ?thesis using initial revision by (auto split: option.splits)
qed

lemma compiled_calls_in:
  assumes "protocol_ok p" and "topology_ok p"
  shows "i \<in> set (actor_ids p) \<Longrightarrow> initial_call_of t p i \<in> set (calls_of t p (levels_of p))"
    and "revision p = Some r \<Longrightarrow> revision_call_of p r \<in> set (calls_of t p (levels_of p))"
  using good_levels_parts(1) [OF levels_of_good(2) [OF assms]] by (auto simp: calls_of_def)

lemma compiled_find_call:
  assumes "protocol_ok p" and "topology_ok p"
  shows "find_call (plan_of sha t p m) i = Some c \<longleftrightarrow> c \<in> set (calls_of t p (levels_of p)) \<and> call_id c = i"
  using find_call_iff [of "plan_of sha t p m"]
    distinct_call_ids [OF good_levels_parts(2) [OF levels_of_good(2) [OF assms]]] by simp

lemma compiled_staged:
  assumes "protocol_ok p" and "topology_ok p"
  shows "distinct (concat (map stage_call_ids (stages_of p (levels_of p))))"
    and "set (concat (map stage_call_ids (stages_of p (levels_of p)))) = call_id ` set (calls_of t p (levels_of p))"
proof -
  note eq = staged_call_ids [OF assms(1), of "levels_of p" t]
  show "distinct (concat (map stage_call_ids (stages_of p (levels_of p))))"
    unfolding eq using distinct_call_ids [OF good_levels_parts(2) [OF levels_of_good(2) [OF assms]]] .
  show "set (concat (map stage_call_ids (stages_of p (levels_of p)))) = call_id ` set (calls_of t p (levels_of p))"
    unfolding eq by simp
qed

lemma compiled_position:
  assumes "protocol_ok p" and "topology_ok p" and "c \<in> set (calls_of t p (levels_of p))"
  shows "call_position (plan_of sha t p m) (call_id c) = Inr (call_stage (stages_of p (levels_of p)) (call_id c))"
proof -
  have "call_id c \<in> set (concat (map stage_call_ids (stages_of p (levels_of p))))"
    unfolding compiled_staged(2) [OF assms(1,2), of t] using assms(3) by simp
  then show ?thesis
    using call_position_eq [of "plan_of sha t p m" "call_id c"] stages_of_index(1) compiled_staged(1) [OF assms(1,2)]
    by simp
qed

lemma compiled_stages_pass:
  assumes "protocol_ok p" and "topology_ok p"
  shows "check_stages (plan_of sha t p m) 0 [] [] (stages_of p (levels_of p)) = Inr ()"
  unfolding check_stages_Inr
proof (intro conjI allI impI ballI)
  fix s i assume "s \<in> set (stages_of p (levels_of p))" and "i \<in> set (stage_call_ids s)"
  then have "i \<in> call_id ` set (calls_of t p (levels_of p))"
    unfolding compiled_staged(2) [OF assms, of t, symmetric] by auto
  then obtain c where "c \<in> set (calls_of t p (levels_of p))" "call_id c = i" by blast
  then have "find_call (plan_of sha t p m) i = Some c" by (simp add: compiled_find_call [OF assms])
  then show "find_call (plan_of sha t p m) i \<noteq> None" by simp
next
  fix k assume k: "k < length (stages_of p (levels_of p))"
  show "set (depends_on_stage_ids (stages_of p (levels_of p) ! k)) \<subseteq>
      set [] \<union> stage_id ` set (take k (stages_of p (levels_of p)))"
    using stage_dependencies [OF assms k] k by (simp add: stages_of_ids min_def)
qed (use stages_of_index(1) compiled_staged(1) [OF assms] in simp_all)

lemma compiled_actor_calls_earlier:
  assumes "protocol_ok p" and "topology_ok p" and "revision p = Some r"
  shows "call_stage (stages_of p (levels_of p)) (initial_call_id (final_actor p)) <
    call_stage (stages_of p (levels_of p)) (revision_call_id (final_actor p))"
proof -
  note parts = good_levels_parts [OF levels_of_good(2) [OF assms(1,2)]]
  have fin: "final_actor p \<in> set (concat (levels_of p))" using protocol_ok_parts(1) [OF assms(1)] parts(1) by simp
  show ?thesis
    using call_stage_initial [OF assms(1) fin] call_stage_revision [OF assms(1)] assms(3) phase_of_less [OF fin] by simp
qed

lemma delivery_unique:
  assumes "protocol_ok p" and "d \<in> set (deliveries_of p)" and "e \<in> set (deliveries_of p)"
    and "ad_artifact_id d = ad_artifact_id e"
  shows "d = e"
proof -
  obtain b c where "b \<in> set (artifact_channels p)" "d = delivery_of p b" "c \<in> set (artifact_channels p)" "e = delivery_of p c"
    using assms(2,3) by auto
  moreover from this have "channel_id b = channel_id c" using assms(4) by (simp add: delivery_of_def artifact_id_of_def)
  ultimately show ?thesis using distinct_map_eq [OF protocol_ok_parts(3) [OF assms(1)]] by blast
qed

text \<open>The revision call of an actor is given again what its initial call was given.\<close>

lemma find_retained_skip:
  assumes "\<And>d. d \<in> set ds \<Longrightarrow> ad_artifact_id d \<noteq> a"
  shows "find_retained plan a c (ds @ es) = find_retained plan a c es"
  using assms by (induction ds) (auto split: option.splits)

lemma compiled_retained:
  assumes ok: "protocol_ok p" and top: "topology_ok p" and rev: "revision p = Some r"
    and d: "d \<in> set (deliveries_of p)" "ad_consumer_call_id d = initial_call_id (final_actor p)"
  shows "retained_artifact_source (plan_of sha t p m) (ad_artifact_id d) (revision_call_of p r) =
    Inr (Some (initial_call_id (final_actor p)))"
proof -
  let ?plan = "plan_of sha t p m" and ?c = "revision_call_of p r" and ?prior = "initial_call_of t p (final_actor p)"
  note fin = protocol_ok_parts(1) [OF ok] and calls = compiled_calls_in [OF ok top]
  obtain xs ys where split: "deliveries_of p = xs @ d # ys" "d \<notin> set xs" using split_list_first [OF d(1)] by blast
  have "ad_artifact_id e \<noteq> ad_artifact_id d" if "e \<in> set xs" for e
    using that split delivery_unique [OF ok _ d(1), of e] by auto
  moreover have "find_call ?plan (initial_call_id (final_actor p)) = Some ?prior"
    using calls(1) [OF fin] by (simp add: compiled_find_call [OF ok top])
  moreover have "call_position ?plan (initial_call_id (final_actor p)) =
      Inr (call_stage (stages_of p (levels_of p)) (initial_call_id (final_actor p)))"
    using compiled_position [OF ok top calls(1) [OF fin], of sha t m] by simp
  moreover have "call_position ?plan (revision_call_id (final_actor p)) =
      Inr (call_stage (stages_of p (levels_of p)) (revision_call_id (final_actor p)))"
    using compiled_position [OF ok top calls(2) [OF rev], of sha t m] by simp
  ultimately show ?thesis
    using compiled_actor_calls_earlier [OF ok top rev] d(2)
    by (simp add: retained_artifact_source_def split(1) find_retained_skip)
qed



subsection \<open>The reads of a compiled plan\<close>

definition read_keys :: "run_plan \<Rightarrow> actor_call \<Rightarrow> context_read \<Rightarrow> (string \<times> string) list" where
  "read_keys plan c r = (if source_kind r = SourceArtifact \<and> (source_ref r, call_id c) \<in> set (delivery_keys plan)
     then [(source_ref r, call_id c)] else [])"

lemma check_task_read [simp]: "check_read plan c (task_context_read v) = Inr []"
  by (cases v) (simp_all add: check_read_def Let_def)

lemma task_read_keys [simp]: "read_keys plan c (task_context_read v) = []"
  by (simp add: read_keys_def)

lemma delivery_keys_of [simp]: "set (delivery_keys (plan_of sha t p m)) =
    (\<lambda>d. (ad_artifact_id d, ad_consumer_call_id d)) ` set (deliveries_of p)"
  by (simp add: delivery_keys_def image_image)

lemma check_delivered_read:
  assumes "d \<in> set (deliveries_of p)" and "ad_consumer_call_id d = call_id c"
  shows "check_read (plan_of sha t p m) c (artifact_read d) =
    Inr (read_keys (plan_of sha t p m) c (artifact_read d))"
  using assms by (auto simp: check_read_def read_keys_def Let_def simp flip: assms(2))

lemma compiled_read:
  assumes ok: "protocol_ok p" and top: "topology_ok p" and c: "c \<in> set (calls_of t p (levels_of p))"
    and r: "r \<in> set (context_reads c)"
  shows "check_read (plan_of sha t p m) c r = Inr (read_keys (plan_of sha t p m) c r)"
  using ok top c
proof (cases rule: compiled_call_cases)
  case (initial i)
  then show ?thesis
    using r check_delivered_read [of _ p c] by (auto simp: initial_call_of_def deliveries_to_def Let_def)
next
  case (revision rev)
  let ?init = "initial_call_id (final_actor p)" and ?plan = "plan_of sha t p m"
  note init = compiled_calls_in(1) [OF ok top protocol_ok_parts(1) [OF ok], of t]
  consider (task) v where "r = task_context_read v"
    | (again) d where "d \<in> set (deliveries_of p)" "ad_consumer_call_id d = ?init" "r = artifact_read d"
    | (prior) "r = \<lparr>read_id = ''prior.'' @ ?init, source_kind = SourcePriorOutput, source_ref = ?init\<rparr>"
    | (direct) d where "d \<in> set (deliveries_of p)" "ad_consumer_call_id d = call_id c" "r = artifact_read d"
    using r revision(2) by (auto simp: revision_call_of_def deliveries_to_def Let_def)
  then show ?thesis
  proof cases
    case again
    have "(ad_artifact_id d, call_id c) \<notin> set (delivery_keys ?plan)"
      using delivery_unique [OF ok again(1)] again(2) revision(2) by fastforce
    then show ?thesis using again compiled_retained [OF ok top revision(1) again(1,2), of sha t m] revision(2)
      by (simp add: check_read_def read_keys_def Let_def initial_call_id_def del: delivery_keys_of)
  next
    case prior
    have "find_call ?plan ?init = Some (initial_call_of t p (final_actor p))"
      using init by (simp add: compiled_find_call [OF ok top])
    moreover have "call_position ?plan ?init = Inr (call_stage (stages_of p (levels_of p)) ?init)"
      using compiled_position [OF ok top init, of sha m] by simp
    ultimately show ?thesis
      using prior compiled_position [OF ok top c, of sha m] compiled_actor_calls_earlier [OF ok top revision(1)] revision(2)
      by (simp add: check_read_def read_keys_def Let_def)
  qed (simp_all add: check_delivered_read)
qed

lemma task_read_ids: "distinct vs \<Longrightarrow> distinct (map (\<lambda>v. read_id (task_context_read v)) vs)"
proof -
  have "read_id (task_context_read v) = read_id (task_context_read w) \<Longrightarrow> v = w" for v w
    by (cases v; cases w) simp_all
  then show "distinct vs \<Longrightarrow> distinct (map (\<lambda>v. read_id (task_context_read v)) vs)"
    by (auto simp: distinct_map intro: inj_onI)
qed

lemma artifact_read_ids:
  assumes "protocol_ok p" and "distinct ds" and "set ds \<subseteq> set (deliveries_of p)"
  shows "distinct (map (\<lambda>d. read_id (artifact_read d)) ds)"
proof -
  have "read_id (artifact_read d) = ad_artifact_id d" if "d \<in> set (deliveries_of p)" for d
    using that by (auto simp: artifact_read_def delivery_of_def)
  then show ?thesis using assms delivery_unique [OF assms(1)] by (auto simp: distinct_map inj_on_def subset_iff)
qed

lemma read_ids_apart:
  "read_id (task_context_read v) \<noteq> read_id (artifact_read d)"
  "read_id (task_context_read v) \<noteq> ''prior.'' @ x"
  "read_id (artifact_read d) \<noteq> ''prior.'' @ x"
  by (cases v; simp add: artifact_read_def artifact_id_of_def)+

lemma compiled_read_ids:
  assumes ok: "protocol_ok p" and top: "topology_ok p" and c: "c \<in> set (calls_of t p (levels_of p))"
  shows "distinct (map read_id (context_reads c))"
proof -
  have ds: "distinct (deliveries_of p)"
    using protocol_ok_parts(3) [OF ok] by (auto simp: distinct_map delivery_of_def intro!: inj_onI dest: inj_onD)
  have views: "distinct (task_view (actor_of p i))" if "i \<in> set (actor_ids p)" for i
    using actor_of_ok [OF ok that] protocol_ok_parts(4) [OF ok, of "actor_of p i"] by (simp add: actor_ok_def)
  note ids = task_read_ids artifact_read_ids [OF ok]
  note apart = read_ids_apart [simplified] read_ids_apart [symmetric, simplified]
  from ok top c show ?thesis
  proof (cases rule: compiled_call_cases)
    case (initial i)
    have "distinct (map (\<lambda>d. read_id (artifact_read d)) (deliveries_to (deliveries_of p) (initial_call_id i)))"
      by (rule ids(2)) (use ds in \<open>auto simp: deliveries_to_def\<close>)
    then show ?thesis
      using initial(2) ids(1) [OF views [OF initial(1)]] by (auto simp: initial_call_of_def Let_def comp_def apart)
  next
    case (revision r)
    let ?es = "deliveries_to (deliveries_of p) (initial_call_id (final_actor p)) @
      deliveries_to (deliveries_of p) (revision_call_id (final_actor p))"
    have "distinct (map (\<lambda>d. read_id (artifact_read d)) ?es)"
      by (rule ids(2)) (use ds in \<open>auto simp: deliveries_to_def\<close>)
    then show ?thesis
      using revision(2) ids(1) [OF views [OF protocol_ok_parts(1) [OF ok]]]
      by (auto simp: revision_call_of_def Let_def comp_def apart)
  qed
qed



section \<open>A compiled plan passes on its own task\<close>

definition trimmed_step :: "public_reproduction_step \<Rightarrow> bool" where
  "trimmed_step s \<longleftrightarrow> py_trim (step_id s) = step_id s \<and> map py_trim (step_argv s) = step_argv s \<and>
     py_trim (step_cwd s) = step_cwd s"

lemma verification_as_expected:
  "pv_actions (verification_of t p) = expected_verification t \<longleftrightarrow> list_all trimmed_step (public_reproduction t)"
proof -
  have "map action_of xs = map (\<lambda>s. \<lparr>va_step_id = step_id s, va_argv = step_argv s, va_cwd = step_cwd s,
      va_timeout_ms = step_timeout_ms s, va_exit_codes = expected_exit_codes s\<rparr>) xs \<longleftrightarrow> list_all trimmed_step xs" for xs
    by (induction xs) (auto simp: action_of_def trimmed_step_def)
  then show ?thesis by (simp add: verification_of_def expected_verification_def)
qed

lemma compiled_keys:
  assumes ok: "protocol_ok p" and top: "topology_ok p"
  shows "mapE (check_call_reads (plan_of sha t p m)) (calls_of t p (levels_of p)) =
      Inr (map (\<lambda>c. concat (map (read_keys (plan_of sha t p m) c) (context_reads c))) (calls_of t p (levels_of p)))"
    and "set (concat (map (\<lambda>c. concat (map (read_keys (plan_of sha t p m) c) (context_reads c)))
      (calls_of t p (levels_of p)))) = set (delivery_keys (plan_of sha t p m))"
proof -
  let ?plan = "plan_of sha t p m" and ?calls = "calls_of t p (levels_of p)"
  show "mapE (check_call_reads ?plan) ?calls = Inr (map (\<lambda>c. concat (map (read_keys ?plan c) (context_reads c))) ?calls)"
  proof (rule mapE_map)
    fix c assume c: "c \<in> set ?calls"
    have "mapE (check_read ?plan c) (context_reads c) = Inr (map (read_keys ?plan c) (context_reads c))"
      by (rule mapE_map) (rule compiled_read [OF ok top c])
    then show "check_call_reads ?plan c = Inr (concat (map (read_keys ?plan c) (context_reads c)))"
      using compiled_read_ids [OF ok top c] by (simp add: check_call_reads_def)
  qed
  have "(ad_artifact_id d, ad_consumer_call_id d) \<in> set (concat (map (\<lambda>c. concat (map (read_keys ?plan c) (context_reads c))) ?calls))"
    if d: "d \<in> set (deliveries_of p)" for d
  proof -
    obtain c where c: "c \<in> set ?calls" "call_id c = ad_consumer_call_id d" "artifact_read d \<in> set (context_reads c)"
      using delivery_is_read [OF ok levels_of_good(2) [OF ok top] d] by blast
    have "(ad_artifact_id d, ad_consumer_call_id d) \<in> set (read_keys ?plan c (artifact_read d))"
      using d c(2) by (auto simp: read_keys_def)
    then show ?thesis using c(1,3) by auto
  qed
  then have "set (delivery_keys ?plan) \<subseteq> set (concat (map (\<lambda>c. concat (map (read_keys ?plan c) (context_reads c))) ?calls))"
    by (auto simp only: delivery_keys_of)
  moreover have "set (read_keys ?plan c r) \<subseteq> set (delivery_keys ?plan)" for c r
    unfolding read_keys_def by (auto simp del: delivery_keys_of)
  ultimately show "set (concat (map (\<lambda>c. concat (map (read_keys ?plan c) (context_reads c))) ?calls)) = set (delivery_keys ?plan)"
    by fastforce
qed

lemma compiled_tools_allowed:
  assumes ok: "protocol_ok p" and top: "topology_ok p" and contract: "validate_dependency_contract t p m md = Inr ()"
    and c: "c \<in> set (calls_of t p (levels_of p))"
  shows "set (call_tool_ids c) \<subseteq> set (allowed_capabilities t)"
proof -
  have allowed: "set (tool_ids a) \<subseteq> set (allowed_capabilities t)" if "a \<in> set (actors p)" for a
    using contract that by (simp add: validate_dependency_contract_def check_actor_tools_def res_simps Let_def)
  have "\<exists>i\<in>set (actor_ids p). call_tool_ids c = tool_ids (actor_of p i)"
    using ok top c
  proof (cases rule: compiled_call_cases)
    case (initial i)
    then show ?thesis by (auto simp: initial_call_of_def Let_def)
  next
    case (revision r)
    then show ?thesis using protocol_ok_parts(1) [OF ok] by (auto simp: revision_call_of_def Let_def)
  qed
  then show ?thesis using actor_of_ok [OF ok] allowed by metis
qed

lemma compiled_stage_ids: "distinct (map stage_id (stages_of p ls))"
  by (auto simp: distinct_conv_nth stages_of_index(2))

lemma compiled_inputs:
  assumes "compile_composite_run_plan sha md task protocol manifest reject = Inr plan"
    and "validate_task_envelope sha task = Inr t"
    and "sb_workspace_digest scratch = snapshot_digest (workspace_snapshot t)"
    and "session \<noteq> None \<longrightarrow> declares_session plan"
    and "same_ceilings (ceilings t) (ceilings t)"
  shows "validate_inputs plan t scratch session =
    (if list_all trimmed_step (public_reproduction t) then Inr ()
     else Inl (CompositeRuntimeError ''public_verification_mismatch''
       ''compiled public verification differs from the TaskEnvelope''))"
proof -
  obtain p m where ok: "protocol_ok p" and top: "topology_ok p" and plan: "plan = plan_of sha t p m"
    and contract: "validate_dependency_contract t p m md = Inr ()"
    by (rule compile_Inr [OF assms(1)]) (use assms(2) in auto)
  note good = levels_of_good(2) [OF ok top]
  have keys: "(\<Union>c\<in>set (calls_of t p (levels_of p)). \<Union>r\<in>set (context_reads c). set (read_keys (plan_of sha t p m) c r)) =
      set (delivery_keys (plan_of sha t p m))"
    using compiled_keys(2) [OF ok top, of sha t m] by (simp del: delivery_keys_of)
  have tools: "forE (\<lambda>c. reject_if (\<not> subset_list (call_tool_ids c) (allowed_capabilities t)) k n)
      (calls_of t p (levels_of p)) = Inr ()" for k n
    using compiled_tools_allowed [OF ok top contract] by (simp add: res_simps)
  show ?thesis
    using assms(3-5)
    unfolding validate_inputs_def plan plan_of_fields tools compiled_keys(1) [OF ok top] compiled_stages_pass [OF ok top]
      verification_as_expected
    by (cases session)
      (simp_all add: ledger_of_def termination_of_def keys compiled_stage_ids final_calls [OF ok good] del: delivery_keys_of)
qed

text \<open>C35: the runtime accepts what the compiler makes: on its own task, with a scratch copy of the
  snapshot, a session only if some actor reads it, and costs that are numbers, every compiled plan
  passes all input checks when no verification step has blanks at the ends of its strings, and
  otherwise fails exactly the comparison of the verification commands.\<close>

theorem compiled_plan_accepted:
  assumes "compile_composite_run_plan sha md task protocol manifest reject = Inr plan"
    and "validate_task_envelope sha task = Inr t"
    and "sb_workspace_digest scratch = snapshot_digest (workspace_snapshot t)"
    and "session \<noteq> None \<longrightarrow> declares_session plan"
    and "same_ceilings (ceilings t) (ceilings t)"
  shows "validate_inputs plan t scratch session =
    (if list_all trimmed_step (public_reproduction t) then Inr ()
     else Inl (CompositeRuntimeError ''public_verification_mismatch''
       ''compiled public verification differs from the TaskEnvelope''))"
  by (rule compiled_inputs [OF assms])

definition sample_scratch :: scratch_binding where
  "sample_scratch = \<lparr>sb_workspace_id = ''scratch'',
     sb_workspace_digest = snapshot_digest (workspace_snapshot (sample_task_validated ''fix the bug''))\<rparr>"

theorem compiled_plan_accepted_witness:
  "\<exists>plan. compile_composite_run_plan zero_sha sample_metadata sample_task sample_protocol sample_manifest None = Inr plan \<and>
     validate_inputs plan (sample_task_validated ''fix the bug'') sample_scratch None = Inr ()"
proof -
  have t: "validate_task_envelope zero_sha sample_task = Inr (sample_task_validated ''fix the bug'')"
    by (rule sample_task_valid) code_simp
  have steps: "list_all trimmed_step (public_reproduction (sample_task_validated ''fix the bug''))" by code_simp
  have costs: "same_ceilings (ceilings (sample_task_validated ''fix the bug'')) (ceilings (sample_task_validated ''fix the bug''))"
    by code_simp
  have "sb_workspace_digest sample_scratch = snapshot_digest (workspace_snapshot (sample_task_validated ''fix the bug''))"
    by (simp add: sample_scratch_def)
  then show ?thesis
    using sample_compiles compiled_plan_accepted [OF _ t _ _ costs, where session = None and scratch = sample_scratch]
      steps by fastforce
qed

end
