(* ===== verification/RuntimeCalls.thy ===== *)
theory RuntimeCalls
  imports RuntimePlan ArtifactStore Provider
begin

text \<open>
  The data that the composite runtime exchanges with actors (\<open>runtime/kernel/composite_runtime.py\<close>):
  the context read before a call, the request with its bound digest and its input-token estimate,
  and the turns and outputs an actor returns, with their checks. What a provider returns is an
  instance of one of the turn classes, a mapping with string keys and JSON values, or something
  else.
\<close>

section \<open>Dumped models\<close>

text \<open>\<open>model_dump(mode="json")\<close>: tuples become lists.\<close>

fun json_mode :: "pyval \<Rightarrow> json" where
  "json_mode (PBool b) = JBool b"
| "json_mode (PInt i) = JInt i"
| "json_mode (PFloat f) = JFloat f"
| "json_mode (PStr s) = JStr s"
| "json_mode (PList xs) = JList (map json_mode xs)"
| "json_mode (PTuple xs) = JList (map json_mode xs)"
| "json_mode (PDict es) = JDict (map (\<lambda>(k, v). ((case k of PStr s \<Rightarrow> s | _ \<Rightarrow> []), json_mode v)) es)"
| "json_mode _ = JNull"

abbreviation str_or_none :: "string option \<Rightarrow> pyval" where
  "str_or_none v \<equiv> (case v of None \<Rightarrow> PNone | Some s \<Rightarrow> PStr s)"

definition value_digest :: "sha256 \<Rightarrow> json \<Rightarrow> string" where
  "value_digest sha v = identity_digest sha ''runtime-context-value'' (pyval_of v)"

section \<open>Contexts\<close>

record actual_read =
  ar_read_id :: string
  ar_source_kind :: source_kind
  ar_source_ref :: string
  ar_value :: json
  ar_value_digest :: string
  ar_provenance :: string

definition actual_read_payload :: "actual_read \<Rightarrow> pyval" where
  "actual_read_payload r = obj
     [(''read_id'', PStr (ar_read_id r)), (''source_kind'', PStr (source_kind_name (ar_source_kind r))),
      (''source_ref'', PStr (ar_source_ref r)), (''value'', pyval_of (ar_value r)),
      (''value_digest'', PStr (ar_value_digest r)), (''provenance_ref'', PStr (ar_provenance r))]"

record call_context =
  cx_call_id :: string
  cx_actor_id :: string
  cx_task_digest :: string
  cx_reads :: "actual_read list"
  cx_digest :: string

definition context_payload :: "call_context \<Rightarrow> (string \<times> pyval) list" where
  "context_payload c =
     [(''call_id'', PStr (cx_call_id c)), (''actor_id'', PStr (cx_actor_id c)),
      (''task_envelope_digest'', PStr (cx_task_digest c)),
      (''reads'', PTuple (map actual_read_payload (cx_reads c))), (''assembled_before_provider'', PBool True)]"

definition bind_manifest :: "sha256 \<Rightarrow> call_context \<Rightarrow> call_context" where
  "bind_manifest sha c = c\<lparr>cx_digest := identity_digest sha ''pre-call-context-manifest'' (obj (context_payload c))\<rparr>"

section \<open>Requests\<close>

record tool_result_context =
  tr_request_id :: string
  tr_tool_id :: tool_id
  tr_receipt_id :: string
  tr_status :: string
  tr_output :: json
  tr_output_digest :: string

definition tool_result_payload :: "tool_result_context \<Rightarrow> pyval" where
  "tool_result_payload t = obj
     [(''request_id'', PStr (tr_request_id t)), (''tool_id'', PStr (tool_name (tr_tool_id t))),
      (''receipt_id'', PStr (tr_receipt_id t)), (''status'', PStr (tr_status t)),
      (''output'', pyval_of (tr_output t)), (''output_digest'', PStr (tr_output_digest t))]"

record call_request =
  ac_run_id :: string
  ac_semantic_digest :: string
  ac_call_id :: string
  ac_actor_id :: string
  ac_call_kind :: call_kind
  ac_instruction :: string
  ac_revision_instruction :: "string option"
  ac_tool_ids :: "tool_id list"
  ac_bps :: int
  ac_context :: call_context
  ac_turn_index :: nat
  ac_tool_results :: "tool_result_context list"
  ac_input_estimate :: int
  ac_max_output :: int
  ac_request_digest :: string

definition request_payload :: "call_request \<Rightarrow> (string \<times> pyval) list" where
  "request_payload r =
     [(''run_id'', PStr (ac_run_id r)), (''compiled_semantic_digest'', PStr (ac_semantic_digest r)),
      (''call_id'', PStr (ac_call_id r)), (''actor_id'', PStr (ac_actor_id r)),
      (''call_kind'', PStr (call_kind_name (ac_call_kind r))), (''instruction'', PStr (ac_instruction r)),
      (''revision_instruction'', str_or_none (ac_revision_instruction r)),
      (''allowed_tool_ids'', PTuple (map (\<lambda>t. PStr (tool_name t)) (ac_tool_ids r))),
      (''budget_share_bps'', PInt (ac_bps r)),
      (''context'', obj (context_payload (ac_context r) @ [(''manifest_digest'', PStr (cx_digest (ac_context r)))])),
      (''turn_index'', PInt (int (ac_turn_index r))),
      (''tool_results'', PTuple (map tool_result_payload (ac_tool_results r))),
      (''input_token_estimate'', PInt (ac_input_estimate r)), (''max_output_tokens'', PInt (ac_max_output r))]"

definition bind_request :: "sha256 \<Rightarrow> call_request \<Rightarrow> call_request res" where
  "bind_request sha r = validated (
     thenE (require_share (ac_bps r)) (
     thenE (require_ge0 (ac_input_estimate r) ''input_token_estimate'') (
     thenE (require_gt0 (ac_max_output r) ''max_output_tokens'')
     (Inr (r\<lparr>ac_request_digest := identity_digest sha ''actor-call-request'' (obj (request_payload r))\<rparr>)))))"

definition request_text :: "call_request \<Rightarrow> string" where
  "request_text r = json_text True
     (json_mode (obj (request_payload r @ [(''request_digest'', PStr (ac_request_digest r))])))"

text \<open>\<open>max(1, ceil(len(text) / 4))\<close>, and \<open>0\<close> for the empty text; the quotient is exact.\<close>

definition count_tokens_rough :: "string \<Rightarrow> int" where
  "count_tokens_rough s = (if s = [] then 0 else max 1 ((int (length s) + 3) div 4))"

text \<open>The estimate depends on the text that contains it: at most eight rounds look for a fixed point,
  then the request carries the last estimate.\<close>

fun settle_estimate :: "sha256 \<Rightarrow> nat \<Rightarrow> call_request \<Rightarrow> int \<Rightarrow> (call_request \<times> int) res" where
  "settle_estimate sha 0 r estimate = Inr (r, estimate)"
| "settle_estimate sha (Suc n) r estimate =
     bindE (bind_request sha (r\<lparr>ac_input_estimate := estimate\<rparr>)) (\<lambda>q.
     let next_estimate = count_tokens_rough (request_text q) in
     if next_estimate = estimate then Inr (q, estimate) else settle_estimate sha n q next_estimate)"

definition estimated_request :: "sha256 \<Rightarrow> call_request \<Rightarrow> call_request res" where
  "estimated_request sha r = bindE (settle_estimate sha 8 r 0) (\<lambda>(q, estimate).
     if ac_input_estimate q \<noteq> estimate then bind_request sha (q\<lparr>ac_input_estimate := estimate\<rparr>) else Inr q)"

definition call_share_bps :: "run_plan \<Rightarrow> actor_call \<Rightarrow> pyfloat res" where
  "call_share_bps plan c =
     int_div (call_bps c) (int (length (filter (\<lambda>d. call_actor_id d = call_actor_id c) (actor_calls plan))))"

text \<open>\<open>limit * share_bps / 10_000\<close> of an int.\<close>

definition limit_share :: "int \<Rightarrow> pyfloat \<Rightarrow> pyfloat res" where
  "limit_share limit share = bindE (int_to_float limit) (\<lambda>l. bindE (int_to_float 10000) (\<lambda>d. float_div (float_mul l share) d))"

definition token_limit :: "int \<Rightarrow> pyfloat \<Rightarrow> int res" where
  "token_limit limit share = bindE (bindE (limit_share limit share) float_floor) (\<lambda>n. Inr (max 1 n))"

definition request_for :: "sha256 \<Rightarrow> run_plan \<Rightarrow> task_envelope \<Rightarrow> string \<Rightarrow> actor_call \<Rightarrow> call_context \<Rightarrow> nat \<Rightarrow>
    tool_result_context list \<Rightarrow> call_request res" where
  "request_for sha plan t run_id c context turn results =
     bindE (call_share_bps plan c) (\<lambda>share.
     bindE (token_limit (max_output_tokens (ceilings t)) share) (\<lambda>output_limit.
     bindE (token_limit (max_input_tokens (ceilings t)) share) (\<lambda>input_limit.
     bindE (estimated_request sha \<lparr>ac_run_id = run_id, ac_semantic_digest = compiled_semantic_dg plan,
       ac_call_id = call_id c, ac_actor_id = call_actor_id c, ac_call_kind = call_kind c,
       ac_instruction = call_instruction c, ac_revision_instruction = call_revision_instruction c,
       ac_tool_ids = call_tool_ids c, ac_bps = call_bps c, ac_context = context, ac_turn_index = turn, ac_tool_results = results, ac_input_estimate = 0,
       ac_max_output = output_limit, ac_request_digest = []\<rparr>) (\<lambda>request.
     thenE (reject_if (input_limit < ac_input_estimate request) ''actor_input_share_exhausted''
       ''call context exceeds its actor input-token share'') (Inr request)))))"

section \<open>Outputs\<close>

record actor_output =
  ao_text :: string
  ao_payloads :: "(string \<times> string) list"
  ao_patch :: "string option"

record tool_request =
  tq_request_id :: string
  tq_tool_id :: tool_id
  tq_arguments :: "(string \<times> json) list"

datatype actor_turn = ToolTurn tool_request | TerminalTurn actor_output

datatype actor_response =
    RawToolRequest tool_request
  | RawTerminal actor_output
  | RawOutput actor_output
  | RawMapping "(string \<times> json) list"
  | RawOther

text \<open>\<open>ActorCallOutput.model_validate\<close> of a mapping: a text, a dict of strings, a string or null.\<close>

definition field_error :: "'a res" where
  "field_error = Inl (ValidationError ''invalid field'')"

definition known_fields :: "string list \<Rightarrow> (string \<times> json) list \<Rightarrow> unit res" where
  "known_fields names es = raise_if (\<not> subset_list (map fst es) names) (ValidationError ''extra_forbidden'')"

fun str_field :: "json option \<Rightarrow> string res" where
  "str_field (Some (JStr s)) = Inr s"
| "str_field _ = field_error"

fun str_dict_field :: "json option \<Rightarrow> (string \<times> string) list res" where
  "str_dict_field None = Inr []"
| "str_dict_field (Some (JDict es)) = mapE (\<lambda>(k, v). bindE (str_field (Some v)) (\<lambda>s. Inr (k, s))) es"
| "str_dict_field _ = field_error"

fun optional_str_field :: "json option \<Rightarrow> string option res" where
  "optional_str_field None = Inr None"
| "optional_str_field (Some JNull) = Inr None"
| "optional_str_field (Some (JStr s)) = Inr (Some s)"
| "optional_str_field _ = field_error"

definition parse_output :: "(string \<times> json) list \<Rightarrow> actor_output res" where
  "parse_output es =
     thenE (known_fields [''output_text'', ''artifact_payloads'', ''final_patch''] es) (
     bindE (str_field (map_of es ''output_text'')) (\<lambda>text.
     bindE (str_dict_field (map_of es ''artifact_payloads'')) (\<lambda>payloads.
     bindE (optional_str_field (map_of es ''final_patch'')) (\<lambda>patch.
     Inr \<lparr>ao_text = text, ao_payloads = payloads, ao_patch = patch\<rparr>))))"

definition parse_tool_request :: "(string \<times> json) list \<Rightarrow> tool_request res" where
  "parse_tool_request es =
     thenE (known_fields [''turn_kind'', ''request_id'', ''tool_id'', ''arguments''] es) (
     bindE (str_field (map_of es ''request_id'')) (\<lambda>rid.
     thenE (raise_if (rid = []) (ValidationError ''string_too_short'')) (
     bindE (str_field (map_of es ''tool_id'')) (\<lambda>name.
     case find (\<lambda>t. tool_name t = name) repo_repair_trusted_tool_ids of
       None \<Rightarrow> field_error
     | Some tool \<Rightarrow> (case map_of es ''arguments'' of
         Some (JDict args) \<Rightarrow> Inr \<lparr>tq_request_id = rid, tq_tool_id = tool, tq_arguments = args\<rparr>
       | _ \<Rightarrow> field_error)))))"

definition parse_terminal :: "(string \<times> json) list \<Rightarrow> actor_output res" where
  "parse_terminal es =
     thenE (known_fields [''turn_kind'', ''output''] es) (
     case map_of es ''output'' of Some (JDict os) \<Rightarrow> parse_output os | _ \<Rightarrow> field_error)"

fun parse_actor_turn :: "actor_response \<Rightarrow> actor_turn res" where
  "parse_actor_turn (RawToolRequest q) = Inr (ToolTurn q)"
| "parse_actor_turn (RawTerminal out) = Inr (TerminalTurn out)"
| "parse_actor_turn (RawOutput out) = Inr (TerminalTurn out)"
| "parse_actor_turn (RawMapping es) =
     (if map_of es ''turn_kind'' = Some (JStr ''tool_request'') then bindE (parse_tool_request es) (\<lambda>q. Inr (ToolTurn q))
      else if map_of es ''turn_kind'' = Some (JStr ''terminal'') then bindE (parse_terminal es) (\<lambda>out. Inr (TerminalTurn out))
      else bindE (parse_output es) (\<lambda>out. Inr (TerminalTurn out)))"
| "parse_actor_turn RawOther = runtime_error ''invalid_actor_turn''
     ''provider response is neither a typed tool request nor terminal actor output''"

fun turn_payload :: "actor_turn \<Rightarrow> json" where
  "turn_payload (ToolTurn q) = JDict [(''turn_kind'', JStr ''tool_request''), (''request_id'', JStr (tq_request_id q)),
     (''tool_id'', JStr (tool_name (tq_tool_id q))), (''arguments'', JDict (tq_arguments q))]"
| "turn_payload (TerminalTurn out) = JDict [(''turn_kind'', JStr ''terminal''),
     (''output'', JDict [(''output_text'', JStr (ao_text out)),
       (''artifact_payloads'', JDict (map (\<lambda>(k, v). (k, JStr v)) (ao_payloads out))),
       (''final_patch'', jopt JStr (ao_patch out))])]"

definition turn_digest :: "sha256 \<Rightarrow> actor_turn \<Rightarrow> string" where
  "turn_digest sha turn = identity_digest sha ''provider-round-response'' (pyval_of (turn_payload turn))"

section \<open>Patches\<close>

text \<open>\<open>str.splitlines\<close> of the code points.\<close>

definition line_break :: "nat \<Rightarrow> bool" where
  "line_break n \<longleftrightarrow> 10 \<le> n \<and> n \<le> 13 \<or> 28 \<le> n \<and> n \<le> 30 \<or> n \<in> {0x85, 0x2028, 0x2029}"

fun split_lines :: "nat list \<Rightarrow> nat list list" where
  "split_lines [] = []"
| "split_lines (n # ns) =
     (if line_break n then [] # split_lines (if n = 13 \<and> take 1 ns = [10] then tl ns else ns)
      else case split_lines ns of [] \<Rightarrow> [[n]] | l # ls \<Rightarrow> (n # l) # ls)"

definition has_line :: "string \<Rightarrow> string \<Rightarrow> bool" where
  "has_line patch prefix \<longleftrightarrow>
     list_ex (\<lambda>l. take (length prefix) l = points prefix) (split_lines (code_points patch))"

definition require_unified_diff :: "string \<Rightarrow> unit res" where
  "require_unified_diff patch =
     thenE (reject_if (py_strip patch = [] \<or> \<not> has_line patch ''--- '') ''invalid_final_patch''
       ''final output is not a unified diff with an original-file header'')
     (reject_if (\<not> has_line patch ''+++ '') ''invalid_final_patch''
       ''final output is not a unified diff with an updated-file header'')"

text \<open>\<open>_validate_output\<close> of a typed output.\<close>

definition validate_output :: "task_envelope \<Rightarrow> run_plan \<Rightarrow> actor_call \<Rightarrow> actor_output \<Rightarrow> unit res" where
  "validate_output t plan c out =
     thenE (reject_if (set (map fst (ao_payloads out)) \<noteq> set (map aw_artifact_id (artifact_writes c)))
       ''artifact_write_mismatch'' ''call did not return its exact declared artifact set'') (
     thenE (reject_if (max_artifact_bytes (ceilings t) < int (length (ao_text out)))
       ''actor_output_too_large'' ''call output text exceeds the run artifact ceiling'') (
     if emits_final_patch c then
       (case ao_patch out of
          None \<Rightarrow> runtime_error ''final_patch_missing'' ''termination call did not emit a patch''
        | Some patch \<Rightarrow> thenE (require_unified_diff patch)
            (reject_if (tp_max_patch_bytes (plan_termination plan) < int (length patch))
              ''final_patch_too_large'' ''final patch exceeds the compiled patch-byte ceiling''))
     else reject_if (ao_patch out \<noteq> None) ''undeclared_final_patch''
       ''non-terminal call attempted to emit a final patch''))"

end
