(* ===== verification/Runtime.thy ===== *)
theory Runtime
  imports RuntimeCalls
begin

text \<open>
  The executor of a composite run plan (\<open>CompositeRuntime\<close> in \<open>runtime/kernel/composite_runtime.py\<close>):
  it assembles the context of each call from the task, the workspace, the artifact store, earlier
  outputs and the session, lets the actor take turns until it returns a terminal output, writes its
  artifacts, and at the end reconciles deliveries, the patch, the workspace and the budget. The
  state of a run extends that of a provider call. The repair tools are an injected interface, so
  its operations are fields of a record over the ledger and the world.
\<close>

section \<open>State\<close>

record round_evidence =
  pr_turn_index :: nat
  pr_request_digest :: string
  pr_reservation_id :: string
  pr_status :: call_status
  pr_started_at_ms :: int
  pr_finished_at_ms :: int
  pr_response_id :: "string option"
  pr_response_digest :: string
  pr_usage :: usage_report
  pr_tool_request_id :: "string option"

definition validate_round :: "round_evidence \<Rightarrow> round_evidence res" where
  "validate_round r = validated (
     thenE (require_ge0 (pr_started_at_ms r) ''started_at_ms'') (
     thenE (require_ge0 (pr_finished_at_ms r) ''finished_at_ms'') (
     thenE (raise_if (pr_finished_at_ms r < pr_started_at_ms r) (ValueError ''provider round finish precedes start'')) (
     thenE (raise_if (pr_tool_request_id r = Some [])
       (ValueError ''tool-request provider rounds require exactly one request id'')) (Inr r)))))"

record call_evidence =
  ce_call_id :: string
  ce_actor_id :: string
  ce_call_kind :: call_kind
  ce_stage_id :: string
  ce_request_digest :: string
  ce_context_digest :: string
  ce_read_ids :: "string list"
  ce_status :: call_status
  ce_reservation_id :: string
  ce_output_digest :: string
  ce_artifacts :: "string list"
  ce_patch_digest :: "string option"
  ce_rounds :: "round_evidence list"

record stage_evidence =
  se_stage_id :: string
  se_stage_index :: nat
  se_fork :: bool
  se_join :: bool
  se_order :: "string list"

text \<open>\<open>rs_outputs\<close> is a dict by call id, the newest entry first.\<close>

record 'w run_state = "'w call_state" +
  rs_artifacts :: artifact_store
  rs_outputs :: "(string \<times> actor_output) list"
  rs_contexts :: "call_context list"
  rs_evidence :: "call_evidence list"
  rs_stages :: "stage_evidence list"
  rs_started :: bool

record run_config =
  rc_plan :: run_plan
  rc_task :: task_envelope
  rc_scratch :: scratch_binding
  rc_session :: "session_context option"
  rc_run_id :: string
  rc_cred :: "credential_reference option"

text \<open>The receipt of a tool call, as far as the runtime reads it, and the injected tools. \<open>ti_complete\<close>
  says whether the interface has the methods of the final control.\<close>

record tool_receipt =
  tc_receipt_id :: string
  tc_status :: string
  tc_output :: json
  tc_output_digest :: string

record 'w tools =
  ti_invoke :: "string \<Rightarrow> tool_id \<Rightarrow> (string \<times> json) list \<Rightarrow> string \<Rightarrow> ledger \<Rightarrow> 'w \<Rightarrow> tool_receipt option res \<times> ledger \<times> 'w"
  ti_complete :: bool
  ti_workspace_diff :: "int \<Rightarrow> 'w \<Rightarrow> string res \<times> 'w"
  ti_workspace_digest :: "'w \<Rightarrow> string res \<times> 'w"
  ti_source_unchanged :: "'w \<Rightarrow> bool res \<times> 'w"
  ti_base_unchanged :: "'w \<Rightarrow> bool res \<times> 'w"
  ti_verify :: "string \<Rightarrow> ledger \<Rightarrow> 'w \<Rightarrow> bool res \<times> ledger \<times> 'w"
  ti_receipts :: "'w \<Rightarrow> tool_receipt list res \<times> 'w"

text \<open>The provider may have an operation that bounds a request before it is sent.\<close>

record 'w run_env =
  re_sha :: sha256
  re_port :: "(actor_response, call_request, 'w) port"
  re_epoch_ms :: "'w \<Rightarrow> int \<times> 'w"
  re_reserve :: "(call_request \<Rightarrow> 'w \<Rightarrow> request_reservation res \<times> 'w) option"
  re_tools :: "'w tools option"

type_synonym ('a, 'w) run = "('a, 'w run_state) prog"

definition rejectS :: "bool \<Rightarrow> string \<Rightarrow> string \<Rightarrow> (unit, 's) prog" where
  "rejectS b kind msg = raiseS_if b (CompositeRuntimeError kind msg)"

definition on_store :: "(artifact_store \<Rightarrow> 'a res \<times> artifact_store) \<Rightarrow> ('a, 'w) run" where
  "on_store f = onS rs_artifacts (\<lambda>a s. s\<lparr>rs_artifacts := a\<rparr>) f"

definition on_tools :: "('w \<Rightarrow> 'a res \<times> 'w) \<Rightarrow> ('a, 'w) run" where
  "on_tools f = onS cs_world (\<lambda>w s. s\<lparr>cs_world := w\<rparr>) f"

definition on_ledger_tools :: "(ledger \<Rightarrow> 'w \<Rightarrow> 'a res \<times> ledger \<times> 'w) \<Rightarrow> ('a, 'w) run" where
  "on_ledger_tools f = onS (\<lambda>s. (cs_ledger s, cs_world s)) (\<lambda>(l, w) s. s\<lparr>cs_ledger := l, cs_world := w\<rparr>)
     (\<lambda>(l, w). f l w)"

fun store_failure :: "exn \<Rightarrow> bool" where
  "store_failure (ArtifactStoreError m) = True"
| "store_failure _ = False"

section \<open>Contexts\<close>

definition new_read :: "sha256 \<Rightarrow> context_read \<Rightarrow> json \<Rightarrow> string \<Rightarrow> actual_read" where
  "new_read sha r v provenance = \<lparr>ar_read_id = read_id r, ar_source_kind = source_kind r, ar_source_ref = source_ref r,
     ar_value = v, ar_value_digest = value_digest sha v, ar_provenance = provenance\<rparr>"


definition task_read_value :: "task_envelope \<Rightarrow> context_read \<Rightarrow> json res" where
  "task_read_value t r =
     (if source_ref r = ''issue'' then Inr (JStr (issue t))
      else if source_ref r = ''public_reproduction'' then
        Inr (JList (map (\<lambda>s. json_mode (step_payload s)) (public_reproduction t)))
      else runtime_error ''undeclared_task_read'' ''unsupported public task read'')"

definition workspace_value :: "scratch_binding \<Rightarrow> json" where
  "workspace_value b = JDict [(''workspace_id'', JStr (sb_workspace_id b)),
     (''workspace_digest'', JStr (sb_workspace_digest b))]"

definition session_value :: "sha256 \<Rightarrow> session_context option \<Rightarrow> json" where
  "session_value sha v = (case v of
     None \<Rightarrow> JDict [(''session_id'', JNull), (''parent_message_id'', JNull), (''next_sequence'', JNull),
       (''carryover'', JList []), (''carryover_count'', JInt 0), (''context_digest'', JStr (no_session_digest sha))]
   | Some s \<Rightarrow> actor_visible_value s)"

definition session_provenance :: "sha256 \<Rightarrow> session_context option \<Rightarrow> string" where
  "session_provenance sha v = (case v of None \<Rightarrow> no_session_digest sha | Some s \<Rightarrow> sc_digest s)"

text \<open>An artifact that is delivered to this call, or that an earlier call of the same actor was given.\<close>

definition read_artifact :: "sha256 \<Rightarrow> run_plan \<Rightarrow> actor_call \<Rightarrow> context_read \<Rightarrow> (actual_read, 'w) run" where
  "read_artifact sha plan c r =
     (let i = source_ref r; direct = (i, call_id c) \<in> set (delivery_keys plan);
          failed = (\<lambda>_. CompositeRuntimeError ''artifact_delivery_failed'' ''artifact store'');
          finish = (\<lambda>payload dg provenance. returnS \<lparr>ar_read_id = read_id r, ar_source_kind = source_kind r,
            ar_source_ref = i, ar_value = JStr payload, ar_value_digest = dg, ar_provenance = provenance\<rparr>)
      in if direct then
           bindS (catchS store_failure failed (on_store (\<lambda>s. store_deliver s i (call_id c)))) (\<lambda>d.
           finish (de_payload d) (de_payload_digest d) (de_producer_call_id d))
         else
           bindS (liftS (retained_artifact_source plan i c)) (\<lambda>prior.
           bindS (getS (\<lambda>s. prior \<noteq> None \<and> was_delivered (rs_artifacts s) i (the prior))) (\<lambda>delivered.
           thenS (rejectS (\<not> delivered) ''artifact_delivery_failed'' ''retained artifact was not delivered to this actor'') (
           bindS (catchS store_failure failed (on_store (\<lambda>s. read_retained s i (call_id c)))) (\<lambda>a.
           finish (st_payload a) (st_payload_digest a) (st_producer_call_id a))))))"

definition resolve_read :: "sha256 \<Rightarrow> run_config \<Rightarrow> actor_call \<Rightarrow> context_read \<Rightarrow> (actual_read, 'w) run" where
  "resolve_read sha cfg c r =
     (case source_kind r of
        SourceTask \<Rightarrow> bindS (liftS (task_read_value (rc_task cfg) r)) (\<lambda>v.
          returnS (new_read sha r v (task_manifest_digest (rc_task cfg))))
      | SourceWorkspace \<Rightarrow> returnS (new_read sha r (workspace_value (rc_scratch cfg)) (sb_workspace_id (rc_scratch cfg)))
      | SourceArtifact \<Rightarrow> read_artifact sha (rc_plan cfg) c r
      | SourcePriorOutput \<Rightarrow>
          bindS (getS (\<lambda>s. map_of (rs_outputs s) (source_ref r))) (\<lambda>prior.
          case prior of
            None \<Rightarrow> raiseS (CompositeRuntimeError ''prior_output_missing'' ''required prior output is unavailable'')
          | Some out \<Rightarrow> returnS (new_read sha r (JStr (ao_text out)) (source_ref r)))
      | SourceSession \<Rightarrow>
          thenS (rejectS (source_ref r \<noteq> ''public_carryover'') ''undeclared_session_read''
            ''unsupported public session read'')
          (returnS (new_read sha r (session_value sha (rc_session cfg)) (session_provenance sha (rc_session cfg)))))"

definition context_for :: "sha256 \<Rightarrow> run_config \<Rightarrow> actor_call \<Rightarrow> (call_context, 'w) run" where
  "context_for sha cfg c =
     bindS (mapS (resolve_read sha cfg c) (context_reads c)) (\<lambda>reads.
     let manifest = bind_manifest sha \<lparr>cx_call_id = call_id c, cx_actor_id = call_actor_id c,
       cx_task_digest = task_manifest_digest (rc_task cfg), cx_reads = reads, cx_digest = []\<rparr> in
     thenS (putS (\<lambda>s. s\<lparr>rs_contexts := rs_contexts s @ [manifest]\<rparr>)) (returnS manifest))"

section \<open>Tools\<close>

definition invoke_tool :: "'w run_env \<Rightarrow> run_config \<Rightarrow> string \<Rightarrow> tool_request \<Rightarrow> (tool_receipt option, 'w) run" where
  "invoke_tool env cfg cid q =
     (case find_call (rc_plan cfg) cid of
        None \<Rightarrow> raiseS (CompositeRuntimeError ''unknown_tool_call_owner'' ''unknown actor call'')
      | Some c \<Rightarrow>
          thenS (rejectS (tq_tool_id q \<notin> set (call_tool_ids c)) ''tool_not_authorized'' ''tool is not authorized for call'') (
          case re_tools env of
            None \<Rightarrow> raiseS (CompositeRuntimeError ''tool_interface_unavailable''
              ''trusted tool execution is not installed in the R1a runtime slice'')
          | Some tools \<Rightarrow> on_ledger_tools (ti_invoke tools cid (tq_tool_id q) (tq_arguments q) (tq_request_id q))))"

definition tool_result_of :: "tool_request \<Rightarrow> tool_receipt option \<Rightarrow> tool_result_context res" where
  "tool_result_of q receipt = (case receipt of
     None \<Rightarrow> runtime_error ''invalid_tool_result'' ''injected repair tool interface returned no typed receipt''
   | Some t \<Rightarrow> Inr \<lparr>tr_request_id = tq_request_id q, tr_tool_id = tq_tool_id q, tr_receipt_id = tc_receipt_id t,
       tr_status = tc_status t, tr_output = tc_output t, tr_output_digest = tc_output_digest t\<rparr>)"

section \<open>Turns\<close>

definition request_reservation_for :: "'w run_env \<Rightarrow> call_request \<Rightarrow> (request_reservation, 'w) run" where
  "request_reservation_for env q = (case re_reserve env of
     Some f \<Rightarrow> catchS (\<lambda>_. True)
       (\<lambda>_. CompositeRuntimeError ''provider_reservation_failed'' ''provider could not produce a bounded pre-send reservation'')
       (bindS (on_tools (f q)) (\<lambda>r. liftS (validate_request_reservation r)))
   | None \<Rightarrow> liftS (validate_request_reservation \<lparr>rr_input_tokens = ac_input_estimate q,
       rr_max_output_tokens = ac_max_output q, rr_max_cached_tokens = 0, rr_max_cache_write_tokens = 0,
       rr_max_known_cost = None\<rparr>))"

definition provider_request_of :: "request_reservation \<Rightarrow> pyfloat \<Rightarrow> provider_request" where
  "provider_request_of r cost = \<lparr>rq_input_tokens = rr_input_tokens r, rq_output_tokens = rr_max_output_tokens r,
     rq_cached_tokens = rr_max_cached_tokens r, rq_cache_write_tokens = rr_max_cache_write_tokens r,
     rq_cost = (case rr_max_known_cost r of None \<Rightarrow> cost | Some k \<Rightarrow> k), rq_cost_status = KnownCost, rq_is_retry = False\<rparr>"

definition read_epoch :: "'w run_env \<Rightarrow> (int, 'w) run" where
  "read_epoch env = on_world (re_epoch_ms env)"

text \<open>One provider round: the request, the call, and the turn it returned with its evidence.\<close>

definition provider_round :: "'w run_env \<Rightarrow> run_config \<Rightarrow> actor_call \<Rightarrow> call_context \<Rightarrow> pyfloat \<Rightarrow> nat \<Rightarrow>
    tool_result_context list \<Rightarrow> (call_request \<times> actor_turn \<times> (string option \<Rightarrow> round_evidence), 'w) run" where
  "provider_round env cfg c context cost turn results =
     bindS (liftS (request_for (re_sha env) (rc_plan cfg) (rc_task cfg) (rc_run_id cfg) c context turn results)) (\<lambda>request.
     bindS (request_reservation_for env request) (\<lambda>reservation.
     bindS (read_epoch env) (\<lambda>started.
     bindS (provider_call (re_port env) request (provider_request_of reservation cost) (rc_cred cfg)) (\<lambda>result.
     bindS (read_epoch env) (\<lambda>finished.
     thenS (rejectS (cr_status result \<noteq> Succeeded) ''provider_call_failed'' ''provider round did not succeed'') (
     case (cr_invocation result, cr_reservation_id result) of
       (Some v, Some rid) \<Rightarrow>
         bindS (catchS (\<lambda>e. case e of CompositeRuntimeError k m \<Rightarrow> False | _ \<Rightarrow> True)
             (\<lambda>_. CompositeRuntimeError ''invalid_actor_turn'' ''provider round returned an invalid actor turn'')
             (liftS (parse_actor_turn (inv_response v)))) (\<lambda>turn_value.
         returnS (request, turn_value, (\<lambda>tool_request_id.
           \<lparr>pr_turn_index = turn, pr_request_digest = ac_request_digest request, pr_reservation_id = rid,
            pr_status = cr_status result, pr_started_at_ms = started, pr_finished_at_ms = finished,
            pr_response_id = ur_response_id (inv_usage v), pr_response_digest = turn_digest (re_sha env) turn_value,
            pr_usage = inv_usage v, pr_tool_request_id = tool_request_id\<rparr>)))
     | _ \<Rightarrow> raiseS (CompositeRuntimeError ''provider_result_missing''
         ''provider round returned no invocation evidence'')))))))"

text \<open>The turns of a call: \<open>left\<close> of the \<open>max_model_calls\<close> rounds remain.\<close>

fun take_turns :: "'w run_env \<Rightarrow> run_config \<Rightarrow> actor_call \<Rightarrow> call_context \<Rightarrow> pyfloat \<Rightarrow> nat \<Rightarrow> nat \<Rightarrow>
    tool_result_context list \<Rightarrow> string list \<Rightarrow> round_evidence list \<Rightarrow>
    (call_request \<times> actor_output \<times> round_evidence list, 'w) run" where
  "take_turns env cfg c context cost 0 turn results asked rounds =
     raiseS (CompositeRuntimeError ''actor_turn_budget_exhausted''
       ''call did not produce terminal output within the model-call ceiling'')"
| "take_turns env cfg c context cost (Suc left) turn results asked rounds =
     bindS (provider_round env cfg c context cost turn results) (\<lambda>(request, turn_value, evidence).
     case turn_value of
       ToolTurn q \<Rightarrow>
         thenS (rejectS (tq_request_id q \<in> set asked) ''duplicate_tool_request_id'' ''call repeated tool request id'') (
         bindS (liftS (validate_round (evidence (Some (tq_request_id q))))) (\<lambda>round.
         bindS (invoke_tool env cfg (call_id c) q) (\<lambda>receipt.
         bindS (liftS (tool_result_of q receipt)) (\<lambda>result.
         take_turns env cfg c context cost left (Suc turn) (results @ [result]) (asked @ [tq_request_id q])
           (rounds @ [round])))))
     | TerminalTurn out \<Rightarrow>
         bindS (liftS (validate_round (evidence None))) (\<lambda>round.
         thenS (liftS (validate_output (rc_task cfg) (rc_plan cfg) c out))
         (returnS (request, out, rounds @ [round]))))"

section \<open>Calls\<close>

definition write_artifact :: "sha256 \<Rightarrow> actor_call \<Rightarrow> actor_output \<Rightarrow> artifact_write \<Rightarrow> (string, 'w) run" where
  "write_artifact sha c out w =
     (case map_of (ao_payloads out) (aw_artifact_id w) of
        None \<Rightarrow> raiseS (KeyError (aw_artifact_id w))
      | Some payload \<Rightarrow>
          bindS (catchS store_failure (\<lambda>_. CompositeRuntimeError ''artifact_write_failed'' ''artifact store'')
            (on_store (\<lambda>s. store_write sha s w (call_id c) payload))) (\<lambda>a.
          returnS (st_artifact_id a)))"

definition call_cost :: "run_config \<Rightarrow> actor_call \<Rightarrow> pyfloat res" where
  "call_cost cfg c = bindE (call_share_bps (rc_plan cfg) c) (\<lambda>share.
     bindE (int_to_float 10000) (\<lambda>d. float_div (float_mul (max_known_cost_usd (ceilings (rc_task cfg))) share) d))"

definition evidence_of :: "sha256 \<Rightarrow> actor_call \<Rightarrow> string \<Rightarrow> call_context \<Rightarrow> call_request \<Rightarrow> actor_output \<Rightarrow>
    round_evidence list \<Rightarrow> string list \<Rightarrow> call_evidence" where
  "evidence_of sha c stage context request out rounds written =
     \<lparr>ce_call_id = call_id c, ce_actor_id = call_actor_id c, ce_call_kind = call_kind c, ce_stage_id = stage,
      ce_request_digest = ac_request_digest request, ce_context_digest = cx_digest context,
      ce_read_ids = map ar_read_id (cx_reads context), ce_status = pr_status (last rounds),
      ce_reservation_id = pr_reservation_id (last rounds),
      ce_output_digest = value_digest sha (JStr (ao_text out)), ce_artifacts = written,
      ce_patch_digest = map_option (\<lambda>p. identity_digest sha ''final-unified-diff'' (PStr p)) (ao_patch out),
      ce_rounds = rounds\<rparr>"

definition execute_call :: "'w run_env \<Rightarrow> run_config \<Rightarrow> actor_call \<Rightarrow> string \<Rightarrow> (unit, 'w) run" where
  "execute_call env cfg c stage =
     bindS (context_for (re_sha env) cfg c) (\<lambda>context.
     bindS (liftS (call_cost cfg c)) (\<lambda>cost.
     bindS (take_turns env cfg c context cost (nat (max_model_calls (ceilings (rc_task cfg)))) 0 [] [] []) (\<lambda>(request, out, rounds).
     bindS (mapS (write_artifact (re_sha env) c out) (artifact_writes c)) (\<lambda>written.
     putS (\<lambda>s. s\<lparr>rs_outputs := (call_id c, out) # rs_outputs s, rs_evidence := rs_evidence s @
       [evidence_of (re_sha env) c stage context request out rounds written]\<rparr>)))))"


section \<open>The run\<close>

fun run_calls :: "'w run_env \<Rightarrow> run_config \<Rightarrow> string \<Rightarrow> string list \<Rightarrow> (unit, 'w) run" where
  "run_calls env cfg stage [] = returnS ()"
| "run_calls env cfg stage (i # is) =
     (case find_call (rc_plan cfg) i of
        None \<Rightarrow> raiseS (KeyError i)
      | Some c \<Rightarrow> thenS (execute_call env cfg c stage) (run_calls env cfg stage is))"

fun run_stages :: "'w run_env \<Rightarrow> run_config \<Rightarrow> string list \<Rightarrow> string list \<Rightarrow> plan_stage list \<Rightarrow> (string list, 'w) run" where
  "run_stages env cfg completed executed [] = returnS executed"
| "run_stages env cfg completed executed (st # sts) =
     thenS (rejectS (\<not> subset_list (depends_on_stage_ids st) completed) ''stage_dependency_unmet''
       ''stage dependency is not complete'') (
     thenS (run_calls env cfg (stage_id st) (stage_call_ids st)) (
     thenS (putS (\<lambda>s. s\<lparr>rs_stages := rs_stages s @ [\<lparr>se_stage_id = stage_id st, se_stage_index = stage_index st,
       se_fork = stage_fork st, se_join = stage_join st, se_order = stage_call_ids st\<rparr>]\<rparr>))
     (run_stages env cfg (completed @ [stage_id st]) (executed @ stage_call_ids st) sts)))"

datatype run_status = PatchReady | RunCompleted | PublicVerificationFailed

record run_result =
  rr_run_id :: string
  rr_status :: run_status
  rr_task_digest :: string
  rr_semantic_digest :: string
  rr_scratch :: scratch_binding
  rr_patch :: string
  rr_patch_digest :: string
  rr_workspace_digest :: string
  rr_source_unchanged :: bool
  rr_verification :: "bool option"
  rr_receipts :: "tool_receipt list"
  rr_calls :: "call_evidence list"
  rr_stages :: "stage_evidence list"
  rr_contexts :: "call_context list"
  rr_artifacts :: "artifact_evidence list"
  rr_deliveries :: "delivery_evidence list"
  rr_budget :: budget_snapshot

text \<open>The final control over the injected tools: the workspace diff is the patch, source and base are
  unchanged before and after public verification. It gives whether verification passed, the digest
  of the workspace and the receipts.\<close>

definition check_unchanged :: "'w tools \<Rightarrow> string \<Rightarrow> (unit, 'w) run" where
  "check_unchanged tools msg =
     bindS (on_tools (ti_source_unchanged tools)) (\<lambda>source.
     thenS (rejectS (\<not> source) ''immutable_source_changed'' msg) (
     bindS (on_tools (ti_base_unchanged tools)) (\<lambda>base.
     rejectS (\<not> base) ''immutable_source_changed'' msg)))"

definition final_control :: "run_config \<Rightarrow> string \<Rightarrow> 'w tools \<Rightarrow> (bool \<times> string \<times> tool_receipt list, 'w) run" where
  "final_control cfg patch tools =
     (let term = plan_termination (rc_plan cfg) in
      thenS (rejectS (\<not> ti_complete tools) ''repair_control_incomplete''
        ''injected tool interface lacks the R2 final-control surface'') (
      bindS (on_tools (ti_workspace_diff tools (tp_max_patch_bytes term))) (\<lambda>actual.
      thenS (rejectS (actual \<noteq> patch) ''final_patch_workspace_mismatch''
        ''submitted final patch does not exactly match the immutable-base workspace diff'') (
      thenS (check_unchanged tools ''source snapshot or immutable base changed during runtime execution'') (
      bindS (on_ledger_tools (ti_verify tools (final_actor_call_id term))) (\<lambda>passed.
      bindS (on_tools (ti_workspace_digest tools)) (\<lambda>digest.
      thenS (check_unchanged tools ''public verification changed the source snapshot or immutable base'') (
      bindS (on_tools (ti_receipts tools)) (\<lambda>receipts.
      returnS (passed, digest, receipts))))))))))"

definition finish_run :: "'w run_env \<Rightarrow> run_config \<Rightarrow> string \<Rightarrow> (run_result, 'w) run" where
  "finish_run env cfg patch =
     bindS (take_snapshot (re_port env)) (\<lambda>budget.
     bindS (case re_tools env of
         None \<Rightarrow> returnS (PatchReady, sb_workspace_digest (rc_scratch cfg), None, [], budget)
       | Some tools \<Rightarrow>
           bindS (final_control cfg patch tools) (\<lambda>(passed, digest, receipts).
           bindS (take_snapshot (re_port env)) (\<lambda>b.
           returnS (if passed then RunCompleted else PublicVerificationFailed, digest, Some passed, receipts, b))))
       (\<lambda>(status, digest, verification, receipts, b).
     thenS (rejectS (\<not> s_reconciled b \<or> \<not> s_healthy b) ''budget_reconciliation_failed''
       ''aggregate provider accounting is incomplete or unhealthy'') (
     getS (\<lambda>s. \<lparr>rr_run_id = rc_run_id cfg, rr_status = status, rr_task_digest = task_manifest_digest (rc_task cfg),
       rr_semantic_digest = compiled_semantic_dg (rc_plan cfg), rr_scratch = rc_scratch cfg, rr_patch = patch,
       rr_patch_digest = identity_digest (re_sha env) ''final-unified-diff'' (PStr patch), rr_workspace_digest = digest,
       rr_source_unchanged = True, rr_verification = verification, rr_receipts = receipts,
       rr_calls = rs_evidence s, rr_stages = rs_stages s, rr_contexts = rs_contexts s,
       rr_artifacts = store_evidence (rs_artifacts s), rr_deliveries = made_deliveries (rs_artifacts s),
       rr_budget = b\<rparr>))))"

definition composite_run :: "'w run_env \<Rightarrow> run_config \<Rightarrow> (run_result, 'w) run" where
  "composite_run env cfg =
     bindS (getS rs_started) (\<lambda>started.
     thenS (rejectS started ''run_already_started'' ''CompositeRuntime instances execute exactly one run'') (
     thenS (putS (\<lambda>s. s\<lparr>rs_started := True\<rparr>)) (
     bindS (run_stages env cfg [] [] (stages (rc_plan cfg))) (\<lambda>executed.
     thenS (rejectS (executed \<noteq> concat (map stage_call_ids (stages (rc_plan cfg)))) ''execution_order_mismatch''
       ''actual actor-call order differs from the compiled sequential order'') (
     bindS (getS (\<lambda>s. map (\<lambda>d. (de_artifact_id d, de_consumer_call_id d)) (made_deliveries (rs_artifacts s)))) (\<lambda>keys.
     thenS (rejectS (set keys \<noteq> set (delivery_keys (rc_plan cfg))) ''delivery_reconciliation_failed''
       ''actual artifact deliveries do not match the compiled run plan'') (
     bindS (getS (\<lambda>s. map_of (rs_outputs s) (final_actor_call_id (plan_termination (rc_plan cfg))))) (\<lambda>final.
     case final of
       Some out \<Rightarrow> (case ao_patch out of
           Some patch \<Rightarrow> finish_run env cfg patch
         | None \<Rightarrow> raiseS (CompositeRuntimeError ''final_patch_missing'' ''termination call did not produce a final patch''))
     | None \<Rightarrow> raiseS (CompositeRuntimeError ''final_patch_missing''
         ''termination call did not produce a final patch'')))))))))"

section \<open>Construction\<close>

text \<open>\<open>CompositeRuntime.__init__\<close>: the inputs are validated again, the run id may not be blank, the plan is
  checked against the task, and the ledger and the store are built.\<close>

definition new_runtime :: "sha256 \<Rightarrow> (nat \<Rightarrow> bool) \<Rightarrow> run_config \<Rightarrow> pyfloat \<Rightarrow> 'w \<Rightarrow> (run_config \<times> 'w run_state) res" where
  "new_runtime sha word cfg now w =
     bindE (catchE (\<lambda>_. True) (\<lambda>_. CompositeRuntimeError ''invalid_runtime_contract'' ''runtime inputs failed boundary revalidation'')
       (bindE (validate_run_plan sha (rc_plan cfg)) (\<lambda>plan.
        bindE (validate_task_envelope sha (rc_task cfg)) (\<lambda>t.
        bindE (validate_scratch_binding (rc_scratch cfg)) (\<lambda>scratch.
        bindE (optE (validate_session_context sha word) (rc_session cfg)) (\<lambda>session.
        Inr (cfg\<lparr>rc_plan := plan, rc_task := t, rc_scratch := scratch, rc_session := session,
          rc_run_id := py_strip (rc_run_id cfg)\<rparr>))))))) (\<lambda>cfg.
     thenE (raise_if (rc_run_id cfg = []) (ValueError ''run_id may not be empty'')) (
     thenE (validate_inputs (rc_plan cfg) (rc_task cfg) (rc_scratch cfg) (rc_session cfg)) (
     bindE (catchE store_failure (\<lambda>_. CompositeRuntimeError ''invalid_artifact_plan'' ''artifact store'')
       (new_store (rc_plan cfg) (max_artifact_bytes (ceilings (rc_task cfg))))) (\<lambda>store.
     Inr (cfg, \<lparr>cs_ledger = new_ledger (aggregate_ceiling (budget_ledger (rc_plan cfg))) now, cs_world = w,
       rs_artifacts = store, rs_outputs = [], rs_contexts = [], rs_evidence = [], rs_stages = [],
       rs_started = False\<rparr>)))))"

end
