(* ===== verification/RunnablePlan.thy ===== *)
theory RunnablePlan
  imports RuntimePlan ArtifactStore
begin

text \<open>
  What a run needs of its plan: every call is staged once and in order, stages depend on earlier
  ones, and each read of a call finds its source, because the call that wrote the artifact or gave
  the output comes before it. The result: every compiled plan is runnable. This is the contract
  between the compiler and the executor.
\<close>

definition read_ready :: "run_plan \<Rightarrow> actor_call list \<Rightarrow> actor_call \<Rightarrow> context_read \<Rightarrow> bool" where
  "read_ready plan pre c r \<longleftrightarrow> (let ref = source_ref r in
     case source_kind r of
       SourceTask \<Rightarrow> ref \<in> {''issue'', ''public_reproduction''}
     | SourceWorkspace \<Rightarrow> True
     | SourceSession \<Rightarrow> ref = ''public_carryover''
     | SourcePriorOutput \<Rightarrow> ref \<in> call_id ` set pre
     | SourceArtifact \<Rightarrow> (\<exists>p\<in>set pre. ref \<in> aw_artifact_id ` set (artifact_writes p)) \<and>
         ((ref, call_id c) \<in> set (delivery_keys plan) \<or>
          (\<exists>prior. retained_artifact_source plan ref c = Inr (Some prior) \<and> prior \<in> call_id ` set pre \<and>
             (ref, prior) \<in> set (delivery_keys plan))))"

abbreviation artifact_refs :: "actor_call \<Rightarrow> string list" where
  "artifact_refs c \<equiv> map source_ref (filter (\<lambda>r. source_kind r = SourceArtifact) (context_reads c))"

definition runnable :: "run_plan \<Rightarrow> bool" where
  "runnable plan \<longleftrightarrow> distinct (map call_id (actor_calls plan)) \<and>
     concat (map stage_call_ids (stages plan)) = map call_id (actor_calls plan) \<and>
     (\<forall>k<length (stages plan). set (depends_on_stage_ids (stages plan ! k)) \<subseteq> stage_id ` set (take k (stages plan))) \<and>
     (\<forall>pre c rest. actor_calls plan = pre @ c # rest \<longrightarrow> distinct (artifact_refs c) \<and>
        (\<forall>r\<in>set (context_reads c). read_ready plan pre c r)) \<and>
     (\<forall>k\<in>set (delivery_keys plan). \<exists>c\<in>set (actor_calls plan). call_id c = snd k \<and> fst k \<in> set (artifact_refs c)) \<and>
     (\<exists>c\<in>set (actor_calls plan). call_id c = final_actor_call_id (plan_termination plan) \<and> emits_final_patch c)"

section \<open>The order of the calls\<close>

lemma stage_before:
  assumes "distinct (concat xss)" and "concat xss = pre @ j # rest" and "i \<in> set (concat xss)"
    and "length (takeWhile (\<lambda>l. i \<notin> set l) xss) < length (takeWhile (\<lambda>l. j \<notin> set l) xss)"
  shows "i \<in> set pre"
proof -
  have "j \<in> set (concat xss)" by (simp add: assms(2))
  then obtain l where "l \<in> set xss" "j \<in> set l" by auto
  then obtain m where m: "m < length xss" "j \<in> set (xss ! m)" by (auto simp: in_set_conv_nth)
  obtain k where "k \<in> set xss" "i \<in> set k" using assms(3) by auto
  then obtain n where n: "n < length xss" "i \<in> set (xss ! n)" by (auto simp: in_set_conv_nth)
  have nm: "n < m" using assms(4) first_holder [OF assms(1) n] first_holder [OF assms(1) m] by simp
  let ?a = "concat (take m xss)"
  have split: "concat xss = ?a @ concat (drop m xss)" by (metis append_take_drop_id concat_append)
  have "xss ! n \<in> set (take m xss)" using n(1) nm nth_mem [of n "take m xss"] by simp
  then have i: "i \<in> set ?a" using n(2) by auto
  have "drop m xss = xss ! m # drop (Suc m) xss" using m(1) by (simp add: Cons_nth_drop_Suc)
  then have "j \<in> set (concat (drop m xss))" using m(2) by simp
  then have nj: "j \<notin> set ?a" using assms(1) unfolding split by auto
  have eq: "?a @ concat (drop m xss) = pre @ j # rest" using assms(2) split by simp
  then obtain us where us: "?a = pre @ us \<and> us @ concat (drop m xss) = j # rest \<or> ?a @ us = pre \<and> concat (drop m xss) = us @ j # rest"
    unfolding append_eq_append_conv2 by blast
  then show ?thesis
  proof
    assume u: "?a = pre @ us \<and> us @ concat (drop m xss) = j # rest"
    then have "us = []" using nj by (cases us) auto
    with u i show ?thesis by simp
  next
    assume "?a @ us = pre \<and> concat (drop m xss) = us @ j # rest"
    then show ?thesis using i by auto
  qed
qed

lemma compiled_earlier:
  assumes ok: "protocol_ok p" and top: "topology_ok p" and calls: "calls_of t p (levels_of p) = pre @ c # rest"
    and e: "e \<in> set (calls_of t p (levels_of p))"
    and less: "call_stage (stages_of p (levels_of p)) (call_id e) < call_stage (stages_of p (levels_of p)) (call_id c)"
  shows "e \<in> set pre"
proof -
  let ?xss = "map stage_call_ids (stages_of p (levels_of p))"
  have eq: "concat ?xss = map call_id pre @ call_id c # map call_id rest"
    using staged_call_ids [OF ok, of "levels_of p" t] by (simp add: calls)
  have ids: "distinct (map call_id (calls_of t p (levels_of p)))"
    using distinct_call_ids [OF good_levels_parts(2) [OF levels_of_good(2) [OF ok top]]] .
  have "call_id e \<in> set (concat ?xss)" using e unfolding eq calls by auto
  then have "call_id e \<in> set (map call_id pre)"
    using stage_before [OF compiled_staged(1) [OF ok top] eq] less unfolding call_stage_def by simp
  then obtain e' where e': "e' \<in> set pre" "call_id e = call_id e'" by auto
  then have "e' \<in> set (calls_of t p (levels_of p))" unfolding calls by simp
  with distinct_map_eq [OF ids e this e'(2)] e'(1) show ?thesis by simp
qed

lemma deliveries_forward:
  assumes "protocol_ok p" and "topology_ok p" and "d \<in> set (deliveries_of p)"
  shows "call_stage (stages_of p (levels_of p)) (ad_producer_call_id d) <
    call_stage (stages_of p (levels_of p)) (ad_consumer_call_id d)"
proof -
  obtain ch where "ch \<in> set (artifact_channels p)" "d = delivery_of p ch" using assms(3) by auto
  then show ?thesis using delivery_forward [OF assms(1) _ levels_of_good(2) [OF assms(1,2)]] by blast
qed

lemma compiled_producer:
  assumes ok: "protocol_ok p" and top: "topology_ok p" and calls: "calls_of t p (levels_of p) = pre @ c # rest"
    and d: "d \<in> set (deliveries_of p)"
    and less: "call_stage (stages_of p (levels_of p)) (ad_producer_call_id d) < call_stage (stages_of p (levels_of p)) (call_id c)"
  shows "\<exists>q\<in>set pre. ad_artifact_id d \<in> aw_artifact_id ` set (artifact_writes q)"
proof -
  obtain ch where ch: "ch \<in> set (artifact_channels p)" "d = delivery_of p ch" using d by auto
  let ?q = "initial_call_of t p (producer_actor_id ch)"
  have q: "?q \<in> set (calls_of t p (levels_of p))"
    using compiled_calls_in(1) [OF ok top] protocol_ok_parts(5) [OF ok ch(1)] by blast
  have "?q \<in> set pre"
    by (rule compiled_earlier [OF ok top calls q]) (use less ch(2) in \<open>simp add: delivery_of_def\<close>)
  moreover have "ad_artifact_id d \<in> aw_artifact_id ` set (artifact_writes ?q)"
  proof -
    have "map aw_artifact_id (writes_of t p i) =
        map (\<lambda>c. artifact_id_of (channel_id c)) (filter (\<lambda>c. producer_actor_id c = i) (artifact_channels p))" for i
      by (simp add: writes_of_def)
    then have "aw_artifact_id ` set (writes_of t p (producer_actor_id ch)) = (\<lambda>c. artifact_id_of (channel_id c)) `
        {c \<in> set (artifact_channels p). producer_actor_id c = producer_actor_id ch}"
      by (metis list.set_map set_filter)
    then show ?thesis using ch by (auto simp: delivery_of_def)
  qed
  ultimately show ?thesis by blast
qed

section \<open>Compiled plans are runnable\<close>

lemma artifact_refs_of:
  "filter (\<lambda>r. source_kind r = SourceArtifact) (map task_context_read vs @ map artifact_read ds) = map artifact_read ds"
  "filter (\<lambda>r. source_kind r = SourceArtifact) (map task_context_read vs) = []"
  "filter (\<lambda>r. source_kind r = SourceArtifact) (map artifact_read ds) = map artifact_read ds"
proof -
  show 2: "filter (\<lambda>r. source_kind r = SourceArtifact) (map task_context_read vs) = []" by (auto simp: filter_empty_conv)
  show 3: "filter (\<lambda>r. source_kind r = SourceArtifact) (map artifact_read ds) = map artifact_read ds" by (auto intro!: filter_True)
  show "filter (\<lambda>r. source_kind r = SourceArtifact) (map task_context_read vs @ map artifact_read ds) = map artifact_read ds"
    by (simp only: filter_append 2 3 append_Nil)
qed

lemma compiled_artifact_refs:
  "artifact_refs (initial_call_of t p i) = map ad_artifact_id (deliveries_to (deliveries_of p) (initial_call_id i))"
  "artifact_refs (revision_call_of p r) = map ad_artifact_id
     (deliveries_to (deliveries_of p) (initial_call_id (final_actor p)) @
      deliveries_to (deliveries_of p) (revision_call_id (final_actor p)))"
  by (simp_all add: initial_call_of_def revision_call_of_def Let_def artifact_refs_of)

lemma delivered_artifacts_distinct:
  assumes "protocol_ok p" and "distinct ds" and "set ds \<subseteq> set (deliveries_of p)"
  shows "distinct (map ad_artifact_id ds)"
  using assms delivery_unique [OF assms(1)] by (auto simp: distinct_map inj_on_def subset_iff)

lemma compiled_refs_distinct:
  assumes "protocol_ok p" and "topology_ok p" and "c \<in> set (calls_of t p (levels_of p))"
  shows "distinct (artifact_refs c)"
proof -
  have ds: "distinct (deliveries_of p)"
    by (rule distinct_map [THEN iffD1, THEN conjunct1, OF delivery_key_of [OF protocol_ok_parts(3) [OF assms(1)]]])
  from assms show ?thesis
  proof (cases rule: compiled_call_cases)
    case (initial i)
    show ?thesis unfolding initial(2) compiled_artifact_refs
      by (rule delivered_artifacts_distinct [OF assms(1)]) (use ds in \<open>auto simp: deliveries_to_def\<close>)
  next
    case (revision r)
    show ?thesis unfolding revision(2) compiled_artifact_refs
      by (rule delivered_artifacts_distinct [OF assms(1)]) (use ds in \<open>auto simp: deliveries_to_def\<close>)
  qed
qed

lemma compiled_reads_ready:
  assumes ok: "protocol_ok p" and top: "topology_ok p" and calls: "calls_of t p (levels_of p) = pre @ c # rest"
    and r: "r \<in> set (context_reads c)"
  shows "read_ready (plan_of sha t p m) pre c r"
proof -
  let ?sts = "stages_of p (levels_of p)"
  note good = levels_of_good(2) [OF ok top]
  have c: "c \<in> set (calls_of t p (levels_of p))" by (simp add: calls)
  have task: "read_ready plan pre c (task_context_read v)" for plan v
    by (cases v) (simp_all add: read_ready_def)
  have direct: "read_ready (plan_of sha t p m) pre c (artifact_read d)"
    if d: "d \<in> set (deliveries_of p)" "ad_consumer_call_id d = call_id c" for d
  proof -
    have "call_stage ?sts (ad_producer_call_id d) < call_stage ?sts (call_id c)"
      using deliveries_forward [OF ok top d(1)] d(2) by simp
    moreover have "(ad_artifact_id d, call_id c) \<in> set (delivery_keys (plan_of sha t p m))"
      using d(1) by (auto simp: d(2) [symmetric])
    ultimately show ?thesis
      using compiled_producer [OF ok top calls d(1)] by (simp add: read_ready_def Let_def del: delivery_keys_of)
  qed
  from ok top c show ?thesis
  proof (cases rule: compiled_call_cases)
    case (initial i)
    then show ?thesis using r task direct by (auto simp: initial_call_of_def deliveries_to_def Let_def)
  next
    case (revision rev)
    let ?init = "initial_call_id (final_actor p)"
    note fin = compiled_calls_in(1) [OF ok top protocol_ok_parts(1) [OF ok], of t]
    have before: "initial_call_of t p (final_actor p) \<in> set pre"
      by (rule compiled_earlier [OF ok top calls fin])
        (use compiled_actor_calls_earlier [OF ok top revision(1)] revision(2) in simp)
    then have prior: "?init \<in> call_id ` set pre" by force
    have again: "read_ready (plan_of sha t p m) pre c (artifact_read d)"
      if d: "d \<in> set (deliveries_of p)" "ad_consumer_call_id d = ?init" for d
    proof -
      have "call_stage ?sts (ad_producer_call_id d) < call_stage ?sts ?init"
        using deliveries_forward [OF ok top d(1)] d(2) by simp
      then have "call_stage ?sts (ad_producer_call_id d) < call_stage ?sts (call_id c)"
        using compiled_actor_calls_earlier [OF ok top revision(1)] revision(2) by simp
      moreover have "(ad_artifact_id d, ?init) \<in> set (delivery_keys (plan_of sha t p m))"
        using d(1) by (auto simp: d(2) [symmetric])
      ultimately show ?thesis
        using compiled_producer [OF ok top calls d(1)] compiled_retained [OF ok top revision(1) d, of sha t m] prior revision(2)
        by (auto simp: read_ready_def Let_def simp del: delivery_keys_of)
    qed
    have "read_ready (plan_of sha t p m) pre c
        \<lparr>read_id = ''prior.'' @ ?init, source_kind = SourcePriorOutput, source_ref = ?init\<rparr>"
      using prior by (simp add: read_ready_def)
    with r task direct again revision(2) show ?thesis
      by (auto simp: revision_call_of_def deliveries_to_def Let_def)
  qed
qed

lemma plan_runnable:
  assumes ok: "protocol_ok p" and top: "topology_ok p"
  shows "runnable (plan_of sha t p m)"
  unfolding runnable_def plan_of_fields
proof (intro conjI allI impI ballI)
  note parts = good_levels_parts [OF levels_of_good(2) [OF ok top]]
  show "distinct (map call_id (calls_of t p (levels_of p)))" by (rule distinct_call_ids [OF parts(2)])
  show "concat (map stage_call_ids (stages_of p (levels_of p))) = map call_id (calls_of t p (levels_of p))"
    by (rule staged_call_ids [OF ok])
  show "set (depends_on_stage_ids (stages_of p (levels_of p) ! k)) \<subseteq> stage_id ` set (take k (stages_of p (levels_of p)))"
    if "k < length (stages_of p (levels_of p))" for k
    using stage_dependencies [OF ok top that] that by (simp add: stages_of_ids min_def)
  show "distinct (artifact_refs c)" if "calls_of t p (levels_of p) = pre @ c # rest" for pre c rest
    by (rule compiled_refs_distinct [OF ok top, where t = t]) (simp add: that)
  show "read_ready (plan_of sha t p m) pre c r"
    if "calls_of t p (levels_of p) = pre @ c # rest" "r \<in> set (context_reads c)" for pre c rest r
    by (rule compiled_reads_ready [OF ok top that])
  show "\<exists>c\<in>set (calls_of t p (levels_of p)). call_id c = snd k \<and> fst k \<in> set (artifact_refs c)"
    if k: "k \<in> set (delivery_keys (plan_of sha t p m))" for k
  proof -
    obtain d where d: "d \<in> set (deliveries_of p)" "k = (ad_artifact_id d, ad_consumer_call_id d)"
      using k by (auto simp: delivery_keys_def)
    obtain c where c: "c \<in> set (calls_of t p (levels_of p))" "call_id c = ad_consumer_call_id d"
      "artifact_read d \<in> set (context_reads c)" using delivery_is_read [OF ok levels_of_good(2) [OF ok top] d(1)] by blast
    then have "ad_artifact_id d \<in> set (artifact_refs c)" by force
    with c d(2) show ?thesis by auto
  qed
  have "final_call_id p \<in> set (map call_id (filter emits_final_patch (calls_of t p (levels_of p))))"
    by (simp only: final_calls [OF ok levels_of_good(2) [OF ok top]]) simp
  then show "\<exists>c\<in>set (calls_of t p (levels_of p)). call_id c = final_actor_call_id (termination_of t p) \<and> emits_final_patch c"
    by (auto simp: termination_of_def)
qed

end
