(* ===== verification/ErrorKinds.thy ===== *)
theory ErrorKinds
  imports Provider
begin

text \<open>
  Which exceptions the ledger and the provider controller raise: a \<open>CompositeRuntimeError\<close> is never
  one of them, so every such error of a run was raised by the runtime itself. The collection
  \<open>plain_intros\<close> propagates this through results and programs.
\<close>

named_theorems plain_intros \<open>code that raises no CompositeRuntimeError\<close>

fun is_runtime_error :: "exn \<Rightarrow> bool" where
  "is_runtime_error (CompositeRuntimeError k m) = True"
| "is_runtime_error _ = False"

section \<open>Results\<close>

definition plain :: "'a res \<Rightarrow> bool" where
  "plain r \<longleftrightarrow> (\<forall>e. r = Inl e \<longrightarrow> \<not> is_runtime_error e)"

lemma plain_simps [simp]: "plain (Inl e) \<longleftrightarrow> \<not> is_runtime_error e" "plain (Inr a)"
  by (simp_all add: plain_def)

lemma plain_bind [plain_intros]: "plain m \<Longrightarrow> (\<And>a. plain (f a)) \<Longrightarrow> plain (bindE m f)"
  by (cases m) (simp_all add: bindE_def)

lemma plain_then [plain_intros]: "plain m \<Longrightarrow> plain n \<Longrightarrow> plain (thenE m n)"
  by (cases m) (simp_all add: thenE_def bindE_def)

lemma plain_raise_if [plain_intros]: "\<not> is_runtime_error e \<Longrightarrow> plain (raise_if b e)"
  by (simp add: raise_if_def)

lemma plain_validated [plain_intros]: "plain m \<Longrightarrow> plain (validated m)"
proof -
  have "is_runtime_error (to_validation e) = is_runtime_error e" for e by (cases e) simp_all
  then show "plain m \<Longrightarrow> plain (validated m)" by (cases m) (simp_all add: validated_def catchE_def)
qed

lemma plain_for [plain_intros]: "(\<And>x. x \<in> set xs \<Longrightarrow> plain (f x)) \<Longrightarrow> plain (forE f xs)"
  by (induction xs) (auto intro!: plain_intros)

lemma plain_map [plain_intros]: "(\<And>x. x \<in> set xs \<Longrightarrow> plain (f x)) \<Longrightarrow> plain (mapE f xs)"
  by (induction xs) (auto intro!: plain_intros)

lemma plain_if [plain_intros]: "(b \<Longrightarrow> plain m) \<Longrightarrow> (\<not> b \<Longrightarrow> plain n) \<Longrightarrow> plain (if b then m else n)"
  by simp

section \<open>Numbers and the ledger\<close>

lemma plain_floats [plain_intros]:
  "plain (require_finite_float f)" "plain (int_to_float i)" "plain (float_trunc f)" "plain (float_ceil f)"
  "plain (float_floor f)" "plain (float_div f g)" "plain (int_div i j)"
  by (simp_all add: require_finite_float_def int_to_float_def float_trunc_def float_ceil_def float_floor_def
      float_div_def int_div_def Let_def thenE_def bindE_def)

lemma plain_numbers [plain_intros]: "plain (num_float a)" "plain (num_add a b)" "plain (num_sub a b)" "plain (num_int a)"
  by (cases a; cases b; auto intro!: plain_intros)+

lemma plain_checks [plain_intros]:
  "plain (require_nonnegative n v)" "plain (require_nonnegative_float n f)" "plain (require_capacity n a b c d)"
  "plain (require_time l now)" "plain (require_accounting l n)" "plain (require_count_capacity l m i)"
  "plain (require_ge0 i n)" "plain (require_gt0 i n)" "plain (require_count v')" "plain (require_cost f)"
  unfolding require_nonnegative_def require_nonnegative_float_def require_capacity_def require_time_def
    require_accounting_def require_count_capacity_def wall_time_left_def require_ge0_def require_gt0_def
    require_count_def require_cost_def
  by (auto intro!: plain_intros split: option.split)

lemma plain_times [plain_intros]: "plain (remaining_wall_time_ms l now)" "plain (provider_timeout_ms l now)"
  unfolding remaining_wall_time_ms_def provider_timeout_ms_def wall_time_left_def by (auto intro!: plain_intros)

lemma plain_snapshot [plain_intros]: "plain (snapshot l now)"
  unfolding snapshot_def validate_snapshot_def Let_def by (auto intro!: plain_intros)

lemma plain_reserve [plain_intros]: "plain (fst (reserve_provider_call l now q))"
proof -
  have "plain (thenE (check_provider_request q) (check_provider_capacity l now q))"
    unfolding check_provider_request_def check_provider_capacity_def by (auto intro!: plain_intros)
  then show ?thesis by (auto simp: reserve_provider_call_def store_reservation_def split: sum.split)
qed

lemma plain_pop: "plain (fst (pop_reservation l r k))"
  by (simp add: pop_reservation_def split: option.split)

lemma plain_cancel [plain_intros]: "plain (fst (cancel_reservation l now r))"
  using plain_pop [of l r "res_kind r"] plain_snapshot
  by (auto simp: cancel_reservation_def split: prod.split sum.split)

lemma plain_record [plain_intros]: "plain (fst (record_and_snapshot l now))"
proof -
  have "plain (fst (record_violations cs vs))" for cs vs
  proof (induction cs arbitrary: vs)
    case (Cons c cs)
    obtain n a b where c: "c = (n, a, b)" by (cases c) auto
    have "plain (num_add b (NFloat float_tolerance))" by (rule plain_numbers)
    then show ?case using Cons by (auto simp: c split: sum.split)
  qed simp
  from this [of "ceiling_checks l" "violations l"] show ?thesis using plain_snapshot
    by (auto simp: record_and_snapshot_def split: prod.split sum.split)
qed

lemma plain_complete [plain_intros]: "plain (fst (complete_provider_call l now r u latency sent))"
proof -
  have "plain (check_completion latency u sent)" unfolding check_completion_def by (auto intro!: plain_intros)
  then show ?thesis using plain_pop [of l r ProviderKind] plain_snapshot plain_record
    by (auto simp: complete_provider_call_def Let_def split: prod.split sum.split)
qed

lemma plain_failure [plain_intros]: "plain (fst (complete_provider_failure l now r sent u latency))"
  by (simp add: complete_provider_failure_def plain_complete)

section \<open>Programs\<close>

definition plainS :: "('a, 's) prog \<Rightarrow> bool" where
  "plainS m \<longleftrightarrow> (\<forall>s e t. m s = Some (Inl e, t) \<longrightarrow> \<not> is_runtime_error e)"

lemma plainS_bind [plain_intros]: "plainS m \<Longrightarrow> (\<And>a. plainS (f a)) \<Longrightarrow> plainS (bindS m f)"
  by (fastforce simp: plainS_def bindS_def split: option.splits sum.splits)

lemma plainS_then [plain_intros]: "plainS m \<Longrightarrow> plainS n \<Longrightarrow> plainS (thenS m n)"
  unfolding thenS_def by (rule plainS_bind)

lemma plainS_basic [plain_intros]: "plainS (returnS a)" "plainS (getS g)" "plainS (putS h)"
  "plain r \<Longrightarrow> plainS (liftS r)" "\<not> is_runtime_error e \<Longrightarrow> plainS (raiseS e)"
  by (auto simp: plainS_def returnS_def getS_def putS_def liftS_def raiseS_def)

lemma plainS_on [plain_intros]: "(\<And>c. plain (fst (f c))) \<Longrightarrow> plainS (onS getter setter f)"
proof -
  assume f: "\<And>c. plain (fst (f c))"
  { fix s e t assume "onS getter setter f s = Some (Inl e, t)"
    then have "fst (f (getter s)) = Inl e" by (auto simp: onS_def split: prod.splits)
    with f [of "getter s"] have "\<not> is_runtime_error e" by simp }
  then show ?thesis by (simp add: plainS_def)
qed

lemma plainS_handle [plain_intros]:
  "plainS m \<Longrightarrow> (\<And>e n. h e = Some n \<Longrightarrow> plainS n) \<Longrightarrow> plainS (handleS h m)"
  unfolding plainS_def handleS_def by (fastforce split: option.splits sum.splits prod.splits)

lemma plainS_wp: "plainS m \<Longrightarrow> wp True m (\<lambda>_ _. True) (\<lambda>e _. \<not> is_runtime_error e) s"
  by (auto simp: plainS_def wp_def split: option.splits sum.splits)

lemma plainS_world [plain_intros]: "plainS (on_world f)" "plainS (clock port)"
  unfolding clock_def on_world_def by (auto intro!: plain_intros split: prod.split)

lemma plainS_ledger [plain_intros]: "(\<And>l now. plain (fst (f l now))) \<Longrightarrow> plainS (on_ledger port f)"
  unfolding on_ledger_def by (auto intro!: plain_intros)

lemma plainS_wait [plain_intros]: "plainS (wait_for_reply port deadline)"
  by (auto simp: plainS_def wait_for_reply_def split: option.splits)

section \<open>A provider call\<close>

lemma plain_failed_result [plain_intros]: "plain (failed_result i r timeout got snap)"
  unfolding failed_result_def call_failure_def validate_failure_def validate_call_result_def
  by (auto intro!: plain_intros split: option.split)

lemma plain_settle_unknown [plain_intros]: "plainS (settle_unknown port r timeout latency i)"
  unfolding settle_unknown_def by (auto intro!: plain_intros)

lemma plain_settle [plain_intros]: "plainS (settle port r timeout started out)"
  unfolding settle_def settle_returned_def settle_error_def latency_since_def Let_def validate_call_result_def
  by (auto intro!: plain_intros split: outcome.split reply.split sum.split)

lemma plain_provider_call [plain_intros]: "plainS (provider_call port request q cred)"
  unfolding provider_call_def reserve_for_call_def dispatch_def deadline_after_def take_snapshot_def Let_def
  by (auto intro!: plain_intros split: sum.split exn.splits)

end
