(* ===== verification/RuntimeReads.thy ===== *)
theory RuntimeReads
  imports Runtime RunnablePlan ErrorKinds
begin

text \<open>
  Assembling the contexts of a runnable plan (\<open>CompositeRuntime._context_for\<close>): it never fails,
  because the store holds what the plan promises and each call is given every artifact at most
  once. First, the errors that would mean that plan and runtime disagree (\<open>internal_error\<close>): a
  result without one is \<open>external\<close>.
\<close>

section \<open>Errors that would be bugs\<close>

definition internal_kinds :: "string list" where
  "internal_kinds = [''run_already_started'', ''stage_dependency_unmet'', ''execution_order_mismatch'',
     ''delivery_reconciliation_failed'', ''prior_output_missing'', ''artifact_delivery_failed'',
     ''undeclared_task_read'', ''undeclared_session_read'', ''unknown_tool_call_owner'', ''provider_result_missing'']"

fun internal_error :: "exn \<Rightarrow> bool" where
  "internal_error (CompositeRuntimeError k m) = (k \<in> set internal_kinds)"
| "internal_error _ = False"

lemma internal_is_runtime: "internal_error e \<Longrightarrow> is_runtime_error e"
  by (cases e) simp_all

definition external :: "'a res \<Rightarrow> bool" where
  "external r \<longleftrightarrow> (\<forall>e. r = Inl e \<longrightarrow> \<not> internal_error e)"

named_theorems external_intros \<open>results without an internal error\<close>

lemma external_simps [simp]: "external (Inl e) \<longleftrightarrow> \<not> internal_error e" "external (Inr a)"
  by (simp_all add: external_def)

lemma external_plain: "plain r \<Longrightarrow> external r"
  using internal_is_runtime by (auto simp: external_def plain_def)

lemma external_bind [external_intros]: "external m \<Longrightarrow> (\<And>a. external (f a)) \<Longrightarrow> external (bindE m f)"
  by (cases m) (simp_all add: bindE_def)

lemma external_then [external_intros]: "external m \<Longrightarrow> external n \<Longrightarrow> external (thenE m n)"
  by (cases m) (simp_all add: thenE_def bindE_def)

lemma external_reject [external_intros]: "k \<notin> set internal_kinds \<Longrightarrow> external (reject_if b k m)"
  by (simp add: reject_if_def raise_if_def)

lemma external_if [external_intros]: "(b \<Longrightarrow> external m) \<Longrightarrow> (\<not> b \<Longrightarrow> external n) \<Longrightarrow> external (if b then m else n)"
  by simp

lemma external_runtime_error [external_intros]: "k \<notin> set internal_kinds \<Longrightarrow> external (runtime_error k m)"
  by (simp add: runtime_error_def)

lemma wp_lift_external:
  "(\<And>a. r = Inr a \<Longrightarrow> Q a s) \<Longrightarrow> (\<And>e. r = Inl e \<Longrightarrow> E e s) \<Longrightarrow> wp d (liftS r) Q E s"
  by (cases r) (simp_all add: wp_lift)

lemma wp_reject [wp_simps]: "wp d (rejectS b k m) Q E = (if b then E (CompositeRuntimeError k m) else Q ())"
  by (simp add: rejectS_def wp_raise_if)

lemma external_request_for: "external (request_for sha plan t run_id c x turn results)"
proof -
  have b: "plain (bind_request sha r)" for r
    unfolding bind_request_def require_share_def by (auto intro!: plain_intros)
  have s: "plain (settle_estimate sha n r e)" for n r e
    by (induction n arbitrary: r e) (auto simp: Let_def intro!: plain_intros b)
  have e: "plain (estimated_request sha r)" for r
    unfolding estimated_request_def by (auto intro!: plain_intros b s)
  show ?thesis
    unfolding request_for_def call_share_bps_def token_limit_def limit_share_def
    by (intro external_intros) (auto intro!: external_plain plain_intros e simp: internal_kinds_def)
qed

lemma external_catch [external_intros]:
  "external m \<Longrightarrow> \<not> internal_error e \<Longrightarrow> external (catchE p (\<lambda>_. e) m)"
  by (cases m) (simp_all add: catchE_def)

lemma plain_fields [plain_intros]:
  "plain (str_field j)" "plain (str_dict_field j)" "plain (optional_str_field j)"
proof -
  show s: "plain (str_field j)" for j by (cases j rule: str_field.cases) (simp_all add: field_error_def)
  show "plain (str_dict_field j)"
    by (cases j rule: str_dict_field.cases) (auto intro!: plain_intros s simp: field_error_def)
  show "plain (optional_str_field j)"
    by (cases j rule: optional_str_field.cases) (simp_all add: field_error_def)
qed

lemma plain_parses [plain_intros]: "plain (parse_output es)" "plain (parse_terminal es)" "plain (parse_tool_request es)"
proof -
  have k: "plain (known_fields ns es)" for ns es unfolding known_fields_def by (auto intro!: plain_intros)
  show o: "plain (parse_output es)" for es unfolding parse_output_def by (auto intro!: plain_intros k)
  show "plain (parse_terminal es)" unfolding parse_terminal_def
    by (auto intro!: plain_intros k o simp: field_error_def split: option.split json.split)
  show "plain (parse_tool_request es)" unfolding parse_tool_request_def
    by (auto intro!: plain_intros k simp: field_error_def split: option.split json.split)
qed

lemma external_parse_turn: "external (parse_actor_turn r)"
proof (cases r)
  case (RawMapping es)
  have "plain (parse_actor_turn r)" unfolding RawMapping by (auto intro!: plain_intros)
  then show ?thesis by (rule external_plain)
qed (auto intro!: external_intros simp: internal_kinds_def)

section \<open>Assembling a context\<close>

text \<open>The store when the calls \<open>pre\<close> are done and the call \<open>c\<close> has read the artifacts \<open>refs\<close>.\<close>

definition sources_ready :: "run_plan \<Rightarrow> actor_call list \<Rightarrow> string \<Rightarrow> string list \<Rightarrow> artifact_store \<Rightarrow> bool" where
  "sources_ready plan pre cid refs st \<longleftrightarrow> delivery_plans st = artifact_deliveries plan \<and>
     set (delivered_keys st) = {k \<in> set (delivery_keys plan). snd k \<in> call_id ` set pre \<or> snd k = cid \<and> fst k \<in> set refs} \<and>
     (\<forall>a. set (actual_readers st a) \<subseteq> call_id ` set pre \<union> (if a \<in> set refs then {cid} else {})) \<and>
     (\<forall>p\<in>set pre. \<forall>w\<in>set (artifact_writes p). stored_at st (aw_artifact_id w) \<noteq> None)"

lemma deliver_ready:
  assumes st: "sources_ready plan pre cid refs st" and key: "(a, cid) \<in> set (delivery_keys plan)"
    and new: "cid \<notin> call_id ` set pre" "a \<notin> set refs"
    and p: "p \<in> set pre" "a \<in> aw_artifact_id ` set (artifact_writes p)"
  shows "\<exists>e st'. store_deliver st a cid = (Inr e, st') \<and> sources_ready plan pre cid (refs @ [a]) st'"
proof -
  have "stored_at st a \<noteq> None" using st p by (force simp: sources_ready_def)
  then obtain e where "stored_at st a = Some e" by blast
  moreover have "find (\<lambda>d. delivery_key d = (a, cid)) (delivery_plans st) \<noteq> None"
    using st key by (auto simp: sources_ready_def find_None_iff delivery_keys_def delivery_key_def)
  moreover have nd: "(a, cid) \<notin> set (delivered_keys st)" using st new by (auto simp: sources_ready_def)
  ultimately have "\<not> isl (fst (store_deliver st a cid))"
    by (auto simp: store_deliver_def stored_at_def Let_def split: option.split)
  then obtain d st' where d: "store_deliver st a cid = (Inr d, st')"
    by (cases "store_deliver st a cid"; cases "fst (store_deliver st a cid)") auto
  then show ?thesis
  proof (cases rule: store_deliver_cases)
    case (2 dp b)
    have r: "set (add_reader a cid (actual_readers st) x) = set (actual_readers st x) \<union> (if x = a then {cid} else {})" for x
      by (simp add: add_reader_def)
    have "sources_ready plan pre cid (refs @ [a]) st'"
      using st key new unfolding sources_ready_def 2(6)
      by (auto simp: r stored_at_def split: if_splits)
    with d show ?thesis by blast
  qed simp
qed

lemma retained_ready:
  assumes st: "sources_ready plan pre cid refs st" and new: "cid \<notin> call_id ` set pre" "a \<notin> set refs"
    and p: "p \<in> set pre" "a \<in> aw_artifact_id ` set (artifact_writes p)" and key: "(a, cid) \<notin> set (delivery_keys plan)"
  shows "\<exists>e st'. read_retained st a cid = (Inr e, st') \<and> sources_ready plan pre cid (refs @ [a]) st'"
proof -
  have "stored_at st a \<noteq> None" using st p by (force simp: sources_ready_def)
  then obtain e where e: "stored_at st a = Some e" by blast
  have "set (actual_readers st a) \<subseteq> call_id ` set pre \<union> (if a \<in> set refs then {cid} else {})"
    using st by (simp add: sources_ready_def)
  then have n: "cid \<notin> set (actual_readers st a)" using new by auto
  have r: "set (add_reader a cid (actual_readers st) x) = set (actual_readers st x) \<union> (if x = a then {cid} else {})" for x
    by (simp add: add_reader_def)
  have "sources_ready plan pre cid (refs @ [a]) (st\<lparr>actual_readers := add_reader a cid (actual_readers st)\<rparr>)"
    using st key new unfolding sources_ready_def
    by (auto simp: r stored_at_def split: if_splits)
  then show ?thesis using e n by (auto simp: read_retained_def store_artifact_def stored_at_def)
qed


definition read_done :: "sha256 \<Rightarrow> run_plan \<Rightarrow> actor_call list \<Rightarrow> string \<Rightarrow> string list \<Rightarrow> 'w run_state \<Rightarrow> 'w run_state \<Rightarrow> bool" where
  "read_done sha plan pre cid refs s t \<longleftrightarrow> (\<exists>st. t = s\<lparr>rs_artifacts := st\<rparr> \<and> sources_ready plan pre cid refs st \<and>
     (store_step sha)\<^sup>*\<^sup>* (rs_artifacts s) st)"

lemma read_done_trans:
  "read_done sha plan pre cid refs s t \<Longrightarrow> read_done sha plan pre cid refs' t u \<Longrightarrow> read_done sha plan pre cid refs' s u"
  unfolding read_done_def by (auto intro: rtranclp_trans)

lemma on_store_rule:
  "f (rs_artifacts s) = (Inr a, st) \<Longrightarrow> Q a (s\<lparr>rs_artifacts := st\<rparr>) \<Longrightarrow> wp d (on_store f) Q E s"
  by (simp add: on_store_def wp_on)

lemma read_artifact_rule:
  assumes st: "sources_ready plan pre (call_id c) refs (rs_artifacts s)" and kind: "source_kind r = SourceArtifact"
    and ready: "read_ready plan pre c r" and new: "call_id c \<notin> call_id ` set pre" "source_ref r \<notin> set refs"
  shows "wp False (read_artifact sha plan c r) (\<lambda>x t. ar_read_id x = read_id r \<and>
    read_done sha plan pre (call_id c) (refs @ [source_ref r]) s t) (\<lambda>_ _. False) s"
proof -
  let ?a = "source_ref r"
  obtain p where p: "p \<in> set pre" "?a \<in> aw_artifact_id ` set (artifact_writes p)"
    using ready kind by (auto simp: read_ready_def Let_def)
  show ?thesis
  proof (cases "(?a, call_id c) \<in> set (delivery_keys plan)")
    case True
    obtain e st' where d: "store_deliver (rs_artifacts s) ?a (call_id c) = (Inr e, st')"
      "sources_ready plan pre (call_id c) (refs @ [?a]) st'"
      using deliver_ready [OF st True new p] by blast
    have "store_step sha (rs_artifacts s) st'" using step_deliver [of sha "rs_artifacts s" ?a "call_id c"] d(1) by simp
    then show ?thesis using True d
      by (auto simp: read_artifact_def Let_def wp_simps read_done_def intro!: on_store_rule [where a = e and st = st'])
  next
    case False
    then obtain prior where prior: "retained_artifact_source plan ?a c = Inr (Some prior)" "prior \<in> call_id ` set pre"
      "(?a, prior) \<in> set (delivery_keys plan)" using ready kind by (auto simp: read_ready_def Let_def)
    then have w: "was_delivered (rs_artifacts s) ?a prior" using st by (auto simp: was_delivered_def sources_ready_def)
    obtain e st' where d: "read_retained (rs_artifacts s) ?a (call_id c) = (Inr e, st')"
      "sources_ready plan pre (call_id c) (refs @ [?a]) st'"
      using retained_ready [OF st new p False] by blast
    have "store_step sha (rs_artifacts s) st'" using step_retained [of sha "rs_artifacts s" ?a "call_id c"] d(1) by simp
    then show ?thesis using False prior(1) w d
      by (auto simp: read_artifact_def Let_def wp_simps read_done_def intro!: on_store_rule [where a = e and st = st'])
  qed
qed

text \<open>All the reads of a call, when the outputs of the calls before it are there.\<close>

definition outputs_ready :: "actor_call list \<Rightarrow> 'w run_state \<Rightarrow> bool" where
  "outputs_ready pre s \<longleftrightarrow> (\<forall>i. map_of (rs_outputs s) i \<noteq> None \<longleftrightarrow> i \<in> call_id ` set pre)"

lemma resolve_read_rule:
  assumes st: "sources_ready (rc_plan cfg) pre (call_id c) refs (rs_artifacts s)" and out: "outputs_ready pre s"
    and ready: "read_ready (rc_plan cfg) pre c r" and new: "call_id c \<notin> call_id ` set pre"
    and art: "source_kind r = SourceArtifact \<Longrightarrow> source_ref r \<notin> set refs"
  shows "wp False (resolve_read sha cfg c r) (\<lambda>x t. ar_read_id x = read_id r \<and>
    read_done sha (rc_plan cfg) pre (call_id c) (refs @ (if source_kind r = SourceArtifact then [source_ref r] else [])) s t)
    (\<lambda>_ _. False) s"
proof (cases "source_kind r = SourceArtifact")
  case True
  then show ?thesis using read_artifact_rule [OF st True ready new art [OF True]] by (simp add: resolve_read_def)
next
  case False
  have same: "read_done sha (rc_plan cfg) pre (call_id c) refs s s" unfolding read_done_def
    by (rule exI [of _ "rs_artifacts s"]) (simp add: st)
  have prior: "\<exists>out. map_of (rs_outputs s) (source_ref r) = Some out" if "source_kind r = SourcePriorOutput"
    using ready out that by (auto simp: read_ready_def outputs_ready_def)
  show ?thesis using False ready same prior
    by (cases "source_kind r")
      (auto simp: resolve_read_def read_ready_def new_read_def task_read_value_def wp_simps split: option.split)
qed

lemma reads_rule:
  assumes st: "sources_ready (rc_plan cfg) pre (call_id c) [] (rs_artifacts s)" and out: "outputs_ready pre s"
    and ready: "\<forall>r\<in>set (context_reads c). read_ready (rc_plan cfg) pre c r"
    and new: "call_id c \<notin> call_id ` set pre" and refs: "distinct (artifact_refs c)"
  shows "wp False (mapS (resolve_read sha cfg c) (context_reads c)) (\<lambda>xs t. map ar_read_id xs = map read_id (context_reads c) \<and>
    read_done sha (rc_plan cfg) pre (call_id c) (artifact_refs c) s t) (\<lambda>_ _. False) s"
proof (rule wp_map [where I = "\<lambda>done xs t. map ar_read_id xs = map read_id done \<and> read_done sha (rc_plan cfg) pre (call_id c)
    (map source_ref (filter (\<lambda>r. source_kind r = SourceArtifact) done)) s t"])
  fix dn r rest t and xs :: "actual_read list"
  assume split: "context_reads c = dn @ r # rest" and inv: "map ar_read_id xs = map read_id dn \<and>
    read_done sha (rc_plan cfg) pre (call_id c) (map source_ref (filter (\<lambda>r. source_kind r = SourceArtifact) dn)) s t"
  let ?refs = "map source_ref (filter (\<lambda>r. source_kind r = SourceArtifact) dn)"
  have t: "sources_ready (rc_plan cfg) pre (call_id c) ?refs (rs_artifacts t)" "outputs_ready pre t"
    using inv out by (auto simp: read_done_def outputs_ready_def)
  have "wp False (resolve_read sha cfg c r) (\<lambda>x u. ar_read_id x = read_id r \<and>
    read_done sha (rc_plan cfg) pre (call_id c) (?refs @ (if source_kind r = SourceArtifact then [source_ref r] else [])) t u)
    (\<lambda>_ _. False) t"
    by (rule resolve_read_rule [OF t _ new]) (use split ready refs in auto)
  then show "wp False (resolve_read sha cfg c r) (\<lambda>x u. map ar_read_id (xs @ [x]) = map read_id (dn @ [r]) \<and>
      read_done sha (rc_plan cfg) pre (call_id c)
        (map source_ref (filter (\<lambda>r. source_kind r = SourceArtifact) (dn @ [r]))) s u) (\<lambda>_ _. False) t"
    by (rule wp_mono) (use inv in \<open>auto intro: read_done_trans split: if_splits\<close>)
next
  show "map ar_read_id ([] :: actual_read list) = map read_id [] \<and> read_done sha (rc_plan cfg) pre (call_id c)
      (map source_ref (filter (\<lambda>r. source_kind r = SourceArtifact) [])) s s"
    using st unfolding read_done_def by (auto intro!: exI [of _ "rs_artifacts s"])
qed simp

lemma context_rule:
  assumes "sources_ready (rc_plan cfg) pre (call_id c) [] (rs_artifacts s)" and "outputs_ready pre s"
    and "\<forall>r\<in>set (context_reads c). read_ready (rc_plan cfg) pre c r"
    and "call_id c \<notin> call_id ` set pre" and "distinct (artifact_refs c)"
  shows "wp False (context_for sha cfg c) (\<lambda>x t. cx_call_id x = call_id c \<and> map ar_read_id (cx_reads x) = map read_id (context_reads c) \<and>
    (\<exists>u. read_done sha (rc_plan cfg) pre (call_id c) (artifact_refs c) s u \<and> t = u\<lparr>rs_contexts := rs_contexts s @ [x]\<rparr>))
    (\<lambda>_ _. False) s"
  unfolding context_for_def wp_bind
  by (rule wp_mono [OF reads_rule [OF assms]])
    (auto simp: Let_def wp_simps bind_manifest_def read_done_def)

end
