(* ===== verification/RuntimeTurns.thy ===== *)
theory RuntimeTurns
  imports RuntimeReads
begin

text \<open>
  The turns of a call (\<open>CompositeRuntime._execute_call\<close>): a call ends with a checked output after
  at most \<open>max_model_calls\<close> rounds, whose reported usage is exactly what the provider metrics of the
  ledger gain. The provider and the tools are arbitrary, up to the contract \<open>tools_contract\<close> of the
  repair tools.
\<close>

section \<open>Turns\<close>

text \<open>What the injected tools promise: they use the ledger only through its own operations and charge
  only tool metrics, and their errors are their own.\<close>

definition tool_ledger :: "ledger \<Rightarrow> ledger \<Rightarrow> bool" where
  "tool_ledger l l' \<longleftrightarrow> ledger_step\<^sup>*\<^sup>* l l' \<and>
     (\<forall>m. m \<noteq> ToolCalls \<longrightarrow> m \<noteq> ToolOutputBytes \<longrightarrow> total_of m (totals l') = total_of m (totals l))"

definition tools_contract :: "'w tools \<Rightarrow> bool" where
  "tools_contract tools \<longleftrightarrow>
     (\<forall>cid tool args rid l w r l' w'. ti_invoke tools cid tool args rid l w = (r, l', w') \<longrightarrow> tool_ledger l l' \<and> plain r) \<and>
     (\<forall>cid l w r l' w'. ti_verify tools cid l w = (r, l', w') \<longrightarrow> tool_ledger l l' \<and> plain r) \<and>
     (\<forall>n w. plain (fst (ti_workspace_diff tools n w))) \<and> (\<forall>w. plain (fst (ti_workspace_digest tools w))) \<and>
     (\<forall>w. plain (fst (ti_source_unchanged tools w))) \<and> (\<forall>w. plain (fst (ti_base_unchanged tools w))) \<and>
     (\<forall>w. plain (fst (ti_receipts tools w)))"

definition env_contract :: "'w run_env \<Rightarrow> bool" where
  "env_contract env \<longleftrightarrow> typed_errors (re_port env) \<and> (\<forall>tools. re_tools env = Some tools \<longrightarrow> tools_contract tools)"

definition rounds_usage :: "metric \<Rightarrow> round_evidence list \<Rightarrow> int" where
  "rounds_usage m rounds = sum_list (map (\<lambda>r. usage_amount (pr_usage r) m) rounds)"

definition turn_inv :: "'w run_state \<Rightarrow> round_evidence list \<Rightarrow> 'w run_state \<Rightarrow> bool" where
  "turn_inv s0 rounds s \<longleftrightarrow> ledger_run s0 s \<and> (\<forall>m. m \<noteq> ToolCalls \<longrightarrow> m \<noteq> ToolOutputBytes \<longrightarrow>
     total_of m (totals (cs_ledger s)) = total_of m (totals (cs_ledger s0)) + rounds_usage m rounds)"

lemma turn_inv_world [simp]: "turn_inv s0 rounds (s\<lparr>cs_world := w\<rparr>) \<longleftrightarrow> turn_inv s0 rounds s"
  by (simp add: turn_inv_def)

lemma turn_inv_tool: "turn_inv s0 rounds s \<Longrightarrow> tool_ledger (cs_ledger s) l \<Longrightarrow> turn_inv s0 rounds (s\<lparr>cs_ledger := l, cs_world := w\<rparr>)"
  by (auto simp: turn_inv_def tool_ledger_def ledger_run_def)

lemma wp_errors: "wp True m Q E s \<Longrightarrow> plainS m \<Longrightarrow> wp True m Q (\<lambda>e t. \<not> internal_error e) s"
  using internal_is_runtime by (fastforce simp: wp_def plainS_def split: option.splits sum.splits)

lemma reservation_rule:
  assumes "\<And>r w. Q r (s\<lparr>cs_world := w\<rparr>)"
  shows "wp True (request_reservation_for env q) Q (\<lambda>e t. \<not> internal_error e) s"
proof (cases "re_reserve env")
  case None
  have "plain (validate_request_reservation x)" for x
    unfolding validate_request_reservation_def by (auto intro!: plain_intros split: option.split)
  moreover have "Q r s" for r using assms [of r "cs_world s"] by simp
  ultimately show ?thesis
    by (auto simp: request_reservation_for_def None intro!: wp_lift_external dest: external_plain simp: external_def)
      (metis external_def external_plain)
next
  case (Some f)
  show ?thesis using assms
    by (auto simp: request_reservation_for_def Some wp_simps on_tools_def internal_kinds_def split: prod.split sum.split)
qed

lemma call_ended_usage:
  assumes "call_ended s q r t" and "cr_status r = Succeeded" and "\<not> rq_is_retry q"
  obtains v i where "cr_invocation r = Some v" and "cr_reservation_id r = Some i" and "ledger_run s t"
    and "\<And>m. total_of m (totals (cs_ledger t)) = total_of m (totals (cs_ledger s)) + usage_amount (inv_usage v) m"
proof -
  have call: "settled s t" "cr_reservation_id r \<noteq> None" and "\<exists>v. cr_invocation r = Some v \<and>
      (\<forall>m. total_of m (totals (cs_ledger t)) = total_of m (totals (cs_ledger s)) +
        (if m = Retries then if rq_is_retry q then 1 else 0 else usage_amount (inv_usage v) m))"
    using assms(1) unfolding call_ended_def if_P [OF assms(2)] by blast+
  then obtain v i where v: "cr_invocation r = Some v" "cr_reservation_id r = Some i"
    and m: "\<forall>m. total_of m (totals (cs_ledger t)) = total_of m (totals (cs_ledger s)) +
      (if m = Retries then if rq_is_retry q then 1 else 0 else usage_amount (inv_usage v) m)" by blast
  have "total_of m (totals (cs_ledger t)) = total_of m (totals (cs_ledger s)) + usage_amount (inv_usage v) m" for m
    using m assms(3) by (cases "m = Retries") simp_all
  moreover have "ledger_run s t" using call(1) by (simp add: settled_def)
  ultimately show thesis using that v by blast
qed

lemma provider_round_rule:
  fixes env :: "'w run_env"
  assumes ok: "ledger_ok (cs_ledger s0)" and env: "env_contract env" and inv: "turn_inv s0 rounds s"
  shows "wp True (provider_round env cfg c x cost turn results)
    (\<lambda>(request, tv, ev) t. \<forall>y. turn_inv s0 (rounds @ [ev y]) t \<and> pr_turn_index (ev y) = turn \<and>
       pr_status (ev y) = Succeeded \<and> pr_tool_request_id (ev y) = y)
    (\<lambda>e t. \<not> internal_error e) s"
proof -
  have port: "typed_errors (re_port env)" using env by (simp add: env_contract_def)
  define ended :: "int \<Rightarrow> call_request \<Rightarrow> actor_response call_result \<Rightarrow> int \<Rightarrow>
      (call_request \<times> actor_turn \<times> (string option \<Rightarrow> round_evidence), 'w) run" where "ended = (\<lambda>started (request :: call_request) (result :: actor_response call_result) finished.
    thenS (rejectS (cr_status result \<noteq> Succeeded) ''provider_call_failed'' ''provider round did not succeed'') (
     case (cr_invocation result, cr_reservation_id result) of
       (Some v, Some rid) \<Rightarrow>
         bindS (catchS (\<lambda>e. case e of CompositeRuntimeError k m \<Rightarrow> False | _ \<Rightarrow> True)
             (\<lambda>_. CompositeRuntimeError ''invalid_actor_turn'' ''provider round returned an invalid actor turn'')
             (liftS (parse_actor_turn (inv_response v)))) (\<lambda>turn_value.
         returnS (request, turn_value, (\<lambda>tool_request_id.
           \<lparr>pr_turn_index = turn, pr_request_digest = ac_request_digest request, pr_reservation_id = rid,
            pr_status = cr_status result, pr_started_at_ms = started, pr_finished_at_ms = finished,
            pr_response_id = ur_response_id (inv_usage v), pr_response_digest = turn_digest (re_sha env) turn_value,
            pr_usage = inv_usage v, pr_tool_request_id = tool_request_id\<rparr>)))
     | _ \<Rightarrow> raiseS (CompositeRuntimeError ''provider_result_missing''
         ''provider round returned no invocation evidence'')))"
  let ?Q = "\<lambda>(request, tv, ev) t. \<forall>y. turn_inv s0 (rounds @ [ev y]) t \<and> pr_turn_index (ev y) = turn \<and>
       pr_status (ev y) = Succeeded \<and> pr_tool_request_id (ev y) = y"
  let ?E = "\<lambda>e t. \<not> internal_error e"
  have fin: "wp True (ended started request result finished) ?Q ?E (t\<lparr>cs_world := w\<rparr>)"
    if e: "call_ended u q result t" and q: "\<not> rq_is_retry q" and u: "turn_inv s0 rounds u" for started request result finished t w u q
  proof (cases "cr_status result = Succeeded")
    case True
    obtain v i where v: "cr_invocation result = Some v" "cr_reservation_id result = Some i" "ledger_run u t"
      "\<And>m. total_of m (totals (cs_ledger t)) = total_of m (totals (cs_ledger u)) + usage_amount (inv_usage v) m"
      using call_ended_usage [OF e True q] by metis
    have "turn_inv s0 (rounds @ [r]) (t\<lparr>cs_world := w\<rparr>)" if "pr_usage r = inv_usage v" for r
      using u v(3,4) that ledger_run_trans by (auto simp: turn_inv_def rounds_usage_def)
    then show ?thesis using True v(1,2) external_parse_turn [of "inv_response v"]
      by (auto simp: ended_def wp_simps external_def internal_kinds_def split: sum.split exn.split)
  qed (simp add: ended_def wp_simps internal_kinds_def)
  have call: "wp True (provider_call (re_port env) request q cred)
      (\<lambda>result. wp True (read_epoch env) (\<lambda>finished. wp True (ended started request result finished) ?Q ?E) ?E) ?E u"
    if u: "turn_inv s0 rounds u" and q: "\<not> rq_is_retry q" for request q cred started u
  proof -
    have "ledger_ok (cs_ledger u)" using u ledger_run_ok ok by (auto simp: turn_inv_def)
    note r = wp_errors [OF provider_call_rule [OF this port, where request = request and q = q and cred = cred] plain_provider_call]
    show ?thesis
      by (rule wp_mono [OF r])
        (auto simp: read_epoch_def intro!: on_world_rule fin [OF _ q u])
  qed
  have eq: "provider_round env cfg c x cost turn results =
      bindS (liftS (request_for (re_sha env) (rc_plan cfg) (rc_task cfg) (rc_run_id cfg) c x turn results)) (\<lambda>request.
      bindS (request_reservation_for env request) (\<lambda>reservation.
      bindS (read_epoch env) (\<lambda>started.
      bindS (provider_call (re_port env) request (provider_request_of reservation cost) (rc_cred cfg)) (\<lambda>result.
      bindS (read_epoch env) (\<lambda>finished. ended started request result finished)))))"
    unfolding provider_round_def ended_def ..
  show ?thesis
    unfolding eq wp_bind
  proof (rule wp_lift_external)
    fix request
    show "wp True (request_reservation_for env request) (\<lambda>r. wp True (read_epoch env) (\<lambda>started.
        wp True (provider_call (re_port env) request (provider_request_of r cost) (rc_cred cfg)) (\<lambda>result.
          wp True (read_epoch env) (\<lambda>finished. wp True (ended started request result finished) ?Q ?E) ?E) ?E) ?E) ?E s"
    proof (rule reservation_rule)
      fix r w
      show "wp True (read_epoch env) (\<lambda>started. wp True (provider_call (re_port env) request (provider_request_of r cost) (rc_cred cfg))
          (\<lambda>result. wp True (read_epoch env) (\<lambda>finished. wp True (ended started request result finished) ?Q ?E) ?E) ?E)
          ?E (s\<lparr>cs_world := w\<rparr>)"
        unfolding read_epoch_def [of env]
        by (rule on_world_rule, fold read_epoch_def, rule call) (use inv in \<open>simp_all add: provider_request_of_def\<close>)
    qed
  qed (use external_request_for in \<open>auto simp: external_def\<close>)
qed

definition turns_ok :: "nat \<Rightarrow> round_evidence list \<Rightarrow> bool" where
  "turns_ok n rounds \<longleftrightarrow> length rounds \<le> n \<and> map pr_turn_index rounds = [0..<length rounds] \<and>
     (\<forall>r\<in>set rounds. pr_status r = Succeeded) \<and>
     (\<exists>ids. distinct ids \<and> map pr_tool_request_id rounds = map Some ids @ [None])"

lemma turns_ok_last: "turns_ok n rounds \<Longrightarrow> rounds \<noteq> [] \<and> last rounds \<in> set rounds"
proof -
  assume "turns_ok n rounds"
  then have "rounds \<noteq> []" by (auto simp: turns_ok_def)
  then show ?thesis by simp
qed

lemma validate_round_same: "validate_round r = Inr x \<Longrightarrow> x = r"
  by (auto simp: validate_round_def res_simps)

lemma plain_validate_round: "plain (validate_round r)"
  unfolding validate_round_def by (auto intro!: plain_intros)

lemma external_validate_output: "external (validate_output t plan c out)"
  unfolding validate_output_def require_unified_diff_def
  by (auto intro!: external_intros simp: internal_kinds_def split: option.split)

lemma external_tool_result: "external (tool_result_of q receipt)"
  unfolding tool_result_of_def by (auto intro!: external_intros simp: internal_kinds_def split: option.split)

lemma tools_invoke:
  assumes "env_contract env" and "re_tools env = Some tools" and "ti_invoke tools cid tool args rid l w = (r, l', w')"
  shows "tool_ledger l l' \<and> plain r"
proof -
  have "tools_contract tools" using assms(1,2) by (simp add: env_contract_def)
  then show ?thesis unfolding tools_contract_def using assms(3) by meson
qed

lemma tools_verify:
  assumes "env_contract env" and "re_tools env = Some tools" and "ti_verify tools cid l w = (r, l', w')"
  shows "tool_ledger l l' \<and> plain r"
proof -
  have "tools_contract tools" using assms(1,2) by (simp add: env_contract_def)
  then show ?thesis unfolding tools_contract_def using assms(3) by meson
qed

lemma invoke_rule:
  assumes inv: "turn_inv s0 rounds s" and env: "env_contract env" and found: "find_call (rc_plan cfg) cid = Some c"
  shows "wp True (invoke_tool env cfg cid q) (\<lambda>_. turn_inv s0 rounds) (\<lambda>e t. \<not> internal_error e) s"
proof -
  have "wp True (on_ledger_tools (ti_invoke tools cid tool args rid)) (\<lambda>_. turn_inv s0 rounds) (\<lambda>e t. \<not> internal_error e) s"
    if "re_tools env = Some tools" for tools tool args rid
  proof -
    obtain r l w where r: "ti_invoke tools cid tool args rid (cs_ledger s) (cs_world s) = (r, l, w)" by (metis prod_cases3)
    have "tool_ledger (cs_ledger s) l" "plain r"
      using tools_invoke [OF env that r] by simp_all
    then show ?thesis using turn_inv_tool [OF inv] internal_is_runtime
      by (auto simp: on_ledger_tools_def wp_on r plain_def split: sum.split)
  qed
  then show ?thesis using found
    by (auto simp: invoke_tool_def wp_simps internal_kinds_def split: option.split)
qed

lemma take_turns_rule:
  assumes ok: "ledger_ok (cs_ledger s0)" and env: "env_contract env"
    and found: "find_call (rc_plan cfg) (call_id c) = Some c"
    and inv: "turn_inv s0 rounds s" and turn: "length rounds = turn" "map pr_turn_index rounds = [0..<turn]"
    and rounds: "\<forall>r\<in>set rounds. pr_status r = Succeeded" "map pr_tool_request_id rounds = map Some asked" "distinct asked"
  shows "wp True (take_turns env cfg c x cost left turn results asked rounds)
    (\<lambda>(request, out, rs) t. turn_inv s0 rs t \<and> turns_ok (turn + left) rs \<and>
       validate_output (rc_task cfg) (rc_plan cfg) c out = Inr ())
    (\<lambda>e t. \<not> internal_error e) s"
  using inv turn rounds
proof (induction left arbitrary: turn results asked rounds s)
  case 0
  then show ?case by (simp add: wp_simps internal_kinds_def)
next
  case (Suc left)
  let ?Q = "\<lambda>(request, out, rs) t. turn_inv s0 rs t \<and> turns_ok (turn + Suc left) rs \<and>
       validate_output (rc_task cfg) (rc_plan cfg) c out = Inr ()"
  let ?E = "\<lambda>e t. \<not> internal_error e"
  have tool: "wp True (thenS (rejectS (tq_request_id q \<in> set asked) ''duplicate_tool_request_id'' ''call repeated tool request id'') (
         bindS (liftS (validate_round (ev (Some (tq_request_id q))))) (\<lambda>round.
         bindS (invoke_tool env cfg (call_id c) q) (\<lambda>receipt.
         bindS (liftS (tool_result_of q receipt)) (\<lambda>result.
         take_turns env cfg c x cost left (Suc turn) (results @ [result]) (asked @ [tq_request_id q])
           (rounds @ [round])))))) ?Q ?E t"
    if ev: "\<forall>y. turn_inv s0 (rounds @ [ev y]) t \<and> pr_turn_index (ev y) = turn \<and>
       pr_status (ev y) = Succeeded \<and> pr_tool_request_id (ev y) = y" for q t and ev :: "string option \<Rightarrow> round_evidence"
  proof -
    let ?r = "ev (Some (tq_request_id q))"
    have "wp True (take_turns env cfg c x cost left (Suc turn) (results @ [result]) (asked @ [tq_request_id q]) (rounds @ [?r])) ?Q ?E u"
      if "turn_inv s0 (rounds @ [?r]) u" "tq_request_id q \<notin> set asked" for u result
      using Suc.IH [of "rounds @ [?r]" u "Suc turn" "asked @ [tq_request_id q]" "results @ [result]"] that Suc.prems ev by simp
    then have next_turn: "wp True (bindS (liftS (tool_result_of q receipt)) (\<lambda>result.
         take_turns env cfg c x cost left (Suc turn) (results @ [result]) (asked @ [tq_request_id q])
           (rounds @ [?r]))) ?Q ?E u" if "turn_inv s0 (rounds @ [?r]) u" "tq_request_id q \<notin> set asked" for u receipt
      using that external_tool_result [of q receipt] by (auto simp: wp_bind external_def intro!: wp_lift_external)
    have "wp True (bindS (invoke_tool env cfg (call_id c) q) (\<lambda>receipt. bindS (liftS (tool_result_of q receipt)) (\<lambda>result.
         take_turns env cfg c x cost left (Suc turn) (results @ [result]) (asked @ [tq_request_id q])
           (rounds @ [?r])))) ?Q ?E t" if "tq_request_id q \<notin> set asked"
      unfolding wp_bind [of _ "invoke_tool env cfg (call_id c) q"]
      apply (rule wp_mono)
      by (rule wp_mono [OF invoke_rule [OF _ env found, where ?s0.0 = s0 and rounds = "rounds @ [?r]"]])
        (use ev next_turn that in auto)
    then show ?thesis using plain_validate_round [of ?r] internal_is_runtime
      by (auto simp: wp_then wp_reject wp_bind [of _ "liftS r" for r] internal_kinds_def plain_def
          dest: validate_round_same intro!: wp_lift_external)
  qed
  have terminal: "wp True (bindS (liftS (validate_round (ev None))) (\<lambda>round.
         thenS (liftS (validate_output (rc_task cfg) (rc_plan cfg) c out))
         (returnS (request, out, rounds @ [round])))) ?Q ?E t"
    if ev: "\<forall>y. turn_inv s0 (rounds @ [ev y]) t \<and> pr_turn_index (ev y) = turn \<and>
       pr_status (ev y) = Succeeded \<and> pr_tool_request_id (ev y) = y"
    for t out and ev :: "string option \<Rightarrow> round_evidence" and request :: call_request
  proof -
    have "turns_ok (turn + Suc left) (rounds @ [ev None])" unfolding turns_ok_def using Suc.prems ev by auto
    then show ?thesis using ev plain_validate_round [of "ev None"] internal_is_runtime
        external_validate_output [of "rc_task cfg" "rc_plan cfg" c out]
      by (auto simp: wp_simps plain_def external_def dest: validate_round_same split: sum.split)
  qed
  show ?case unfolding take_turns.simps wp_bind [of _ "provider_round env cfg c x cost turn results"]
    by (rule wp_mono [OF provider_round_rule [OF ok env Suc.prems(1)]])
      (auto intro!: tool terminal simp del: add_Suc_right split: actor_turn.split)
qed

end
