(* ===== verification/RuntimeSound.thy ===== *)
theory RuntimeSound
  imports RuntimeTurns
begin

text \<open>
  What a run of a runnable plan does (\<open>CompositeRuntime.run\<close>): it executes the calls in plan order,
  makes exactly the planned deliveries, never raises one of the errors that would mean that plan
  and runtime disagree, and returns with a checked patch and a ledger whose provider metrics are
  the sum of the usage in its evidence.
\<close>

section \<open>Writing the artifacts of a call\<close>

definition writes_done :: "sha256 \<Rightarrow> artifact_store \<Rightarrow> artifact_write list \<Rightarrow> artifact_store \<Rightarrow> bool" where
  "writes_done sha a ws b \<longleftrightarrow> (store_step sha)\<^sup>*\<^sup>* a b \<and> delivered_keys b = delivered_keys a \<and>
     actual_readers b = actual_readers a \<and> (\<forall>w\<in>set ws. stored_at b (aw_artifact_id w) \<noteq> None)"

lemma store_keeps: "store_step sha a b \<Longrightarrow> stored_at a i \<noteq> None \<Longrightarrow> stored_at b i \<noteq> None"
  using store_step_keeps by fastforce

lemma writes_done_step:
  assumes "writes_done sha a ws b" and "store_write sha b w cid payload = (Inr x, b')"
  shows "writes_done sha a (ws @ [w]) b' \<and> st_artifact_id x = aw_artifact_id w"
proof -
  have step: "store_step sha b b'" using step_write [of sha b w cid payload] assms(2) by simp
  have "(store_step sha)\<^sup>*\<^sup>* a b'" using assms(1) step unfolding writes_done_def by (meson rtranclp.rtrancl_into_rtrancl)
  moreover have "stored_at b' (aw_artifact_id v) \<noteq> None" if "v \<in> set ws" for v
    using assms(1) that store_keeps [OF step] by (simp add: writes_done_def)
  moreover from assms(2) have "st_artifact_id x = aw_artifact_id w \<and> delivered_keys b' = delivered_keys b \<and>
      actual_readers b' = actual_readers b \<and> x \<in> set (artifacts b')"
    by (cases rule: store_write_cases) (simp_all add: written_artifact_def)
  moreover from this have "stored_at b' (aw_artifact_id w) \<noteq> None" unfolding stored_at_def find_None_iff by blast
  ultimately show ?thesis using assms(1) by (simp add: writes_done_def)
qed

lemma store_write_error: "store_write sha s w cid payload = (Inl e, t) \<Longrightarrow> \<not> is_runtime_error e \<and> t = s"
proof -
  assume w: "store_write sha s w cid payload = (Inl e, t)"
  have "plain (write_checks s w cid n)" for n unfolding write_checks_def by (auto intro!: plain_intros)
  with w show ?thesis by (auto simp: store_write_def Let_def plain_def split: sum.splits)
qed

lemma write_artifact_rule:
  assumes "map_of (ao_payloads out) (aw_artifact_id w) \<noteq> None" and "writes_done sha (rs_artifacts s0) ws (rs_artifacts s)"
  shows "wp True (write_artifact sha c out w) (\<lambda>i t. i = aw_artifact_id w \<and>
      t = s\<lparr>rs_artifacts := rs_artifacts t\<rparr> \<and> writes_done sha (rs_artifacts s0) (ws @ [w]) (rs_artifacts t))
    (\<lambda>e t. \<not> internal_error e) s"
proof -
  obtain payload where p: "map_of (ao_payloads out) (aw_artifact_id w) = Some payload" using assms(1) by blast
  obtain r b where r: "store_write sha (rs_artifacts s) w (call_id c) payload = (r, b)" by force
  show ?thesis
  proof (cases r)
    case (Inl e)
    have "\<not> internal_error e" using store_write_error r Inl internal_is_runtime by blast
    then show ?thesis by (simp add: write_artifact_def p wp_simps on_store_def r Inl internal_kinds_def)
  next
    case (Inr a)
    then show ?thesis using writes_done_step [OF assms(2), of w "call_id c" payload a b] r
      by (simp add: write_artifact_def p wp_simps on_store_def)
  qed
qed

lemma writes_rule:
  assumes keys: "set (map fst (ao_payloads out)) = set (map aw_artifact_id (artifact_writes c))"
  shows "wp True (mapS (write_artifact sha c out) (artifact_writes c)) (\<lambda>is t. is = map aw_artifact_id (artifact_writes c) \<and>
      t = s\<lparr>rs_artifacts := rs_artifacts t\<rparr> \<and> writes_done sha (rs_artifacts s) (artifact_writes c) (rs_artifacts t))
    (\<lambda>e t. \<not> internal_error e) s"
proof (rule wp_map [where I = "\<lambda>ws is t. is = map aw_artifact_id ws \<and> t = s\<lparr>rs_artifacts := rs_artifacts t\<rparr> \<and>
      writes_done sha (rs_artifacts s) ws (rs_artifacts t)"])
  fix dn w rest t and xs :: "string list"
  assume split: "artifact_writes c = dn @ w # rest" and inv: "xs = map aw_artifact_id dn \<and>
    t = s\<lparr>rs_artifacts := rs_artifacts t\<rparr> \<and> writes_done sha (rs_artifacts s) dn (rs_artifacts t)"
  have "aw_artifact_id w \<in> fst ` set (ao_payloads out)" using keys split by simp
  then have "map_of (ao_payloads out) (aw_artifact_id w) \<noteq> None" by (simp add: map_of_eq_None_iff)
  from write_artifact_rule [OF this, of sha s dn t c] inv
  show "wp True (write_artifact sha c out w) (\<lambda>i u. xs @ [i] = map aw_artifact_id (dn @ [w]) \<and>
      u = s\<lparr>rs_artifacts := rs_artifacts u\<rparr> \<and> writes_done sha (rs_artifacts s) (dn @ [w]) (rs_artifacts u))
      (\<lambda>e t. \<not> internal_error e) t"
    by (elim conjE) (rule wp_mono, assumption, simp, metis (no_types, lifting) run_state.surjective run_state.update_convs(1))
qed (simp_all add: writes_done_def)

section \<open>One call\<close>

definition call_done :: "run_config \<Rightarrow> actor_call \<Rightarrow> call_evidence \<Rightarrow> bool" where
  "call_done cfg c e \<longleftrightarrow> ce_call_id e = call_id c \<and> ce_actor_id e = call_actor_id c \<and>
     ce_read_ids e = map read_id (context_reads c) \<and> ce_artifacts e = map aw_artifact_id (artifact_writes c) \<and>
     ce_status e = Succeeded \<and> turns_ok (nat (max_model_calls (ceilings (rc_task cfg)))) (ce_rounds e)"

definition run_usage :: "metric \<Rightarrow> call_evidence list \<Rightarrow> int" where
  "run_usage m es = sum_list (map (\<lambda>e. rounds_usage m (ce_rounds e)) es)"

definition outputs_valid :: "run_config \<Rightarrow> 'w run_state \<Rightarrow> bool" where
  "outputs_valid cfg s \<longleftrightarrow> (\<forall>i out. map_of (rs_outputs s) i = Some out \<longrightarrow>
     (\<exists>c\<in>set (actor_calls (rc_plan cfg)). call_id c = i \<and> validate_output (rc_task cfg) (rc_plan cfg) c out = Inr ()))"

definition stage_done :: "plan_stage \<Rightarrow> stage_evidence" where
  "stage_done st = \<lparr>se_stage_id = stage_id st, se_stage_index = stage_index st, se_fork = stage_fork st,
     se_join = stage_join st, se_order = stage_call_ids st\<rparr>"

text \<open>The state after the calls \<open>pre\<close> and the stages \<open>sts\<close>, started from \<open>s0\<close>.\<close>

definition run_inv :: "sha256 \<Rightarrow> run_config \<Rightarrow> 'w run_state \<Rightarrow> plan_stage list \<Rightarrow> actor_call list \<Rightarrow> 'w run_state \<Rightarrow> bool" where
  "run_inv sha cfg s0 sts pre s \<longleftrightarrow>
     ledger_step\<^sup>*\<^sup>* (cs_ledger s0) (cs_ledger s) \<and> (store_step sha)\<^sup>*\<^sup>* (rs_artifacts s0) (rs_artifacts s) \<and>
     (\<forall>m. m \<noteq> ToolCalls \<longrightarrow> m \<noteq> ToolOutputBytes \<longrightarrow>
        total_of m (totals (cs_ledger s)) = total_of m (totals (cs_ledger s0)) + run_usage m (rs_evidence s)) \<and>
     list_all2 (call_done cfg) pre (rs_evidence s) \<and> rs_stages s = map stage_done sts \<and>
     map cx_call_id (rs_contexts s) = map call_id pre \<and>
     outputs_ready pre s \<and> outputs_valid cfg s \<and> sources_ready (rc_plan cfg) pre [] [] (rs_artifacts s)"

lemma sources_ready_nil: "sources_ready plan pre i [] st \<longleftrightarrow> sources_ready plan pre j [] st"
  by (simp add: sources_ready_def)

lemma same_more:
  fixes s t :: "'w run_state"
  assumes "call_state.more t = call_state.more s"
  shows "rs_artifacts t = rs_artifacts s" "rs_outputs t = rs_outputs s" "rs_contexts t = rs_contexts s"
    "rs_evidence t = rs_evidence s" "rs_stages t = rs_stages s"
  using assms by (cases s; cases t; simp)+

text \<open>The store after the reads and the writes of a call is ready for the next call.\<close>

lemma next_sources:
  assumes run: "runnable plan" and calls: "actor_calls plan = pre @ c # rest"
    and st: "sources_ready plan pre (call_id c) (artifact_refs c) a" and w: "writes_done sha a (artifact_writes c) b"
  shows "sources_ready plan (pre @ [c]) [] [] b"
proof -
  have ids: "distinct (map call_id (actor_calls plan))" using run by (simp add: runnable_def)
  have refs: "fst k \<in> set (artifact_refs c)" if k: "k \<in> set (delivery_keys plan)" "snd k = call_id c" for k
  proof -
    obtain d where d: "d \<in> set (actor_calls plan)" "call_id d = snd k" "fst k \<in> set (artifact_refs d)"
      using run k(1) unfolding runnable_def by blast
    have "d = c" using distinct_map_eq [OF ids d(1)] d(2) k(2) calls by simp
    with d(3) show ?thesis by simp
  qed
  have "(store_step sha)\<^sup>*\<^sup>* a b" using w by (simp add: writes_done_def)
  then have plans: "delivery_plans b = delivery_plans a" "\<And>i. stored_at a i \<noteq> None \<Longrightarrow> stored_at b i \<noteq> None"
    using store_run_plans artifact_log.run_keeps by fastforce+
  have "set (delivered_keys b) = {k \<in> set (delivery_keys plan). snd k \<in> call_id ` set (pre @ [c])}"
    using st w refs unfolding sources_ready_def writes_done_def by auto
  moreover have "set (actual_readers b i) \<subseteq> call_id ` set (pre @ [c])" for i
    using st w unfolding sources_ready_def writes_done_def by (auto split: if_splits)
  moreover have "stored_at b (aw_artifact_id w) \<noteq> None" if "p \<in> set (pre @ [c])" "w \<in> set (artifact_writes p)" for p w
    using that st w plans(2) unfolding sources_ready_def writes_done_def by auto
  ultimately show ?thesis using st plans(1) by (auto simp: sources_ready_def)
qed

lemma external_cost: "external (call_cost cfg c)"
  unfolding call_cost_def call_share_bps_def by (auto intro!: external_plain plain_intros)

lemma evidence_done:
  assumes "map ar_read_id (cx_reads x) = map read_id (context_reads c)"
    and "turns_ok (nat (max_model_calls (ceilings (rc_task cfg)))) rounds"
  shows "call_done cfg c (evidence_of sha c stage x request out rounds (map aw_artifact_id (artifact_writes c)))"
  using assms turns_ok_last [OF assms(2)] by (auto simp: call_done_def evidence_of_def turns_ok_def)

lemma evidence_rounds [simp]: "ce_rounds (evidence_of sha c stage x request out rounds written) = rounds"
  by (simp add: evidence_of_def)

lemma runnable_call:
  assumes "runnable plan" and "actor_calls plan = pre @ c # rest"
  shows "find_call plan (call_id c) = Some c" and "call_id c \<notin> call_id ` set pre" and "distinct (artifact_refs c)"
    and "\<forall>r\<in>set (context_reads c). read_ready plan pre c r"
proof -
  have ids: "distinct (map call_id (actor_calls plan))" using assms(1) by (simp add: runnable_def)
  show "find_call plan (call_id c) = Some c" by (simp add: find_call_iff [OF ids] assms(2))
  show "call_id c \<notin> call_id ` set pre" using ids by (simp add: assms(2))
  show "distinct (artifact_refs c)" "\<forall>r\<in>set (context_reads c). read_ready plan pre c r"
    using assms unfolding runnable_def by blast+
qed

lemma call_recorded:
  fixes s s0 t :: "'w run_state"
  assumes run: "runnable (rc_plan cfg)" and calls: "actor_calls (rc_plan cfg) = pre @ c # rest"
    and inv: "run_inv sha cfg s0 sts pre s"
    and a: "sources_ready (rc_plan cfg) pre (call_id c) (artifact_refs c) a" "(store_step sha)\<^sup>*\<^sup>* (rs_artifacts s) a"
    and x: "cx_call_id x = call_id c"
    and turns: "turn_inv (s\<lparr>rs_artifacts := a, rs_contexts := rs_contexts s @ [x]\<rparr>) rounds t"
    and out: "validate_output (rc_task cfg) (rc_plan cfg) c out = Inr ()"
    and b: "writes_done sha a (artifact_writes c) b" and e: "call_done cfg c e" "ce_rounds e = rounds"
  shows "run_inv sha cfg s0 sts (pre @ [c]) (t\<lparr>rs_artifacts := b, rs_outputs := (call_id c, out) # rs_outputs t,
    rs_evidence := rs_evidence t @ [e]\<rparr>)"
proof -
  have "call_state.more t = call_state.more (s\<lparr>rs_artifacts := a, rs_contexts := rs_contexts s @ [x]\<rparr>)"
    using turns by (simp add: turn_inv_def ledger_run_def)
  note same = same_more [OF this, simplified]
  have ledger: "ledger_step\<^sup>*\<^sup>* (cs_ledger s) (cs_ledger t)" using turns by (simp add: turn_inv_def ledger_run_def)
  have total: "total_of m (totals (cs_ledger t)) = total_of m (totals (cs_ledger s)) + rounds_usage m rounds"
    if "m \<noteq> ToolCalls" "m \<noteq> ToolOutputBytes" for m using turns that by (simp add: turn_inv_def)
  have "(store_step sha)\<^sup>*\<^sup>* a b" using b by (simp add: writes_done_def)
  then have store: "(store_step sha)\<^sup>*\<^sup>* (rs_artifacts s0) b" using inv a(2) by (auto simp: run_inv_def)
  have step: "ledger_step\<^sup>*\<^sup>* (cs_ledger s0) (cs_ledger t)" using inv ledger by (auto simp: run_inv_def)
  have src: "sources_ready (rc_plan cfg) (pre @ [c]) [] [] b" by (rule next_sources [OF run calls a(1) b])
  have outs: "outputs_ready (pre @ [c]) (t\<lparr>rs_artifacts := b, rs_outputs := (call_id c, out) # rs_outputs t, rs_evidence := ev\<rparr>)" for ev
    using inv by (auto simp: run_inv_def outputs_ready_def same)
  have valid: "outputs_valid cfg (t\<lparr>rs_artifacts := b, rs_outputs := (call_id c, out) # rs_outputs t, rs_evidence := ev\<rparr>)" for ev
    using inv out calls by (auto simp: run_inv_def outputs_valid_def same)
  show ?thesis
    using inv step store src outs valid e x total
    by (auto simp: run_inv_def same run_usage_def intro!: list_all2_appendI)
qed

lemma execute_call_rule:
  assumes run: "runnable (rc_plan cfg)" and calls: "actor_calls (rc_plan cfg) = pre @ c # rest"
    and ok: "ledger_ok (cs_ledger s0)" and env: "env_contract env" and inv: "run_inv (re_sha env) cfg s0 sts pre s"
  shows "wp True (execute_call env cfg c stage) (\<lambda>_. run_inv (re_sha env) cfg s0 sts (pre @ [c]))
    (\<lambda>e t. \<not> internal_error e) s"
proof -
  let ?sha = "re_sha env" and ?plan = "rc_plan cfg" and ?E = "\<lambda>e t. \<not> internal_error e"
  note rc = runnable_call [OF run calls]
  have ready: "sources_ready ?plan pre (call_id c) [] (rs_artifacts s)" "outputs_ready pre s"
    using inv sources_ready_nil [of ?plan pre "call_id c" "rs_artifacts s" "[]"] by (simp_all add: run_inv_def)
  have ctx: "wp True (context_for ?sha cfg c) (\<lambda>x t. map ar_read_id (cx_reads x) = map read_id (context_reads c) \<and> cx_call_id x = call_id c \<and>
      (\<exists>u. read_done ?sha ?plan pre (call_id c) (artifact_refs c) s u \<and> t = u\<lparr>rs_contexts := rs_contexts s @ [x]\<rparr>)) ?E s"
    by (rule wp_partial [OF wp_mono [OF context_rule [OF ready rc(4,2,3)]]]) auto
  let ?cost = "call_cost cfg c" and ?n = "nat (max_model_calls (ceilings (rc_task cfg)))"
  have rest: "wp True (take_turns env cfg c x cost ?n 0 [] [] []) (\<lambda>y. wp True (case y of (request, out, rounds) \<Rightarrow>
      bindS (mapS (write_artifact ?sha c out) (artifact_writes c)) (\<lambda>written.
        putS (\<lambda>s. s\<lparr>rs_outputs := (call_id c, out) # rs_outputs s,
          rs_evidence := rs_evidence s @ [evidence_of ?sha c stage x request out rounds written]\<rparr>)))
      (\<lambda>_. run_inv ?sha cfg s0 sts (pre @ [c])) ?E) ?E t"
    if t: "t = s\<lparr>rs_artifacts := a, rs_contexts := rs_contexts s @ [x]\<rparr>" and x: "cx_call_id x = call_id c"
      "map ar_read_id (cx_reads x) = map read_id (context_reads c)"
      and a: "sources_ready ?plan pre (call_id c) (artifact_refs c) a" "(store_step ?sha)\<^sup>*\<^sup>* (rs_artifacts s) a"
    for t x cost a
  proof -
    have ok': "ledger_ok (cs_ledger t)" using inv ok budget.runs_keep t by (auto simp: run_inv_def)
    have start: "turn_inv t [] t" by (simp add: turn_inv_def rounds_usage_def)
    have writes: "wp True (bindS (mapS (write_artifact ?sha c out) (artifact_writes c)) (\<lambda>written.
        putS (\<lambda>s. s\<lparr>rs_outputs := (call_id c, out) # rs_outputs s,
          rs_evidence := rs_evidence s @ [evidence_of ?sha c stage x request out rounds written]\<rparr>)))
        (\<lambda>_. run_inv ?sha cfg s0 sts (pre @ [c])) ?E u"
      if u: "turn_inv t rounds u" and turns: "turns_ok ?n rounds" and out: "validate_output (rc_task cfg) ?plan c out = Inr ()"
      for u request out rounds
    proof -
      have keys: "set (map fst (ao_payloads out)) = set (map aw_artifact_id (artifact_writes c))"
        using out unfolding validate_output_def by (simp add: res_simps)
      have same: "rs_artifacts u = a" using u same_more(1) t by (fastforce simp: turn_inv_def ledger_run_def)
      have fin: "run_inv ?sha cfg s0 sts (pre @ [c]) (v\<lparr>rs_outputs := (call_id c, out) # rs_outputs v,
          rs_evidence := rs_evidence v @ [evidence_of ?sha c stage x request out rounds (map aw_artifact_id (artifact_writes c))]\<rparr>)"
        if v: "v = u\<lparr>rs_artifacts := b\<rparr>" and b: "writes_done ?sha a (artifact_writes c) b" for v b
        using call_recorded [OF run calls inv a x(1) u [unfolded t] out b evidence_done [OF x(2) turns], of ?sha stage request out]
        by (simp add: v)
      show ?thesis unfolding wp_bind wp_put
        by (rule wp_mono [OF writes_rule [OF keys]]) (auto simp: same intro: fin)
    qed
    show ?thesis
      by (rule wp_mono [OF take_turns_rule [OF ok' env rc(1) start]]) (auto intro: writes)
  qed
  show ?thesis unfolding execute_call_def wp_bind [of _ "context_for ?sha cfg c"] wp_bind [of _ "liftS ?cost"]
      wp_bind [of _ "take_turns env cfg c x cost n i a b d" for x cost n i a b d]
  proof (rule wp_mono [OF ctx])
    fix x t
    assume "map ar_read_id (cx_reads x) = map read_id (context_reads c) \<and> cx_call_id x = call_id c \<and>
      (\<exists>u. read_done ?sha ?plan pre (call_id c) (artifact_refs c) s u \<and> t = u\<lparr>rs_contexts := rs_contexts s @ [x]\<rparr>)"
    then obtain a where x: "cx_call_id x = call_id c" "map ar_read_id (cx_reads x) = map read_id (context_reads c)"
      and a: "sources_ready ?plan pre (call_id c) (artifact_refs c) a" "(store_step ?sha)\<^sup>*\<^sup>* (rs_artifacts s) a"
      and t: "t = s\<lparr>rs_artifacts := a, rs_contexts := rs_contexts s @ [x]\<rparr>" by (auto simp: read_done_def)
    show "wp True (liftS ?cost) (\<lambda>cost. wp True (take_turns env cfg c x cost ?n 0 [] [] []) (\<lambda>y.
        wp True (case y of (request, out, rounds) \<Rightarrow>
          bindS (mapS (write_artifact ?sha c out) (artifact_writes c)) (\<lambda>written.
            putS (\<lambda>s. s\<lparr>rs_outputs := (call_id c, out) # rs_outputs s,
              rs_evidence := rs_evidence s @ [evidence_of ?sha c stage x request out rounds written]\<rparr>)))
          (\<lambda>_. run_inv ?sha cfg s0 sts (pre @ [c])) ?E) ?E) ?E t"
      by (rule wp_lift_external) (use rest [OF t x a] external_cost in \<open>auto simp: external_def\<close>)
  qed simp
qed

section \<open>All the calls\<close>

lemma run_calls_rule:
  assumes run: "runnable (rc_plan cfg)" and calls: "actor_calls (rc_plan cfg) = pre @ cs @ rest"
    and ok: "ledger_ok (cs_ledger s0)" and env: "env_contract env" and inv: "run_inv (re_sha env) cfg s0 sts pre s"
  shows "wp True (run_calls env cfg stage (map call_id cs)) (\<lambda>_. run_inv (re_sha env) cfg s0 sts (pre @ cs))
    (\<lambda>e t. \<not> internal_error e) s"
  using calls inv
proof (induction cs arbitrary: pre s)
  case Nil
  then show ?case by (simp add: wp_return)
next
  case (Cons c cs)
  have split: "actor_calls (rc_plan cfg) = pre @ c # (cs @ rest)" using Cons.prems(1) by simp
  have "wp True (run_calls env cfg stage (map call_id cs)) (\<lambda>_. run_inv (re_sha env) cfg s0 sts (pre @ c # cs))
      (\<lambda>e t. \<not> internal_error e) t" if "run_inv (re_sha env) cfg s0 sts (pre @ [c]) t" for t
    using Cons.IH [of "pre @ [c]" t] split that by simp
  then have "wp True (execute_call env cfg c stage) (\<lambda>_. wp True (run_calls env cfg stage (map call_id cs))
      (\<lambda>_. run_inv (re_sha env) cfg s0 sts (pre @ c # cs)) (\<lambda>e t. \<not> internal_error e)) (\<lambda>e t. \<not> internal_error e) s"
    by (rule wp_mono [OF execute_call_rule [OF run split ok env Cons.prems(2)]])
  then show ?case using runnable_call(1) [OF run split] by (simp add: wp_then)
qed

lemma run_stages_rule:
  assumes run: "runnable (rc_plan cfg)" and sts: "stages (rc_plan cfg) = dn @ sts"
    and calls: "actor_calls (rc_plan cfg) = pre @ rest" "map call_id rest = concat (map stage_call_ids sts)"
    and ok: "ledger_ok (cs_ledger s0)" and env: "env_contract env" and inv: "run_inv (re_sha env) cfg s0 dn pre s"
  shows "wp True (run_stages env cfg (map stage_id dn) executed sts)
    (\<lambda>ids t. ids = executed @ concat (map stage_call_ids sts) \<and>
       run_inv (re_sha env) cfg s0 (stages (rc_plan cfg)) (actor_calls (rc_plan cfg)) t)
    (\<lambda>e t. \<not> internal_error e) s"
  using sts calls inv
proof (induction sts arbitrary: dn pre rest executed s)
  case Nil
  then show ?case by (simp add: wp_return)
next
  case (Cons st sts)
  let ?E = "\<lambda>e t. \<not> internal_error e" and ?inv = "run_inv (re_sha env) cfg s0"
  obtain cs rest' where rest: "rest = cs @ rest'" "map call_id cs = stage_call_ids st"
    "map call_id rest' = concat (map stage_call_ids sts)"
    using Cons.prems(3) by (auto simp: map_eq_append_conv)
  have "length dn < length (stages (rc_plan cfg))" "stages (rc_plan cfg) ! length dn = st" "take (length dn) (stages (rc_plan cfg)) = dn"
    using Cons.prems(1) by simp_all
  then have deps: "set (depends_on_stage_ids st) \<subseteq> stage_id ` set dn" using run unfolding runnable_def by metis
  let ?Q = "\<lambda>ids t. ids = executed @ concat (map stage_call_ids (st # sts)) \<and> ?inv (stages (rc_plan cfg)) (actor_calls (rc_plan cfg)) t"
  have after: "wp True (thenS (putS (\<lambda>s. s\<lparr>rs_stages := rs_stages s @ [\<lparr>se_stage_id = stage_id st, se_stage_index = stage_index st,
       se_fork = stage_fork st, se_join = stage_join st, se_order = stage_call_ids st\<rparr>]\<rparr>))
     (run_stages env cfg (map stage_id dn @ [stage_id st]) (executed @ stage_call_ids st) sts)) ?Q ?E t"
    if t: "?inv dn (pre @ cs) t" for t
  proof -
    have "?inv (dn @ [st]) (pre @ cs) (t\<lparr>rs_stages := rs_stages t @ [stage_done st]\<rparr>)"
      using t by (simp add: run_inv_def outputs_ready_def outputs_valid_def)
    then show ?thesis
      using Cons.IH [of "dn @ [st]" "pre @ cs" rest' "t\<lparr>rs_stages := rs_stages t @ [stage_done st]\<rparr>" "executed @ stage_call_ids st"]
        Cons.prems(1,2) rest
      by (simp add: wp_simps stage_done_def)
  qed
  have "actor_calls (rc_plan cfg) = pre @ cs @ rest'" using Cons.prems(2) rest(1) by simp
  from wp_mono [OF run_calls_rule [OF run this ok env Cons.prems(4)] after] rest(2) deps
  show ?case by (simp add: wp_then wp_reject)
qed

section \<open>The end of a run\<close>

lemma run_inv_world [simp]: "run_inv sha cfg s0 sts pre (s\<lparr>cs_world := w\<rparr>) \<longleftrightarrow> run_inv sha cfg s0 sts pre s"
  by (simp add: run_inv_def outputs_ready_def outputs_valid_def)

lemma run_inv_tool:
  "run_inv sha cfg s0 sts pre s \<Longrightarrow> tool_ledger (cs_ledger s) l \<Longrightarrow> run_inv sha cfg s0 sts pre (s\<lparr>cs_ledger := l, cs_world := w\<rparr>)"
  by (auto simp: run_inv_def outputs_ready_def outputs_valid_def tool_ledger_def)

lemma on_tools_rule:
  assumes "\<And>w. plain (fst (f w))" and "\<And>a w. Q a (s\<lparr>cs_world := w\<rparr>)"
  shows "wp True (on_tools f) Q (\<lambda>e t. \<not> internal_error e) s"
proof -
  have "\<not> internal_error e" if "f (cs_world s) = (Inl e, w)" for e w
    using assms(1) [of "cs_world s"] that internal_is_runtime by (auto simp: plain_def)
  then show ?thesis using assms(2) by (auto simp: on_tools_def wp_on split: prod.split sum.split)
qed

lemma take_snapshot_rule:
  assumes "\<And>b n w. snapshot (cs_ledger s) n = Inr b \<Longrightarrow> Q b (s\<lparr>cs_world := w\<rparr>)"
  shows "wp True (take_snapshot port) Q (\<lambda>e t. \<not> internal_error e) s"
proof -
  have "plainS (take_snapshot port)" unfolding take_snapshot_def by (auto intro!: plain_intros)
  moreover have "wp True (take_snapshot port) Q (\<lambda>_ _. True) s"
    unfolding take_snapshot_def by (rule on_ledger_rule) (use assms in auto)
  ultimately show ?thesis by (blast intro: wp_errors)
qed

lemma final_control_rule:
  assumes env: "env_contract env" "re_tools env = Some tools" and inv: "run_inv sha cfg s0 sts pre s"
  shows "wp True (final_control cfg patch tools) (\<lambda>_. run_inv sha cfg s0 sts pre) (\<lambda>e t. \<not> internal_error e) s"
proof -
  let ?E = "\<lambda>e t. \<not> internal_error e"
  have contract: "tools_contract tools" using env by (simp add: env_contract_def)
  note c = contract [unfolded tools_contract_def]
  have unchanged: "wp True (check_unchanged tools msg) Q ?E t"
    if "\<And>w. Q () (t\<lparr>cs_world := w\<rparr>)" for msg t and Q :: "unit \<Rightarrow> 'a run_state \<Rightarrow> bool"
    unfolding check_unchanged_def wp_bind wp_then
    by (rule on_tools_rule, use c in blast) (auto simp: wp_reject internal_kinds_def c that intro!: on_tools_rule)
  have verify: "wp True (on_ledger_tools (ti_verify tools cid)) (\<lambda>_. run_inv sha cfg s0 sts pre) ?E t"
    if "run_inv sha cfg s0 sts pre t" for t cid
  proof -
    obtain r l w where r: "ti_verify tools cid (cs_ledger t) (cs_world t) = (r, l, w)" by (metis prod_cases3)
    then have "tool_ledger (cs_ledger t) l" "plain r" using tools_verify [OF env r] by simp_all
    then show ?thesis using run_inv_tool [OF that] internal_is_runtime
      by (auto simp: on_ledger_tools_def wp_on r plain_def split: sum.split)
  qed
  have last: "wp True (on_tools (ti_workspace_digest tools)) (\<lambda>digest. wp True (check_unchanged tools msg)
      (\<lambda>_. wp True (on_tools (ti_receipts tools)) (\<lambda>receipts. wp True (returnS (p, digest, receipts)) (\<lambda>_. run_inv sha cfg s0 sts pre) ?E) ?E) ?E) ?E t"
    if "run_inv sha cfg s0 sts pre t" for t msg and p :: bool
    by (rule on_tools_rule, use c in blast, rule unchanged, rule on_tools_rule, use c in blast) (simp add: wp_return that)
  have middle: "wp True (check_unchanged tools msg) (\<lambda>_. wp True (on_ledger_tools (ti_verify tools cid)) (\<lambda>p.
      wp True (on_tools (ti_workspace_digest tools)) (\<lambda>digest. wp True (check_unchanged tools msg')
      (\<lambda>_. wp True (on_tools (ti_receipts tools)) (\<lambda>receipts. wp True (returnS (p, digest, receipts)) (\<lambda>_. run_inv sha cfg s0 sts pre) ?E) ?E) ?E) ?E) ?E) ?E t"
    if "run_inv sha cfg s0 sts pre t" for t msg msg' cid
    by (rule unchanged, rule wp_mono [OF verify]) (use that last in auto)
  show ?thesis
    unfolding final_control_def Let_def wp_then wp_bind wp_reject
    using inv c middle by (auto simp: internal_kinds_def wp_reject intro!: on_tools_rule)
qed

text \<open>What a result says about the state it ends in.\<close>

definition result_of :: "'w run_env \<Rightarrow> run_config \<Rightarrow> string \<Rightarrow> run_result \<Rightarrow> 'w run_state \<Rightarrow> bool" where
  "result_of env cfg patch r t \<longleftrightarrow> rr_patch r = patch \<and> rr_calls r = rs_evidence t \<and> rr_stages r = rs_stages t \<and>
     rr_contexts r = rs_contexts t \<and> rr_deliveries r = made_deliveries (rs_artifacts t) \<and>
     rr_artifacts r = store_evidence (rs_artifacts t) \<and> (\<exists>n. snapshot (cs_ledger t) n = Inr (rr_budget r)) \<and>
     s_reconciled (rr_budget r) \<and> s_healthy (rr_budget r) \<and>
     (rr_status r, rr_verification r) \<in> (case re_tools env of None \<Rightarrow> {(PatchReady, None)}
       | Some _ \<Rightarrow> {(RunCompleted, Some True), (PublicVerificationFailed, Some False)})"

lemma finish_rule:
  assumes env: "env_contract env" and inv: "run_inv sha cfg s0 sts pre s"
  shows "wp True (finish_run env cfg patch) (\<lambda>r t. run_inv sha cfg s0 sts pre t \<and> result_of env cfg patch r t)
    (\<lambda>e t. \<not> internal_error e) s"
proof -
  let ?E = "\<lambda>e t. \<not> internal_error e"
  let ?S = "case re_tools env of None \<Rightarrow> {(PatchReady, None)}
       | Some _ \<Rightarrow> {(RunCompleted, Some True), (PublicVerificationFailed, Some False)}"
  have control: "wp True (case re_tools env of
         None \<Rightarrow> returnS (PatchReady, sb_workspace_digest (rc_scratch cfg), None, [], b)
       | Some tools \<Rightarrow>
           bindS (final_control cfg patch tools) (\<lambda>(passed, digest, receipts).
           bindS (take_snapshot (re_port env)) (\<lambda>b.
           returnS (if passed then RunCompleted else PublicVerificationFailed, digest, Some passed, receipts, b))))
       (\<lambda>(status, digest, verification, receipts, b) t. run_inv sha cfg s0 sts pre t \<and> (\<exists>n. snapshot (cs_ledger t) n = Inr b) \<and>
         (status, verification) \<in> ?S) ?E t"
    if "run_inv sha cfg s0 sts pre t" "snapshot (cs_ledger t) n = Inr b" for t b n
  proof (cases "re_tools env")
    case None
    with that show ?thesis by (auto simp: wp_return)
  next
    case (Some tools)
    show ?thesis unfolding Some option.case wp_bind
      by (rule wp_mono [OF final_control_rule [OF env Some that(1)]])
        (auto simp: wp_simps split: prod.split intro!: take_snapshot_rule)
  qed
  show ?thesis unfolding finish_run_def wp_bind
    by (rule take_snapshot_rule, rule wp_mono [OF control])
      (use inv in \<open>auto simp: wp_simps internal_kinds_def result_of_def\<close>)
qed

lemma composite_run_rule:
  assumes run: "runnable (rc_plan cfg)" and ok: "ledger_ok (cs_ledger s)" and env: "env_contract env"
    and fresh: "\<not> rs_started s" "run_inv (re_sha env) cfg s [] [] s" "store_ok (re_sha env) (rs_artifacts s)"
  shows "wp True (composite_run env cfg) (\<lambda>r t. run_inv (re_sha env) cfg s (stages (rc_plan cfg)) (actor_calls (rc_plan cfg)) t \<and>
      (\<lambda>k. (de_artifact_id k, de_consumer_call_id k)) ` set (made_deliveries (rs_artifacts t)) = set (delivery_keys (rc_plan cfg)) \<and>
      (\<exists>patch. require_unified_diff patch = Inr () \<and> int (length patch) \<le> tp_max_patch_bytes (plan_termination (rc_plan cfg)) \<and> result_of env cfg patch r t))
    (\<lambda>e t. \<not> internal_error e) s" (is "wp True _ ?Q _ _")
proof -
  let ?inv = "run_inv (re_sha env) cfg s" and ?plan = "rc_plan cfg"
  have ids: "concat (map stage_call_ids (stages ?plan)) = map call_id (actor_calls ?plan)"
    and nd: "distinct (map call_id (actor_calls ?plan))" using run by (simp_all add: runnable_def)
  have start: "?inv [] [] (s\<lparr>rs_started := True\<rparr>)"
    using fresh(2) by (simp add: run_inv_def outputs_ready_def outputs_valid_def run_usage_def)
  have keys: "(\<lambda>d. (de_artifact_id d, de_consumer_call_id d)) ` set (made_deliveries (rs_artifacts t)) = set (delivery_keys ?plan)"
    if t: "?inv (stages ?plan) (actor_calls ?plan) t" for t
  proof -
    have "store_ok (re_sha env) (rs_artifacts t)"
      using artifact_log.run_ok [OF _ fresh(3)] t by (simp add: run_inv_def)
    then have "map (\<lambda>d. (de_artifact_id d, de_consumer_call_id d)) (made_deliveries (rs_artifacts t)) = delivered_keys (rs_artifacts t)"
      by (simp add: store_ok_def)
    moreover have "set (delivered_keys (rs_artifacts t)) = set (delivery_keys ?plan)"
      using t run unfolding run_inv_def sources_ready_def runnable_def by fastforce
    ultimately show ?thesis by (metis set_map)
  qed
  have final: "\<exists>out patch. map_of (rs_outputs t) (final_actor_call_id (plan_termination ?plan)) = Some out \<and>
      ao_patch out = Some patch \<and> require_unified_diff patch = Inr () \<and>
      int (length patch) \<le> tp_max_patch_bytes (plan_termination ?plan)"
    if t: "?inv (stages ?plan) (actor_calls ?plan) t" for t
  proof -
    obtain c where c: "c \<in> set (actor_calls ?plan)" "call_id c = final_actor_call_id (plan_termination ?plan)" "emits_final_patch c"
      using run unfolding runnable_def by blast
    have "map_of (rs_outputs t) (call_id c) \<noteq> None" using t c(1) by (auto simp: run_inv_def outputs_ready_def)
    then obtain out where out: "map_of (rs_outputs t) (call_id c) = Some out" by blast
    obtain d where d: "d \<in> set (actor_calls ?plan)" "call_id d = call_id c" "validate_output (rc_task cfg) ?plan d out = Inr ()"
      using t out unfolding run_inv_def outputs_valid_def by blast
    have "d = c" using distinct_map_eq [OF nd d(1) c(1) d(2)] .
    then have "validate_output (rc_task cfg) ?plan c out = Inr ()" using d(3) by simp
    then show ?thesis using c out unfolding validate_output_def
      by (auto simp: res_simps runtime_error_def split: option.splits)
  qed
  have executed: "wp True (run_stages env cfg [] [] (stages ?plan))
      (\<lambda>is t. is = map call_id (actor_calls ?plan) \<and> ?inv (stages ?plan) (actor_calls ?plan) t)
      (\<lambda>e t. \<not> internal_error e) (s\<lparr>rs_started := True\<rparr>)"
    using run_stages_rule [OF run, of "[]" "stages ?plan" "[]" "actor_calls ?plan" s env "s\<lparr>rs_started := True\<rparr>" "[]"]
      ids ok env start by simp
  have ending: "wp True (case map_of (rs_outputs t) (final_actor_call_id (plan_termination ?plan)) of
       Some out \<Rightarrow> (case ao_patch out of
           Some patch \<Rightarrow> finish_run env cfg patch
         | None \<Rightarrow> raiseS (CompositeRuntimeError ''final_patch_missing'' ''termination call did not produce a final patch''))
     | None \<Rightarrow> raiseS (CompositeRuntimeError ''final_patch_missing''
         ''termination call did not produce a final patch'')) ?Q (\<lambda>e t. \<not> internal_error e) t"
    if t: "?inv (stages ?plan) (actor_calls ?plan) t" for t
  proof -
    obtain out patch where o: "map_of (rs_outputs t) (final_actor_call_id (plan_termination ?plan)) = Some out"
      "ao_patch out = Some patch" "require_unified_diff patch = Inr ()"
      "int (length patch) \<le> tp_max_patch_bytes (plan_termination ?plan)" using final [OF t] by blast
    have "wp True (finish_run env cfg patch) ?Q (\<lambda>e t. \<not> internal_error e) t"
      by (rule wp_mono [OF finish_rule [OF env t]]) (use o(3,4) keys in auto)
    with o(1,2) show ?thesis by simp
  qed
  show ?thesis
    unfolding composite_run_def wp_bind wp_then wp_get wp_put wp_reject
    using fresh(1) ids keys ending by (auto simp: wp_bind wp_then wp_get wp_reject intro!: wp_mono [OF executed])
qed

end
