(* ===== verification/RuntimeRuns.thy ===== *)
theory RuntimeRuns
  imports RuntimeSound
begin

text \<open>
  Runs of compiled plans, from the compiler to the result of \<open>CompositeRuntime.run\<close>: a runtime built
  on a compiled plan starts in a state from which its run raises no internal error, what it
  returns is checked and accounts for every provider round, and it returns if every wait for
  the provider ends.
\<close>

section \<open>The runtime of a compiled plan\<close>

lemma new_runtime_Inr:
  assumes "new_runtime sha word cfg0 now w = Inr (cfg, s)"
  obtains plan t scratch session store where "validate_run_plan sha (rc_plan cfg0) = Inr plan"
    and "validate_task_envelope sha (rc_task cfg0) = Inr t" and "rc_plan cfg = plan" and "rc_task cfg = t"
    and "validate_inputs plan t scratch session = Inr ()"
    and "new_store plan (max_artifact_bytes (ceilings t)) = Inr store"
    and "s = \<lparr>cs_ledger = new_ledger (aggregate_ceiling (budget_ledger plan)) now, cs_world = w,
       rs_artifacts = store, rs_outputs = [], rs_contexts = [], rs_evidence = [], rs_stages = [], rs_started = False\<rparr>"
  using assms unfolding new_runtime_def by (auto simp: res_simps)

text \<open>The initial state of a run.\<close>

definition fresh_run :: "sha256 \<Rightarrow> run_config \<Rightarrow> pyfloat \<Rightarrow> 'w run_state \<Rightarrow> bool" where
  "fresh_run sha cfg now s \<longleftrightarrow> cs_ledger s = new_ledger (aggregate_ceiling (budget_ledger (rc_plan cfg))) now \<and>
     \<not> rs_started s \<and> run_inv sha cfg s [] [] s \<and> store_ok sha (rs_artifacts s) \<and> runnable (rc_plan cfg)"

lemma compiled_run_fresh:
  assumes "compile_composite_run_plan sha md task protocol manifest reject = Inr (rc_plan cfg0)"
    and "new_runtime sha word cfg0 now w = Inr (cfg, s)"
  shows "rc_plan cfg = rc_plan cfg0 \<and> fresh_run sha cfg now s"
proof -
  obtain t p m where p: "task_ok t" "protocol_ok p" "rc_plan cfg0 = plan_of sha t p m" "topology_ok p"
    "good_levels (primary_channels p (protocol_feedback p)) (actor_ids p) (levels_of p)"
    by (rule compile_Inr [OF assms(1)])
  obtain plan limit store where v: "validate_run_plan sha (rc_plan cfg0) = Inr plan" "rc_plan cfg = plan"
    "new_store plan limit = Inr store" and s: "s = \<lparr>cs_ledger = new_ledger (aggregate_ceiling (budget_ledger plan)) now,
       cs_world = w, rs_artifacts = store, rs_outputs = [], rs_contexts = [], rs_evidence = [], rs_stages = [],
       rs_started = False\<rparr>"
    by (rule new_runtime_Inr [OF assms(2)])
  have plan: "plan = rc_plan cfg0" using v(1) validate_plan_ok [OF p(2,1,5), of sha m] p(3) by simp
  note store = new_store_fields [OF v(3)]
  have "delivery_plans store = artifact_deliveries plan"
    using v(3) store_of_plan [OF p(2,4) store(2), of sha t m] p(3) plan by auto
  then have "sources_ready plan [] [] [] store" using store(5,7) by (simp add: sources_ready_def)
  then have "run_inv sha cfg s [] [] s"
    using v(2) by (simp add: run_inv_def s run_usage_def outputs_ready_def outputs_valid_def)
  moreover have "runnable plan" using plan_runnable [OF p(2,4)] p(3) plan by simp
  ultimately show ?thesis using plan store(1) [of sha] v(2) by (simp add: fresh_run_def s)
qed

lemma fresh_run_rule:
  assumes "fresh_run (re_sha env) cfg now s" and "counts_ok (aggregate_ceiling (budget_ledger (rc_plan cfg)))"
    and "env_contract env"
  shows "wp True (composite_run env cfg) (\<lambda>r t. run_inv (re_sha env) cfg s (stages (rc_plan cfg)) (actor_calls (rc_plan cfg)) t \<and>
      (\<lambda>k. (de_artifact_id k, de_consumer_call_id k)) ` set (made_deliveries (rs_artifacts t)) = set (delivery_keys (rc_plan cfg)) \<and>
      (\<exists>patch. require_unified_diff patch = Inr () \<and> int (length patch) \<le> tp_max_patch_bytes (plan_termination (rc_plan cfg)) \<and>
         result_of env cfg patch r t))
    (\<lambda>e t. \<not> internal_error e) s"
  using assms composite_run_rule [of cfg s env] new_ledger_ok(1) [OF assms(2)]
  by (simp add: fresh_run_def)

section \<open>Results\<close>

text \<open>C1: a run of a compiled plan raises no internal error (no unmet stage dependency, missing prior
  output, failed or unreconciled delivery, order mismatch, undeclared read), whatever the provider
  and the tools do. If it returns a result, the patch is a unified diff within the byte ceiling,
  the calls are the planned ones in plan order, each with its declared reads and artifacts and at
  most the allowed rounds, the stages are the planned ones, the artifact deliveries made are
  exactly the planned ones, and the budget is reconciled and healthy.\<close>

theorem run_of_compiled_plan_sound:
  assumes "compile_composite_run_plan (re_sha env) md task protocol manifest reject = Inr (rc_plan cfg0)"
    and "new_runtime (re_sha env) word cfg0 now w = Inr (cfg, s)"
    and "counts_ok (aggregate_ceiling (budget_ledger (rc_plan cfg0)))" and "env_contract env"
  shows "case composite_run env cfg s of
      None \<Rightarrow> True
    | Some (Inl e, t) \<Rightarrow> \<not> internal_error e
    | Some (Inr r, t) \<Rightarrow> require_unified_diff (rr_patch r) = Inr () \<and>
        int (length (rr_patch r)) \<le> tp_max_patch_bytes (plan_termination (rc_plan cfg0)) \<and>
        list_all2 (call_done cfg) (actor_calls (rc_plan cfg0)) (rr_calls r) \<and>
        rr_stages r = map stage_done (stages (rc_plan cfg0)) \<and>
        map cx_call_id (rr_contexts r) = map call_id (actor_calls (rc_plan cfg0)) \<and>
        set (map (\<lambda>k. (de_artifact_id k, de_consumer_call_id k)) (rr_deliveries r)) = set (delivery_keys (rc_plan cfg0)) \<and>
        s_reconciled (rr_budget r) \<and> s_healthy (rr_budget r) \<and>
        (rr_status r = RunCompleted \<longleftrightarrow> rr_verification r = Some True)"
proof -
  have fresh: "rc_plan cfg = rc_plan cfg0" "fresh_run (re_sha env) cfg now s"
    using compiled_run_fresh [OF assms(1,2)] by simp_all
  have counts: "counts_ok (aggregate_ceiling (budget_ledger (rc_plan cfg)))" using assms(3) fresh(1) by simp
  note rule = fresh_run_rule [OF fresh(2) counts assms(4)]
  show ?thesis
  proof (cases "composite_run env cfg s")
    case (Some a)
    then obtain x t where a: "composite_run env cfg s = Some (x, t)" by (cases a) simp
    show ?thesis
    proof (cases x)
      case (Inl e)
      with a show ?thesis using wp_error [OF rule] by simp
    next
      case (Inr r)
      with a have run: "composite_run env cfg s = Some (Inr r, t)" by simp
      from wp_result [OF rule run] show ?thesis unfolding run fresh(1) run_inv_def result_of_def
        by (simp only: option.case sum.case prod.case) (auto split: option.splits)
    qed
  qed simp
qed

text \<open>C10: the budget a run reports is the sum of what its evidence reports: the model calls and the
  tokens of each kind in the final snapshot are the sums of the usage of all provider rounds of
  all calls, and stay within the ceilings of the plan.\<close>

theorem run_accounts_for_rounds:
  assumes "compile_composite_run_plan (re_sha env) md task protocol manifest reject = Inr (rc_plan cfg0)"
    and "new_runtime (re_sha env) word cfg0 now w = Inr (cfg, s)"
    and "counts_ok (aggregate_ceiling (budget_ledger (rc_plan cfg0)))" and "env_contract env"
  shows "case composite_run env cfg s of
      None \<Rightarrow> True
    | Some (Inl e, t) \<Rightarrow> True
    | Some (Inr r, t) \<Rightarrow> list_all (\<lambda>m. total_of m (s_totals (rr_budget r)) = run_usage m (rr_calls r) \<and>
        run_usage m (rr_calls r) \<le> ceiling_of m (aggregate_ceiling (budget_ledger (rc_plan cfg0))))
        [ModelCalls, InputTokens, OutputTokens, CachedTokens, CacheWriteTokens]"
proof -
  let ?c = "aggregate_ceiling (budget_ledger (rc_plan cfg0))"
  have fresh: "rc_plan cfg = rc_plan cfg0" "fresh_run (re_sha env) cfg now s"
    using compiled_run_fresh [OF assms(1,2)] by simp_all
  have counts: "counts_ok (aggregate_ceiling (budget_ledger (rc_plan cfg)))" using assms(3) fresh(1) by simp
  have start: "cs_ledger s = new_ledger ?c now" using fresh by (simp add: fresh_run_def)
  have zero: "total_of m (totals (cs_ledger s)) = 0" for m
    by (cases m) (simp_all add: start new_ledger_def zero_totals_def)
  have exact: "total_of m (s_totals (rr_budget r)) = run_usage m (rr_calls r) \<and> run_usage m (rr_calls r) \<le> ceiling_of m ?c"
    if run: "composite_run env cfg s = Some (Inr r, t)" and m: "m \<noteq> ToolCalls" "m \<noteq> ToolOutputBytes" for r t m
  proof -
    obtain n where t: "run_inv (re_sha env) cfg s (stages (rc_plan cfg)) (actor_calls (rc_plan cfg)) t"
      "rr_calls r = rs_evidence t" "snapshot (cs_ledger t) n = Inr (rr_budget r)" "s_healthy (rr_budget r)"
      using wp_result [OF fresh_run_rule [OF fresh(2) counts assms(4)] run] unfolding result_of_def by blast
    have steps: "ledger_step\<^sup>*\<^sup>* (new_ledger ?c now) (cs_ledger t)"
      and total: "total_of m (totals (cs_ledger t)) = run_usage m (rr_calls r)"
      using t(1,2) m zero start by (simp_all add: run_inv_def)
    note snap = snapshot_Inr [OF t(3)]
    have "violations (cs_ledger t) = {}" using snap t(4) by simp
    then have "total_of m (totals (cs_ledger t)) \<le> ceiling_of m ?c"
      using run_within(1) [OF assms(3) steps] run_within(3) [OF assms(3) steps, of m] ledger_ok_reserved [of "cs_ledger t" m]
      by simp
    with total snap show ?thesis by simp
  qed
  have "list_all (\<lambda>m. total_of m (s_totals (rr_budget r)) = run_usage m (rr_calls r) \<and> run_usage m (rr_calls r) \<le> ceiling_of m ?c)
      [ModelCalls, InputTokens, OutputTokens, CachedTokens, CacheWriteTokens]"
    if "composite_run env cfg s = Some (Inr r, t)" for r t
    unfolding list_all_iff by (intro ballI exact [OF that]) auto
  then show ?thesis by (auto simp del: list.pred_inject split: option.split sum.split)
qed

section \<open>Termination\<close>

lemma returns_reject [returns_intros]: "returns (rejectS b k m)"
  by (simp add: rejectS_def returns_intros)

lemma returns_on [returns_intros]: "returns (on_store f)" "returns (on_tools g)" "returns (on_ledger_tools h)"
  by (simp_all add: on_store_def on_tools_def on_ledger_tools_def returns_intros)

lemma returns_context: "returns (context_for sha cfg c)"
proof -
  have "returns (resolve_read sha cfg c r)" for r
    unfolding resolve_read_def read_artifact_def Let_def
    by (auto split: source_kind.split option.split intro!: returns_intros)
  then show ?thesis unfolding context_for_def Let_def by (auto intro!: returns_intros)
qed

lemma returns_round: "each_wait_ends (re_port env) \<Longrightarrow> returns (provider_round env cfg c x cost turn results)"
  unfolding provider_round_def request_reservation_for_def read_epoch_def
  by (auto split: option.split intro!: returns_intros returns_call)

lemma returns_turns:
  assumes "each_wait_ends (re_port env)"
  shows "returns (take_turns env cfg c x cost left turn results asked rounds)"
proof (induction left arbitrary: turn results asked rounds)
  case (Suc left)
  then show ?case
    by (auto simp: invoke_tool_def split: actor_turn.split option.split intro!: returns_intros returns_round assms)
qed (simp add: returns_intros)

lemma returns_calls: "each_wait_ends (re_port env) \<Longrightarrow> returns (run_calls env cfg stage is)"
proof (induction "is")
  case (Cons i "is")
  have "returns (execute_call env cfg c stage)" for c
    unfolding execute_call_def write_artifact_def
    by (auto split: option.split intro!: returns_intros returns_context returns_turns Cons.prems)
  with Cons show ?case by (auto split: option.split intro!: returns_intros)
qed (simp add: returns_intros)

lemma returns_stages: "each_wait_ends (re_port env) \<Longrightarrow> returns (run_stages env cfg completed executed sts)"
  by (induction sts arbitrary: completed executed) (auto intro!: returns_intros returns_calls)


section \<open>A sample run\<close>

text \<open>A provider that answers each call at once with its artifact or the patch; its world is the
  request it was sent. There are no tools.\<close>

definition sample_usage :: usage_report where
  "sample_usage = \<lparr>ur_usage_status = KnownUsage, ur_input_tokens = Some 20, ur_output_tokens = Some 10,
     ur_cached_tokens = Some 0, ur_cache_write_tokens = Some 0, ur_cost_status = KnownCost,
     ur_cost_usd = Some float_zero, ur_response_id = Some ''r1''\<rparr>"

definition sample_reply :: "call_request option \<Rightarrow> actor_response" where
  "sample_reply w = (case w of
     None \<Rightarrow> RawOther
   | Some q \<Rightarrow>
       if ac_call_id q = ''actor.investigator.initial''
       then RawOutput \<lparr>ao_text = ''found'', ao_payloads = [(''artifact.investigation'', ''cause'')], ao_patch = None\<rparr>
       else RawOutput \<lparr>ao_text = ''fixed'', ao_payloads = [], ao_patch = Some ''--- a\<newline>+++ b\<newline>''\<rparr>)"

definition sample_port :: "(actor_response, call_request, call_request option) port" where
  "sample_port = \<lparr>read_clock = (\<lambda>w. (float_zero, w)), start_call = (\<lambda>q _ _ _. Some q),
     poll_reply = (\<lambda>_ w. (Some (Returned (sample_reply w) sample_usage), w)), cancel_call = (\<lambda>_ w. w),
     caller_cancelled = (\<lambda>_. False)\<rparr>"

definition sample_env :: "call_request option run_env" where
  "sample_env = \<lparr>re_sha = zero_sha, re_port = sample_port, re_epoch_ms = (\<lambda>w. (0, w)), re_reserve = None, re_tools = None\<rparr>"

definition sample_config :: "run_plan \<Rightarrow> run_config" where
  "sample_config plan = \<lparr>rc_plan = plan, rc_task = sample_task_validated ''fix the bug'', rc_scratch = sample_scratch,
     rc_session = None, rc_run_id = ''run-1'', rc_cred = None\<rparr>"

lemma sample_starts:
  obtains cfg0 cfg s where
    "compile_composite_run_plan zero_sha sample_metadata sample_task sample_protocol sample_manifest None = Inr (rc_plan cfg0)"
    and "new_runtime zero_sha (\<lambda>_. False) cfg0 float_zero (None :: call_request option) = Inr (cfg, s)"
    and "counts_ok (aggregate_ceiling (budget_ledger (rc_plan cfg0)))" and "env_contract sample_env"
proof -
  let ?t = "sample_task_validated ''fix the bug''"
  obtain plan where plan: "compile_composite_run_plan zero_sha sample_metadata sample_task sample_protocol sample_manifest None = Inr plan"
    using sample_compiles by blast
  obtain t p m where p: "validate_task_envelope zero_sha sample_task = Inr t" "task_ok t" "protocol_ok p" "plan = plan_of zero_sha t p m"
    "topology_ok p" "good_levels (primary_channels p (protocol_feedback p)) (actor_ids p) (levels_of p)"
    by (rule compile_Inr [OF plan])
  have issue: "require_nonempty ''fix the bug'' ''issue'' = Inr ''fix the bug''" by code_simp
  have first: "validate_task_envelope zero_sha sample_task = Inr ?t" by (rule sample_task_valid [OF issue])
  then have t: "t = ?t" using p(1) by simp
  have again: "validate_task_envelope zero_sha ?t = Inr ?t"
    using sample_task_validates [OF issue, of zero_sha "replicate 64 (CHR ''0'')"]
    by (simp add: sample_task_validated_def)
  have costs: "same_ceilings (ceilings ?t) (ceilings ?t)" and steps: "list_all trimmed_step (public_reproduction ?t)"
    and scratch: "validate_scratch_binding sample_scratch = Inr sample_scratch" and id: "py_strip ''run-1'' = ''run-1''"
    and limit: "0 < max_artifact_bytes (ceilings ?t)" by code_simp+
  have inputs: "validate_inputs plan ?t sample_scratch None = Inr ()"
    using compiled_inputs [OF plan first _ _ costs, of sample_scratch None] steps by (simp add: sample_scratch_def)
  obtain store where store: "new_store plan (max_artifact_bytes (ceilings ?t)) = Inr store"
    using store_of_plan [OF p(3,5) limit, of zero_sha t m] p(4) by simp
  have valid: "validate_run_plan zero_sha plan = Inr plan" using validate_plan_ok [OF p(3,2,6)] p(4) by simp
  obtain cfg s where new: "new_runtime zero_sha (\<lambda>_. False) (sample_config plan) float_zero (None :: call_request option) = Inr (cfg, s)"
    by (simp add: new_runtime_def sample_config_def valid again scratch optE_def id inputs store catchE_def raise_if_def)
  have "counts_ok (aggregate_ceiling (budget_ledger (rc_plan (sample_config plan))))"
    using sample_counts by (simp add: sample_config_def p(4) t ledger_of_def sample_task_validated_def sample_task_of_def)
  moreover have "env_contract sample_env"
    by (simp add: env_contract_def sample_env_def sample_port_def typed_errors_def)
  ultimately show thesis using that [of "sample_config plan", OF _ new] plan by (simp add: sample_config_def)
qed

theorem run_of_compiled_plan_sound_witness:
  "\<exists>cfg0 cfg s. new_runtime zero_sha (\<lambda>_. False) cfg0 float_zero None = Inr (cfg, s) \<and> (case composite_run sample_env cfg s of
      None \<Rightarrow> True
    | Some (Inl e, t) \<Rightarrow> \<not> internal_error e
    | Some (Inr r, t) \<Rightarrow> require_unified_diff (rr_patch r) = Inr () \<and> s_reconciled (rr_budget r))"
proof -
  obtain cfg0 cfg s where c:
    "compile_composite_run_plan zero_sha sample_metadata sample_task sample_protocol sample_manifest None = Inr (rc_plan cfg0)"
    "new_runtime zero_sha (\<lambda>_. False) cfg0 float_zero (None :: call_request option) = Inr (cfg, s)"
    "counts_ok (aggregate_ceiling (budget_ledger (rc_plan cfg0)))" "env_contract sample_env"
    by (rule sample_starts)
  have "re_sha sample_env = zero_sha" by (simp add: sample_env_def)
  from c(2) run_of_compiled_plan_sound [of sample_env, unfolded this, OF c]
  show ?thesis by (intro exI [of _ cfg0] exI [of _ cfg] exI [of _ s] conjI) (auto split: option.splits sum.splits)
qed

theorem run_accounts_for_rounds_witness:
  "\<exists>cfg0 cfg s. new_runtime zero_sha (\<lambda>_. False) cfg0 float_zero None = Inr (cfg, s) \<and> (case composite_run sample_env cfg s of
      None \<Rightarrow> True
    | Some (Inl e, t) \<Rightarrow> True
    | Some (Inr r, t) \<Rightarrow> t_model_calls (s_totals (rr_budget r)) = run_usage ModelCalls (rr_calls r))"
proof -
  obtain cfg0 cfg s where c:
    "compile_composite_run_plan zero_sha sample_metadata sample_task sample_protocol sample_manifest None = Inr (rc_plan cfg0)"
    "new_runtime zero_sha (\<lambda>_. False) cfg0 float_zero (None :: call_request option) = Inr (cfg, s)"
    "counts_ok (aggregate_ceiling (budget_ledger (rc_plan cfg0)))" "env_contract sample_env"
    by (rule sample_starts)
  have "re_sha sample_env = zero_sha" by (simp add: sample_env_def)
  from c(2) run_accounts_for_rounds [of sample_env, unfolded this, OF c]
  show ?thesis by (intro exI [of _ cfg0] exI [of _ cfg] exI [of _ s] conjI) (auto split: option.splits sum.splits)
qed


end
