(* ===== verification/Outcomes.thy ===== *)
theory Outcomes
  imports Provider
begin

text \<open>
  The contracts of paired outcomes: pair keys, evaluator receipts (\<open>contracts/outcomes.py\<close>) and the
  public proof bindings that tie a receipt to the evidence of its run
  (\<open>contracts/promotion_proof.py\<close>). A record is a model, a \<open>validate_\<close> function its validators. The
  fields whose type has one value are left out of the records and are constants of the payloads.
\<close>

section \<open>Pair keys\<close>

record pair_key =
  pk_task_manifest_id :: string
  pk_environment_id :: string
  pk_sampling_replicate :: int
  pk_provider_config_digest :: string

definition validate_pair_key :: "pair_key \<Rightarrow> pair_key res" where
  "validate_pair_key k = validated (
     bindE (require_nonempty (pk_task_manifest_id k) ''task_manifest_id'') (\<lambda>t.
     bindE (require_nonempty (pk_environment_id k) ''environment_id'') (\<lambda>e.
     thenE (require_ge0 (pk_sampling_replicate k) ''sampling_replicate'') (
     bindE (require_digest (pk_provider_config_digest k) ''provider_config_digest'') (\<lambda>p.
     Inr (k\<lparr>pk_task_manifest_id := t, pk_environment_id := e, pk_provider_config_digest := p\<rparr>))))))"

definition pair_key_payload :: "pair_key \<Rightarrow> (string \<times> pyval) list" where
  "pair_key_payload k =
     [(''task_manifest_id'', PStr (pk_task_manifest_id k)), (''environment_id'', PStr (pk_environment_id k)),
      (''sampling_replicate'', PInt (pk_sampling_replicate k)),
      (''provider_config_digest'', PStr (pk_provider_config_digest k))]"

definition pair_key_digest :: "sha256 \<Rightarrow> pair_key \<Rightarrow> string" where
  "pair_key_digest sha k = evidence_digest sha (obj ((''kind'', PStr ''pair-key'') # pair_key_payload k))"

section \<open>Receipts\<close>

record outcome_health =
  oh_process_integrity :: bool
  oh_no_leakage :: bool
  oh_environment_integrity :: bool
  oh_evaluator_integrity :: bool
  oh_accounting_complete :: bool

definition passes_promotion_floor :: "outcome_health \<Rightarrow> bool" where
  "passes_promotion_floor h \<longleftrightarrow> oh_process_integrity h \<and> oh_no_leakage h \<and> oh_environment_integrity h \<and>
     oh_evaluator_integrity h \<and> oh_accounting_complete h"

record outcome_cost =
  oc_model_calls :: int
  oc_input_tokens :: int
  oc_output_tokens :: int
  oc_cached_tokens :: int
  oc_cache_write_tokens :: int
  oc_tool_calls :: int
  oc_tool_output_bytes :: int
  oc_artifact_bytes :: int
  oc_patch_bytes :: int
  oc_retries :: int
  oc_wall_time_ms :: int
  oc_known_cost_usd :: pyfloat
  oc_estimated_cost_usd :: pyfloat
  oc_unknown_dollars :: bool
  oc_within_epoch_envelope :: bool

definition cost_counts :: "outcome_cost \<Rightarrow> (string \<times> int) list" where
  "cost_counts c = [(''model_calls'', oc_model_calls c), (''input_tokens'', oc_input_tokens c),
     (''output_tokens'', oc_output_tokens c), (''cached_tokens'', oc_cached_tokens c),
     (''cache_write_tokens'', oc_cache_write_tokens c), (''tool_calls'', oc_tool_calls c),
     (''tool_output_bytes'', oc_tool_output_bytes c), (''artifact_bytes'', oc_artifact_bytes c),
     (''patch_bytes'', oc_patch_bytes c), (''retries'', oc_retries c), (''wall_time_ms'', oc_wall_time_ms c)]"

definition validate_outcome_cost :: "outcome_cost \<Rightarrow> outcome_cost res" where
  "validate_outcome_cost c = validated (
     thenE (forE (\<lambda>(n, v). require_ge0 v n) (cost_counts c)) (
     thenE (require_float_ge0 (oc_known_cost_usd c) ''known_cost_usd'') (
     thenE (require_float_ge0 (oc_estimated_cost_usd c) ''estimated_cost_usd'') (
     thenE (raise_if (oc_input_tokens c < oc_cached_tokens c + oc_cache_write_tokens c)
       (ValueError ''cached and cache-write tokens must be input-token subcategories''))
     (Inr c)))))"

record diagnostic_score =
  ds_name :: string
  ds_value :: pyfloat

definition validate_diagnostic_score :: "diagnostic_score \<Rightarrow> diagnostic_score res" where
  "validate_diagnostic_score d = validated (
     bindE (require_nonempty (ds_name d) ''diagnostic score name'') (\<lambda>n. Inr (d\<lparr>ds_name := n\<rparr>)))"

text \<open>The identity fields that a receipt shares with the public evidence of its run, as strings where
  the models store enum values.\<close>

record run_identity =
  ri_contract_version :: string
  ri_mode :: execution_mode
  ri_status :: inference_status
  ri_requests_sent :: int
  ri_capability_epoch :: string
  ri_data_state :: string
  ri_epoch_id :: string
  ri_epoch_manifest_digest :: string
  ri_release_digest :: string
  ri_release_manifest_digest :: string
  ri_profile_digest :: string
  ri_split_manifest_digest :: string
  ri_task_manifest_digest :: string
  ri_protocol_digest :: string
  ri_compiler_digest :: string
  ri_kernel_digest :: string
  ri_tool_manifest_digest :: string
  ri_provider_config_digest :: string
  ri_decoding_policy_digest :: string
  ri_price_schedule_digest :: string
  ri_command_container_policy_digest :: string
  ri_patch_digest :: string

fun mode_text :: "execution_mode \<Rightarrow> string" where
  "mode_text DeterministicReplay = ''deterministic_replay''"
| "mode_text LiveProvider = ''live_provider''"

fun inference_text :: "inference_status \<Rightarrow> string" where
  "inference_text InferenceNotRun = ''not_run''"
| "inference_text InferenceCompleted = ''completed''"
| "inference_text InferenceFailed = ''failed''"

definition identity_fields :: "'z run_identity_scheme \<Rightarrow> (string \<times> pyval) list" where
  "identity_fields r =
     [(''runtime_contract_version'', PStr (ri_contract_version r)),
      (''execution_mode'', PStr (mode_text (ri_mode r))),
      (''live_inference_status'', PStr (inference_text (ri_status r))),
      (''real_inference_requests_sent'', PInt (ri_requests_sent r)),
      (''capability_epoch'', PStr (ri_capability_epoch r)), (''data_state'', PStr (ri_data_state r)),
      (''epoch_id'', PStr (ri_epoch_id r)), (''epoch_manifest_digest'', PStr (ri_epoch_manifest_digest r)),
      (''release_digest'', PStr (ri_release_digest r)),
      (''release_manifest_digest'', PStr (ri_release_manifest_digest r)),
      (''profile_digest'', PStr (ri_profile_digest r)),
      (''split_manifest_digest'', PStr (ri_split_manifest_digest r)),
      (''task_manifest_digest'', PStr (ri_task_manifest_digest r)),
      (''protocol_digest'', PStr (ri_protocol_digest r)),
      (''compiler_digest'', PStr (ri_compiler_digest r)), (''kernel_digest'', PStr (ri_kernel_digest r)),
      (''tool_manifest_digest'', PStr (ri_tool_manifest_digest r)),
      (''provider_config_digest'', PStr (ri_provider_config_digest r)),
      (''decoding_policy_digest'', PStr (ri_decoding_policy_digest r)),
      (''price_schedule_digest'', PStr (ri_price_schedule_digest r)),
      (''command_container_policy_digest'', PStr (ri_command_container_policy_digest r)),
      (''patch_digest'', PStr (ri_patch_digest r))]"

definition validate_identity_digests :: "'z run_identity_scheme \<Rightarrow> 'z run_identity_scheme res" where
  "validate_identity_digests r =
     bindE (require_digest (ri_epoch_manifest_digest r) ''epoch_manifest_digest'') (\<lambda>a.
     bindE (require_digest (ri_release_digest r) ''release_digest'') (\<lambda>b.
     bindE (require_digest (ri_release_manifest_digest r) ''release_manifest_digest'') (\<lambda>c.
     bindE (require_digest (ri_profile_digest r) ''profile_digest'') (\<lambda>d.
     bindE (require_digest (ri_split_manifest_digest r) ''split_manifest_digest'') (\<lambda>e.
     bindE (require_digest (ri_task_manifest_digest r) ''task_manifest_digest'') (\<lambda>f.
     bindE (require_digest (ri_protocol_digest r) ''protocol_digest'') (\<lambda>g.
     bindE (require_digest (ri_compiler_digest r) ''compiler_digest'') (\<lambda>h.
     bindE (require_digest (ri_kernel_digest r) ''kernel_digest'') (\<lambda>i.
     bindE (require_digest (ri_tool_manifest_digest r) ''tool_manifest_digest'') (\<lambda>j.
     bindE (require_digest (ri_provider_config_digest r) ''provider_config_digest'') (\<lambda>k.
     bindE (require_digest (ri_decoding_policy_digest r) ''decoding_policy_digest'') (\<lambda>l.
     bindE (require_digest (ri_price_schedule_digest r) ''price_schedule_digest'') (\<lambda>m.
     bindE (require_digest (ri_command_container_policy_digest r) ''command_container_policy_digest'') (\<lambda>n.
     bindE (require_digest (ri_patch_digest r) ''patch_digest'') (\<lambda>p.
     Inr (r\<lparr>ri_epoch_manifest_digest := a, ri_release_digest := b, ri_release_manifest_digest := c,
       ri_profile_digest := d, ri_split_manifest_digest := e, ri_task_manifest_digest := f,
       ri_protocol_digest := g, ri_compiler_digest := h, ri_kernel_digest := i, ri_tool_manifest_digest :=
       j, ri_provider_config_digest := k, ri_decoding_policy_digest := l, ri_price_schedule_digest := m,
       ri_command_container_policy_digest := n, ri_patch_digest := p\<rparr>))))))))))))))))"

text \<open>A replay claims no live inference; a live run has requests exactly if inference was run.\<close>

definition check_live_claims :: "string \<Rightarrow> string \<Rightarrow> 'z run_identity_scheme \<Rightarrow> unit res" where
  "check_live_claims replay_message live_message r =
     thenE (raise_if (ri_mode r = DeterministicReplay \<and> (ri_status r \<noteq> InferenceNotRun \<or> ri_requests_sent r \<noteq> 0))
       (ValueError replay_message))
     (raise_if (ri_mode r = LiveProvider \<and> (ri_status r = InferenceNotRun) \<noteq> (ri_requests_sent r = 0))
       (ValueError live_message))"

record outcome_receipt = run_identity +
  or_receipt_id :: string
  or_receipt_digest :: string
  or_task_manifest_id :: string
  or_evaluation_contract_id :: string
  or_evaluation_contract_digest :: string
  or_evaluator_id :: string
  or_evaluator_identity_digest :: string
  or_evaluation_policy_digest :: string
  or_pair_key :: pair_key
  or_evaluator_environment_digest :: string
  or_complete_repair :: bool
  or_health :: outcome_health
  or_exclusions :: "string list"
  or_cost :: outcome_cost
  or_diagnostics :: "diagnostic_score list"
  or_issued_at_ms :: int

definition health_payload :: "outcome_health \<Rightarrow> pyval" where
  "health_payload h = obj
     [(''process_integrity'', PBool (oh_process_integrity h)), (''no_leakage'', PBool (oh_no_leakage h)),
      (''environment_integrity'', PBool (oh_environment_integrity h)),
      (''evaluator_integrity'', PBool (oh_evaluator_integrity h)),
      (''accounting_complete'', PBool (oh_accounting_complete h))]"

definition cost_payload :: "outcome_cost \<Rightarrow> pyval" where
  "cost_payload c = obj (map (\<lambda>(n, v). (n, PInt v)) (cost_counts c) @
     [(''known_cost_usd'', PFloat (oc_known_cost_usd c)), (''estimated_cost_usd'', PFloat (oc_estimated_cost_usd c)),
      (''unknown_dollars'', PBool (oc_unknown_dollars c)),
      (''within_epoch_envelope'', PBool (oc_within_epoch_envelope c))])"

definition outcome_receipt_identity_payload :: "outcome_receipt \<Rightarrow> (string \<times> pyval) list" where
  "outcome_receipt_identity_payload r = identity_fields r @
     [(''receipt_id'', PStr (or_receipt_id r)), (''authority'', PStr ''evaluator_owned''),
      (''outcome_kind'', PStr ''complete_repair''), (''task_manifest_id'', PStr (or_task_manifest_id r)),
      (''evaluation_contract_id'', PStr (or_evaluation_contract_id r)),
      (''evaluation_contract_digest'', PStr (or_evaluation_contract_digest r)),
      (''evaluator_id'', PStr (or_evaluator_id r)),
      (''evaluator_identity_digest'', PStr (or_evaluator_identity_digest r)),
      (''evaluation_policy_digest'', PStr (or_evaluation_policy_digest r)),
      (''pair_key'', obj (pair_key_payload (or_pair_key r))),
      (''evaluator_environment_digest'', PStr (or_evaluator_environment_digest r)),
      (''complete_repair'', PBool (or_complete_repair r)), (''health'', health_payload (or_health r)),
      (''exclusions'', PTuple (map PStr (or_exclusions r))), (''cost'', cost_payload (or_cost r)),
      (''diagnostics'', PTuple (map (\<lambda>d. obj [(''name'', PStr (ds_name d)), (''value'', PFloat (ds_value d))])
        (or_diagnostics r))),
      (''issued_at_ms'', PInt (or_issued_at_ms r))]"

definition outcome_receipt_digest :: "sha256 \<Rightarrow> outcome_receipt \<Rightarrow> string" where
  "outcome_receipt_digest sha r = evidence_digest sha (obj
     [(''kind'', PStr ''repo-repair-outcome-receipt-v1''), (''receipt'', obj (outcome_receipt_identity_payload r))])"

definition check_receipt :: "sha256 \<Rightarrow> outcome_receipt \<Rightarrow> outcome_receipt res" where
  "check_receipt sha r =
     thenE (check_live_claims ''deterministic evaluator receipt cannot claim live inference''
       ''live evaluator receipt status disagrees with request count'' r) (
     thenE (raise_if (or_task_manifest_id r \<noteq> pk_task_manifest_id (or_pair_key r))
       (ValueError ''outcome receipt task_manifest_id does not match its PairKey'')) (
     thenE (raise_if (\<not> distinct (or_exclusions r)) (ValueError ''outcome receipt exclusions may not contain duplicates'')) (
     thenE (raise_if (list_ex (\<lambda>x. py_strip x = []) (or_exclusions r))
       (ValueError ''outcome receipt exclusions may not contain empty reasons'')) (
     let computed = outcome_receipt_digest sha r in
     thenE (raise_if (or_receipt_digest r \<noteq> [] \<and> or_receipt_digest r \<noteq> computed)
       (ValueError ''receipt_digest does not match the outcome receipt''))
     (Inr (if or_receipt_digest r = [] then r\<lparr>or_receipt_digest := computed\<rparr> else r))))))"

definition validate_outcome_receipt :: "sha256 \<Rightarrow> outcome_receipt \<Rightarrow> outcome_receipt res" where
  "validate_outcome_receipt sha r = validated (
     thenE (raise_if (ri_contract_version r \<noteq> runtime_contract_version_const)
       (ValueError ''outcome receipt runtime contract version mismatch'')) (
     thenE (raise_if (ri_capability_epoch r \<noteq> ''repo-repair-v1'') (ValueError ''capability_epoch literal_error'')) (
     thenE (raise_if (ri_data_state r \<notin> {''development'', ''sealed_confirmation''}) (ValueError ''data_state literal_error'')) (
     thenE (require_ge0 (ri_requests_sent r) ''real_inference_requests_sent'') (
     bindE (require_nonempty (or_receipt_id r) ''receipt_id'') (\<lambda>i.
     bindE (require_nonempty (ri_epoch_id r) ''epoch_id'') (\<lambda>ep.
     bindE (validate_identity_digests r) (\<lambda>r.
     bindE (require_nonempty (or_task_manifest_id r) ''task_manifest_id'') (\<lambda>t.
     bindE (require_nonempty (or_evaluation_contract_id r) ''evaluation_contract_id'') (\<lambda>c.
     bindE (require_digest (or_evaluation_contract_digest r) ''evaluation_contract_digest'') (\<lambda>cd.
     bindE (require_nonempty (or_evaluator_id r) ''evaluator_id'') (\<lambda>v.
     bindE (require_digest (or_evaluator_identity_digest r) ''evaluator_identity_digest'') (\<lambda>vd.
     bindE (require_digest (or_evaluation_policy_digest r) ''evaluation_policy_digest'') (\<lambda>pd.
     bindE (validate_pair_key (or_pair_key r)) (\<lambda>k.
     bindE (require_digest (or_evaluator_environment_digest r) ''evaluator_environment_digest'') (\<lambda>ed.
     bindE (validate_outcome_cost (or_cost r)) (\<lambda>cost.
     bindE (mapE validate_diagnostic_score (or_diagnostics r)) (\<lambda>ds.
     thenE (require_ge0 (or_issued_at_ms r) ''issued_at_ms'')
     (check_receipt sha (r\<lparr>or_receipt_id := i, ri_epoch_id := ep, or_task_manifest_id := t,
       or_evaluation_contract_id := c, or_evaluation_contract_digest := cd, or_evaluator_id := v,
       or_evaluator_identity_digest := vd, or_evaluation_policy_digest := pd, or_pair_key := k,
       or_evaluator_environment_digest := ed, or_cost := cost, or_diagnostics := ds\<rparr>))))))))))))))))))))"

section \<open>Public run evidence\<close>

datatype run_arm = IntactArm | NeutralArtifactArm

fun arm_text :: "run_arm \<Rightarrow> string" where
  "arm_text IntactArm = ''intact''"
| "arm_text NeutralArtifactArm = ''neutral_artifact''"

record run_projection = run_identity +
  rp_evidence_id :: string
  rp_evidence_digest :: string
  rp_run_id :: string
  rp_arm :: run_arm
  rp_intervention_digest :: "string option"
  rp_pair_key :: pair_key
  rp_compiled_semantic_digest :: string
  rp_dependency_manifest_digest :: string
  rp_deployment_id :: string
  rp_provider :: string
  rp_model :: string
  rp_cost_ledger_digest :: string
  rp_runtime_environment_digest :: string
  rp_healthy :: bool

definition check_projection :: "run_projection \<Rightarrow> run_projection res" where
  "check_projection e =
     thenE (raise_if (ri_contract_version e \<noteq> runtime_contract_version_const)
       (ValueError ''run-evidence projection runtime contract version mismatch'')) (
     thenE (raise_if (pk_provider_config_digest (rp_pair_key e) \<noteq> ri_provider_config_digest e)
       (ValueError ''run-evidence projection crossed PairKey provider configuration'')) (
     thenE (raise_if ((rp_arm e = NeutralArtifactArm) \<noteq> (rp_intervention_digest e \<noteq> None))
       (ValueError ''run-evidence projection intervention identity is inconsistent'')) (
     thenE (check_live_claims ''replay projection may not claim live inference''
       ''live projection inference status and sent count disagree'' e) (Inr e))))"

definition validate_run_projection :: "run_projection \<Rightarrow> run_projection res" where
  "validate_run_projection e = validated (
     thenE (require_ge0 (ri_requests_sent e) ''real_inference_requests_sent'') (
     bindE (require_nonempty (rp_evidence_id e) ''evidence_id'') (\<lambda>i.
     bindE (require_digest (rp_evidence_digest e) ''evidence_digest'') (\<lambda>ed.
     bindE (require_nonempty (rp_run_id e) ''run_id'') (\<lambda>run.
     bindE (optE (\<lambda>d. require_digest d ''intervention_digest'') (rp_intervention_digest e)) (\<lambda>iv.
     bindE (require_nonempty (ri_capability_epoch e) ''capability_epoch'') (\<lambda>ce.
     bindE (require_nonempty (ri_data_state e) ''data_state'') (\<lambda>ds.
     bindE (require_nonempty (ri_epoch_id e) ''epoch_id'') (\<lambda>ep.
     bindE (validate_identity_digests e) (\<lambda>e.
     bindE (validate_pair_key (rp_pair_key e)) (\<lambda>k.
     bindE (require_digest (rp_compiled_semantic_digest e) ''compiled_semantic_digest'') (\<lambda>cs.
     bindE (require_digest (rp_dependency_manifest_digest e) ''dependency_manifest_digest'') (\<lambda>dm.
     bindE (require_nonempty (rp_deployment_id e) ''deployment_id'') (\<lambda>dep.
     bindE (require_nonempty (rp_provider e) ''provider'') (\<lambda>prov.
     bindE (require_nonempty (rp_model e) ''model'') (\<lambda>md.
     bindE (require_digest (rp_cost_ledger_digest e) ''cost_ledger_digest'') (\<lambda>cl.
     bindE (require_digest (rp_runtime_environment_digest e) ''runtime_environment_digest'') (\<lambda>re.
     check_projection (e\<lparr>rp_evidence_id := i, rp_evidence_digest := ed, rp_run_id := run,
       rp_intervention_digest := iv, ri_capability_epoch := ce, ri_data_state := ds, ri_epoch_id := ep,
       rp_pair_key := k, rp_compiled_semantic_digest := cs, rp_dependency_manifest_digest := dm,
       rp_deployment_id := dep, rp_provider := prov, rp_model := md, rp_cost_ledger_digest := cl,
       rp_runtime_environment_digest := re\<rparr>)))))))))))))))))))"

definition run_projection_payload :: "run_projection \<Rightarrow> pyval" where
  "run_projection_payload e = obj ((''schema_version'', PStr ''repo-repair-run-evidence-v1'') # identity_fields e @
     [(''evidence_id'', PStr (rp_evidence_id e)), (''evidence_digest'', PStr (rp_evidence_digest e)),
      (''run_id'', PStr (rp_run_id e)), (''arm'', PStr (arm_text (rp_arm e)))] @
     (case rp_intervention_digest e of None \<Rightarrow> [] | Some d \<Rightarrow> [(''intervention_digest'', PStr d)]) @
     [(''pair_key'', obj (pair_key_payload (rp_pair_key e))),
      (''compiled_semantic_digest'', PStr (rp_compiled_semantic_digest e)),
      (''dependency_manifest_digest'', PStr (rp_dependency_manifest_digest e)),
      (''deployment_id'', PStr (rp_deployment_id e)), (''provider'', PStr (rp_provider e)), (''model'', PStr (rp_model e)),
      (''cost_ledger_digest'', PStr (rp_cost_ledger_digest e)),
      (''runtime_environment_digest'', PStr (rp_runtime_environment_digest e)), (''healthy'', PBool (rp_healthy e))])"

section \<open>Proof bindings\<close>

record proof_binding =
  pb_contract_version :: string
  pb_binding_digest :: string
  pb_outcome_receipt :: outcome_receipt
  pb_proof_record_id :: string
  pb_proof_record_digest :: string
  pb_public_proof_digest :: string
  pb_run_evidence :: run_projection
  pb_run_evidence_digest :: string
  pb_store_manifest_ref :: string
  pb_proof_record_ref :: string
  pb_outcome_link_ref :: string

definition controlled_ref :: "string \<Rightarrow> string \<Rightarrow> string res" where
  "controlled_ref value field_name =
     (let normalized = backslash_to_slash (py_strip value)
      in if normalized = [] \<or> hd normalized = CHR ''/'' \<or> ''..'' \<in> set (posix_parts normalized)
         then Inl (ValueError (field_name @ '' must be a controlled store-relative path''))
         else Inr normalized)"

definition public_promotion_proof_digest :: "sha256 \<Rightarrow> proof_binding \<Rightarrow> string" where
  "public_promotion_proof_digest sha b = evidence_digest sha (obj
     [(''schema_version'', PStr ''repo-repair-public-promotion-proof-v1''),
      (''runtime_contract_version'', PStr (pb_contract_version b)),
      (''proof_record_id'', PStr (pb_proof_record_id b)), (''proof_record_digest'', PStr (pb_proof_record_digest b)),
      (''run_evidence'', run_projection_payload (pb_run_evidence b)),
      (''run_evidence_digest'', PStr (pb_run_evidence_digest b)),
      (''outcome_receipt_digest'', PStr (or_receipt_digest (pb_outcome_receipt b))),
      (''store_manifest_ref'', PStr (pb_store_manifest_ref b)), (''proof_record_ref'', PStr (pb_proof_record_ref b)),
      (''outcome_link_ref'', PStr (pb_outcome_link_ref b))])"

definition evaluator_outcome_proof_binding_digest :: "sha256 \<Rightarrow> proof_binding \<Rightarrow> string" where
  "evaluator_outcome_proof_binding_digest sha b = evidence_digest sha (obj
     [(''kind'', PStr ''repo-repair-evaluator-outcome-proof-binding-v1''),
      (''outcome_receipt_digest'', PStr (or_receipt_digest (pb_outcome_receipt b))),
      (''public_proof_digest'', PStr (pb_public_proof_digest b))])"

text \<open>The checks of \<open>validate_binding\<close>, then the two digests are filled in or compared.\<close>

definition check_binding :: "sha256 \<Rightarrow> proof_binding \<Rightarrow> unit res" where
  "check_binding sha b =
     (let r = pb_outcome_receipt b; e = pb_run_evidence b in
     thenE (raise_if (pb_contract_version b \<noteq> runtime_contract_version_const)
       (ValueError ''proof binding runtime contract version mismatch'')) (
     thenE (raise_if (or_receipt_digest r \<noteq> outcome_receipt_digest sha r)
       (ValueError ''proof binding contains a non-canonical OutcomeReceipt'')) (
     thenE (raise_if (pb_run_evidence_digest b \<noteq> rp_evidence_digest e)
       (ValueError ''proof binding crossed its RunEvidence digest'')) (
     thenE (raise_if (identity_fields r \<noteq> identity_fields e)
       (ValueError ''OutcomeReceipt crossed public RunEvidence identities'')) (
     thenE (raise_if (or_pair_key r \<noteq> rp_pair_key e) (ValueError ''OutcomeReceipt PairKey crossed public RunEvidence'')) (
     thenE (raise_if (or_task_manifest_id r \<noteq> pk_task_manifest_id (rp_pair_key e))
       (ValueError ''OutcomeReceipt task identity crossed public RunEvidence'')) (
     thenE (raise_if (pb_store_manifest_ref b \<noteq> ''store_manifest.json'')
       (ValueError ''proof binding crossed the proof-store manifest'')) (
     thenE (raise_if (pb_proof_record_ref b \<noteq> ''runs/'' @ pair_key_digest sha (rp_pair_key e) @ ''/'' @
         ri_protocol_digest e @ ''/'' @ rp_evidence_digest e @ ''.json'')
       (ValueError ''proof binding record ref crossed PairKey/protocol/RunEvidence''))
     (raise_if (pb_outcome_link_ref b \<noteq> ''outcome_links/'' @ or_receipt_digest r @ ''.json'')
       (ValueError ''proof binding outcome ref crossed OutcomeReceipt''))))))))))"

definition bind_public_proof :: "sha256 \<Rightarrow> proof_binding \<Rightarrow> proof_binding res" where
  "bind_public_proof sha b =
     (let computed = public_promotion_proof_digest sha b in
     thenE (raise_if (pb_public_proof_digest b \<noteq> [] \<and> pb_public_proof_digest b \<noteq> computed)
       (ValueError ''public_proof_digest does not match the public proof projection''))
     (Inr (b\<lparr>pb_public_proof_digest := computed\<rparr>)))"

definition bind_binding_digest :: "sha256 \<Rightarrow> proof_binding \<Rightarrow> proof_binding res" where
  "bind_binding_digest sha b =
     (let computed = evaluator_outcome_proof_binding_digest sha b in
     thenE (raise_if (pb_binding_digest b \<noteq> [] \<and> pb_binding_digest b \<noteq> computed)
       (ValueError ''binding_digest does not match evaluator outcome proof binding''))
     (Inr (b\<lparr>pb_binding_digest := computed\<rparr>)))"

definition optional_digest :: "string \<Rightarrow> string \<Rightarrow> string res" where
  "optional_digest value field_name = (if value = [] then Inr [] else require_digest value field_name)"

definition validate_proof_binding :: "sha256 \<Rightarrow> proof_binding \<Rightarrow> proof_binding res" where
  "validate_proof_binding sha b = validated (
     bindE (optional_digest (pb_binding_digest b) ''binding_digest'') (\<lambda>bd.
     bindE (require_nonempty (pb_proof_record_id b) ''proof_record_id'') (\<lambda>i.
     bindE (require_digest (pb_proof_record_digest b) ''proof_record_digest'') (\<lambda>d.
     bindE (optional_digest (pb_public_proof_digest b) ''public_proof_digest'') (\<lambda>pd.
     bindE (require_digest (pb_run_evidence_digest b) ''run_evidence_digest'') (\<lambda>ed.
     bindE (controlled_ref (pb_store_manifest_ref b) ''store_manifest_ref'') (\<lambda>sr.
     bindE (controlled_ref (pb_proof_record_ref b) ''proof_record_ref'') (\<lambda>pr.
     bindE (controlled_ref (pb_outcome_link_ref b) ''outcome_link_ref'') (\<lambda>lr.
     let b = b\<lparr>pb_binding_digest := bd, pb_proof_record_id := i, pb_proof_record_digest := d,
       pb_public_proof_digest := pd, pb_run_evidence_digest := ed, pb_store_manifest_ref := sr,
       pb_proof_record_ref := pr, pb_outcome_link_ref := lr\<rparr> in
     thenE (check_binding sha b) (bindE (bind_public_proof sha b) (bind_binding_digest sha)))))))))))"

end
