(* ===== verification/Promotion.thy ===== *)
theory Promotion
  imports Outcomes
begin

text \<open>
  The promotion gate (\<open>search/promotion.py\<close>) and the join of paired outcomes
  (\<open>evaluation/pairing.py\<close>): a child protocol is retained, and promoted, only on evaluator-owned
  receipts paired with its parent by pair key. Dicts keyed by pair-key digest are association
  lists in insertion order.
\<close>

section \<open>One receipt\<close>

definition refuse_if :: "bool \<Rightarrow> string \<Rightarrow> unit res" where
  "refuse_if b m = raise_if b (PromotionRefusal m)"

definition count_checks :: "outcome_cost \<Rightarrow> task_ceilings \<Rightarrow> (int \<times> int) list" where
  "count_checks c l =
     [(oc_model_calls c, max_model_calls l), (oc_input_tokens c, max_input_tokens l),
      (oc_output_tokens c, max_output_tokens l), (oc_cached_tokens c, max_cached_tokens l),
      (oc_cache_write_tokens c, max_cache_write_tokens l), (oc_tool_calls c, max_tool_calls l),
      (oc_tool_output_bytes c, max_tool_output_bytes l), (oc_artifact_bytes c, max_artifact_bytes l),
      (oc_patch_bytes c, max_patch_bytes l), (oc_retries c, max_retries l), (oc_wall_time_ms c, max_wall_time_ms l)]"

definition assert_cost_within_epoch :: "outcome_receipt \<Rightarrow> research_epoch \<Rightarrow> unit res" where
  "assert_cost_within_epoch r ep =
     (let c = or_cost r; l = per_run_ceilings ep in
     thenE (refuse_if (oc_unknown_dollars c) ''outcome cost contains unknown dollars'') (
     thenE (refuse_if (\<not> oc_within_epoch_envelope c) ''outcome receipt reports an exceeded epoch envelope'')
     (refuse_if (list_ex (\<lambda>(v, m). m < v) (count_checks c l) \<or>
         float_lt (max_known_cost_usd l) (oc_known_cost_usd c) \<or>
         float_lt (max_estimated_cost_usd l) (float_add (oc_known_cost_usd c) (oc_estimated_cost_usd c)))
       ''outcome receipt exceeds epoch ceilings'')))"

definition deployment_digests :: "deployment_identity \<Rightarrow> string list" where
  "deployment_digests d = [dep_provider_config_digest d, dep_decoding_policy_digest d, dep_price_schedule_digest d,
     dep_command_container_policy_digest d]"

definition identity_deployment :: "'z run_identity_scheme \<Rightarrow> string list" where
  "identity_deployment r = [ri_provider_config_digest r, ri_decoding_policy_digest r, ri_price_schedule_digest r,
     ri_command_container_policy_digest r]"

definition assert_authoritative_outcome_receipt :: "sha256 \<Rightarrow> outcome_receipt \<Rightarrow> research_epoch \<Rightarrow> unit res" where
  "assert_authoritative_outcome_receipt sha r ep =
     (let a = ep_evaluator_authority ep; d = deployment ep in
     thenE (refuse_if (or_receipt_digest r \<noteq> outcome_receipt_digest sha r) ''outcome receipt digest does not match its payload'') (
     thenE (refuse_if (ri_contract_version r \<noteq> ep_contract_version ep)
       ''outcome receipt runtime contract version crossed the epoch'') (
     thenE (refuse_if (ri_capability_epoch r \<noteq> ''repo-repair-v1'') ''outcome receipt capability crossed the epoch'') (
     thenE (refuse_if (ri_epoch_id r \<noteq> ep_epoch_id ep) ''outcome receipt epoch_id crossed the pinned epoch'') (
     thenE (refuse_if (ri_epoch_manifest_digest r \<noteq> ep_manifest_digest ep)
       ''outcome receipt epoch digest crossed the pinned epoch'') (
     thenE (refuse_if (ri_data_state r \<noteq> ''development'')
       ''sealed-confirmation outcomes may not drive development decisions'') (
     thenE (refuse_if (ri_split_manifest_digest r \<noteq> development_split_digest ep)
       ''outcome receipt crossed the pinned development split'') (
     thenE (refuse_if (or_evaluator_id r \<noteq> ev_evaluator_id a) ''outcome receipt evaluator_id crossed the pinned evaluator'') (
     thenE (refuse_if (or_evaluator_identity_digest r \<noteq> ev_identity_digest a)
       ''outcome receipt evaluator digest crossed the pinned evaluator'') (
     thenE (refuse_if (or_evaluation_policy_digest r \<noteq> ev_policy_digest a)
       ''outcome receipt evaluation policy crossed the pinned evaluator'') (
     thenE (refuse_if (pk_provider_config_digest (or_pair_key r) \<noteq> dep_provider_config_digest d)
       ''outcome receipt provider configuration crossed the pinned deployment'') (
     thenE (refuse_if (identity_deployment r \<noteq> deployment_digests d) ''outcome receipt crossed the pinned deployment'') (
     thenE (refuse_if (\<not> passes_promotion_floor (or_health r))
       ''outcome receipt failed a process/no-leakage/integrity health floor'') (
     thenE (refuse_if (or_exclusions r \<noteq> [])
       ''excluded evaluator outcomes may not authorize development decisions'')
     (assert_cost_within_epoch r ep)))))))))))))))"

section \<open>One proof\<close>

definition assert_authoritative_outcome_proof ::
    "sha256 \<Rightarrow> proof_binding \<Rightarrow> research_epoch \<Rightarrow> string option \<Rightarrow> unit res" where
  "assert_authoritative_outcome_proof sha b ep profile =
     (let r = pb_outcome_receipt b; run = pb_run_evidence b; d = deployment ep in
     thenE (refuse_if (pb_public_proof_digest b \<noteq> public_promotion_proof_digest sha b)
       ''public proof digest does not match its projection'') (
     thenE (refuse_if (pb_binding_digest b \<noteq> evaluator_outcome_proof_binding_digest sha b)
       ''evaluator outcome proof binding digest does not match its payload'') (
     thenE (assert_authoritative_outcome_receipt sha r ep) (
     thenE (refuse_if (rp_deployment_id run \<noteq> deployment_id d \<or> rp_provider run \<noteq> dep_provider d \<or>
         rp_model run \<noteq> dep_model d \<or> identity_deployment run \<noteq> deployment_digests d)
       ''public RunEvidence crossed the pinned deployment'') (
     thenE (refuse_if (profile \<noteq> None \<and> profile \<noteq> Some (ri_profile_digest run))
       ''public RunEvidence crossed the frozen deployment profile'') (
     thenE (refuse_if (rp_arm run \<noteq> IntactArm \<or> rp_intervention_digest run \<noteq> None)
       ''intervention RunEvidence may not authorize search retention'')
     (refuse_if (\<not> rp_healthy run) ''public RunEvidence failed its process integrity floor'')))))))"

section \<open>Panels\<close>

text \<open>Items keyed by pair-key digest; a repeated key is an error.\<close>

fun key_items :: "('a \<Rightarrow> unit res) \<Rightarrow> ('a \<Rightarrow> string) \<Rightarrow> exn \<Rightarrow> (string \<times> 'a) list \<Rightarrow> 'a list \<Rightarrow> (string \<times> 'a) list res" where
  "key_items check key dup known [] = Inr known"
| "key_items check key dup known (x # xs) =
     thenE (check x) (
     if map_of known (key x) \<noteq> None then Inl dup
     else key_items check key dup (known @ [(key x, x)]) xs)"

definition proof_key :: "sha256 \<Rightarrow> proof_binding \<Rightarrow> string" where
  "proof_key sha b = pair_key_digest sha (or_pair_key (pb_outcome_receipt b))"

definition release_identity :: "proof_binding \<Rightarrow> string list" where
  "release_identity b = (let e = pb_run_evidence b in
     [ri_release_digest e, ri_release_manifest_digest e, ri_profile_digest e, rp_deployment_id e, rp_provider e, rp_model e] @
     identity_deployment e)"

text \<open>\<open>len(set(xs)) == 1\<close>\<close>

definition single :: "'a list \<Rightarrow> bool" where
  "single xs \<longleftrightarrow> length (remdups xs) = 1"

definition proof_map ::
    "sha256 \<Rightarrow> research_epoch \<Rightarrow> string option \<Rightarrow> proof_binding list \<Rightarrow> (string \<times> proof_binding) list res" where
  "proof_map sha ep profile bs =
     thenE (refuse_if (bs = []) ''evaluator outcome proof bindings are required'') (
     bindE (key_items (\<lambda>b. assert_authoritative_outcome_proof sha b ep profile) (proof_key sha)
       (PromotionRefusal ''duplicate PairKey is not promotion evidence'') [] bs) (\<lambda>m.
     thenE (refuse_if (\<not> single (map (\<lambda>(k, b). release_identity b) m))
       ''proof panel crossed release or deployment identities'') (Inr m)))"

definition live_capability_proof :: "proof_binding \<Rightarrow> bool" where
  "live_capability_proof b = (let run = pb_run_evidence b; r = pb_outcome_receipt b in
     ri_mode run = LiveProvider \<and> ri_status run = InferenceCompleted \<and> 0 < ri_requests_sent run \<and>
     ri_mode r = LiveProvider \<and> ri_status r = InferenceCompleted \<and> 0 < ri_requests_sent r \<and>
     oc_model_calls (or_cost r) = ri_requests_sent r)"

definition paired_identity :: "outcome_receipt \<Rightarrow> string list" where
  "paired_identity r = [or_task_manifest_id r, ri_task_manifest_digest r, or_evaluation_contract_id r,
     or_evaluation_contract_digest r, ri_compiler_digest r, ri_kernel_digest r, ri_tool_manifest_digest r,
     ri_profile_digest r] @ identity_deployment r @ [or_evaluator_environment_digest r]"

record promotion_authorization =
  pa_authorization_id :: string
  pa_authorization_digest :: string
  pa_epoch_id :: string
  pa_epoch_manifest_digest :: string
  pa_parent_protocol_digest :: string
  pa_child_protocol_digest :: string
  pa_pair_key_digests :: "string list"
  pa_parent_receipt_digests :: "string list"
  pa_child_receipt_digests :: "string list"
  pa_parent_proof_digests :: "string list"
  pa_child_proof_digests :: "string list"
  pa_complete_repair_gain :: int
  pa_pair_regressions :: int
  pa_capability_authorized :: bool
  pa_capability_reason :: string

definition capability_reason :: "bool \<Rightarrow> string" where
  "capability_reason live = (if live then ''paired improvement is backed by live-provider RunEvidence''
     else ''paired improvement is implementation evidence only; live-provider RunEvidence is required for capability promotion'')"

definition authorization_payload :: "promotion_authorization \<Rightarrow> (string \<times> pyval) list" where
  "authorization_payload a =
     [(''authorization_id'', PStr (pa_authorization_id a)), (''decision'', PStr ''retain_child''),
      (''epoch_id'', PStr (pa_epoch_id a)), (''epoch_manifest_digest'', PStr (pa_epoch_manifest_digest a)),
      (''parent_protocol_digest'', PStr (pa_parent_protocol_digest a)),
      (''child_protocol_digest'', PStr (pa_child_protocol_digest a)),
      (''pair_key_digests'', PTuple (map PStr (pa_pair_key_digests a))),
      (''parent_receipt_digests'', PTuple (map PStr (pa_parent_receipt_digests a))),
      (''child_receipt_digests'', PTuple (map PStr (pa_child_receipt_digests a))),
      (''parent_proof_binding_digests'', PTuple (map PStr (pa_parent_proof_digests a))),
      (''child_proof_binding_digests'', PTuple (map PStr (pa_child_proof_digests a))),
      (''complete_repair_gain'', PInt (pa_complete_repair_gain a)), (''pair_regressions'', PInt (pa_pair_regressions a)),
      (''capability_promotion_authorized'', PBool (pa_capability_authorized a)),
      (''capability_promotion_reason'', PStr (pa_capability_reason a))]"

definition validate_authorization :: "sha256 \<Rightarrow> promotion_authorization \<Rightarrow> promotion_authorization res" where
  "validate_authorization sha a = validated (
     thenE (raise_if (pa_complete_repair_gain a < 1) (ValueError ''complete_repair_gain greater_than_equal'')) (
     thenE (require_ge0 (pa_pair_regressions a) ''pair_regressions'') (
     thenE (raise_if (pa_capability_reason a \<noteq> capability_reason (pa_capability_authorized a))
       (ValueError ''capability promotion reason does not match proof provenance'')) (
     let computed = evidence_digest sha (obj ((''kind'', PStr ''repo-repair-promotion-v2'') # authorization_payload a)) in
     thenE (raise_if (pa_authorization_digest a \<noteq> [] \<and> pa_authorization_digest a \<noteq> computed)
       (ValueError ''authorization_digest does not match promotion authorization''))
     (Inr (a\<lparr>pa_authorization_digest := computed\<rparr>))))))"

section \<open>Retention\<close>

abbreviation entry_at :: "(string \<times> 'a) list \<Rightarrow> string \<Rightarrow> 'a" where
  "entry_at m k \<equiv> the (map_of m k)"

definition repaired :: "(string \<times> proof_binding) list \<Rightarrow> string \<Rightarrow> bool" where
  "repaired m k = or_complete_repair (pb_outcome_receipt (entry_at m k))"

definition pair_gains :: "(string \<times> proof_binding) list \<Rightarrow> (string \<times> proof_binding) list \<Rightarrow> string list \<Rightarrow> nat" where
  "pair_gains parent child ks = length (filter (\<lambda>k. repaired child k \<and> \<not> repaired parent k) ks)"

definition retained_authorization :: "sha256 \<Rightarrow> research_epoch \<Rightarrow> (string \<times> proof_binding) list \<Rightarrow>
    (string \<times> proof_binding) list \<Rightarrow> string list \<Rightarrow> promotion_authorization res" where
  "retained_authorization sha ep parent child ks =
     (let receipt = (\<lambda>m k. pb_outcome_receipt (entry_at m k));
          gains = pair_gains parent child ks; regressions = pair_gains child parent ks;
          live = list_all (\<lambda>(k, b). live_capability_proof b) (parent @ child);
          proofs = (\<lambda>m. map (\<lambda>k. pb_binding_digest (entry_at m k)) ks)
      in validate_authorization sha \<lparr>
        pa_authorization_id = ''retention.'' @ take 24 (evidence_digest sha (obj
          [(''epoch'', PStr (ep_manifest_digest ep)), (''parent_proofs'', PTuple (map PStr (proofs parent))),
           (''child_proofs'', PTuple (map PStr (proofs child))), (''capability_promotion_authorized'', PBool live)])),
        pa_authorization_digest = [], pa_epoch_id = ep_epoch_id ep, pa_epoch_manifest_digest = ep_manifest_digest ep,
        pa_parent_protocol_digest = hd (remdups (map (\<lambda>(k, b). ri_protocol_digest (pb_outcome_receipt b)) parent)),
        pa_child_protocol_digest = hd (remdups (map (\<lambda>(k, b). ri_protocol_digest (pb_outcome_receipt b)) child)),
        pa_pair_key_digests = ks, pa_parent_receipt_digests = map (\<lambda>k. or_receipt_digest (receipt parent k)) ks,
        pa_child_receipt_digests = map (\<lambda>k. or_receipt_digest (receipt child k)) ks,
        pa_parent_proof_digests = proofs parent, pa_child_proof_digests = proofs child,
        pa_complete_repair_gain = int gains - int regressions, pa_pair_regressions = int regressions,
        pa_capability_authorized = live, pa_capability_reason = capability_reason live\<rparr>)"

text \<open>The epoch type has one capability epoch and is always promotion-capable.\<close>

definition authorize_paired_search_retention :: "sha256 \<Rightarrow> research_epoch \<Rightarrow> proof_binding list \<Rightarrow> proof_binding list \<Rightarrow>
    string option \<Rightarrow> promotion_authorization res" where
  "authorize_paired_search_retention sha ep parents children profile =
     bindE (proof_map sha ep profile parents) (\<lambda>parent.
     bindE (proof_map sha ep profile children) (\<lambda>child.
     let margins = ep_promotion_margins ep; ks = sort (map fst parent);
         protocols = (\<lambda>m. map (\<lambda>(k, b). ri_protocol_digest (pb_outcome_receipt b)) m) in
     thenE (refuse_if (set (map fst parent) \<noteq> set (map fst child))
       ''parent and child proofs are not explicitly paired by PairKey'') (
     thenE (refuse_if (int (length parent) < minimum_paired_receipts margins)
       ''insufficient paired proofs for the frozen promotion margin'') (
     thenE (refuse_if (\<not> single (protocols parent) \<or> \<not> single (protocols child))
       ''each promotion side must identify exactly one protocol'') (
     thenE (refuse_if (hd (remdups (protocols parent)) = hd (remdups (protocols child)))
       ''capability promotion requires a semantic child protocol'') (
     thenE (forE (\<lambda>k. refuse_if (paired_identity (pb_outcome_receipt (entry_at parent k)) \<noteq>
         paired_identity (pb_outcome_receipt (entry_at child k))) ''paired outcome identities crossed'') ks) (
     thenE (refuse_if (maximum_pair_regressions margins < int (pair_gains child parent ks))
       ''child exceeds the frozen paired-regression margin'') (
     thenE (refuse_if (int (pair_gains parent child ks) - int (pair_gains child parent ks) <
         minimum_complete_repair_gain margins)
       ''diagnostics/process quality cannot replace complete-repair improvement'')
     (retained_authorization sha ep parent child ks)))))))))"

definition authorize_paired_capability_promotion :: "sha256 \<Rightarrow> research_epoch \<Rightarrow> proof_binding list \<Rightarrow> proof_binding list \<Rightarrow>
    string option \<Rightarrow> promotion_authorization res" where
  "authorize_paired_capability_promotion sha ep parents children profile =
     bindE (authorize_paired_search_retention sha ep parents children profile) (\<lambda>a.
     thenE (refuse_if (\<not> pa_capability_authorized a) (pa_capability_reason a)) (Inr a))"

section \<open>Joining outcomes\<close>

record joined_pair =
  jp_pair_key :: pair_key
  jp_pair_key_digest :: string
  jp_parent_receipt :: outcome_receipt
  jp_child_receipt :: outcome_receipt

definition validate_joined_pair :: "sha256 \<Rightarrow> joined_pair \<Rightarrow> joined_pair res" where
  "validate_joined_pair sha j = validated (
     thenE (raise_if (jp_pair_key_digest j \<noteq> pair_key_digest sha (jp_pair_key j))
       (ValueError ''JoinedOutcomePair pair_key_digest mismatch'')) (
     thenE (raise_if (or_pair_key (jp_parent_receipt j) \<noteq> jp_pair_key j)
       (ValueError ''parent receipt crossed JoinedOutcomePair PairKey'')) (
     thenE (raise_if (or_pair_key (jp_child_receipt j) \<noteq> jp_pair_key j)
       (ValueError ''child receipt crossed JoinedOutcomePair PairKey'')) (Inr j))))"

record joined_panel =
  jn_join_id :: string
  jn_join_digest :: string
  jn_epoch_id :: string
  jn_epoch_manifest_digest :: string
  jn_parent_protocol_digest :: string
  jn_child_protocol_digest :: string
  jn_expected :: "string list"
  jn_pairs :: "joined_pair list"

definition receipt_payload :: "outcome_receipt \<Rightarrow> pyval" where
  "receipt_payload r = obj ((''receipt_digest'', PStr (or_receipt_digest r)) # outcome_receipt_identity_payload r)"

definition joined_pair_payload :: "joined_pair \<Rightarrow> pyval" where
  "joined_pair_payload j = obj [(''pair_key'', obj (pair_key_payload (jp_pair_key j))),
     (''pair_key_digest'', PStr (jp_pair_key_digest j)), (''parent_receipt'', receipt_payload (jp_parent_receipt j)),
     (''child_receipt'', receipt_payload (jp_child_receipt j))]"

definition joined_panel_digest :: "sha256 \<Rightarrow> joined_panel \<Rightarrow> string" where
  "joined_panel_digest sha p = evidence_digest sha (obj
     [(''kind'', PStr ''repo-repair-pair-join-v1''), (''schema_version'', PStr ''repo-repair-pair-join-v1''),
      (''join_id'', PStr (jn_join_id p)), (''epoch_id'', PStr (jn_epoch_id p)),
      (''epoch_manifest_digest'', PStr (jn_epoch_manifest_digest p)),
      (''parent_protocol_digest'', PStr (jn_parent_protocol_digest p)),
      (''child_protocol_digest'', PStr (jn_child_protocol_digest p)),
      (''expected_pair_key_digests'', PTuple (map PStr (jn_expected p))),
      (''pairs'', PTuple (map joined_pair_payload (jn_pairs p)))])"

definition validate_joined_panel :: "sha256 \<Rightarrow> joined_panel \<Rightarrow> joined_panel res" where
  "validate_joined_panel sha p = validated (
     let actual = map jp_pair_key_digest (jn_pairs p) in
     thenE (raise_if (jn_expected p = []) (ValueError ''expected_pair_key_digests too_short'')) (
     thenE (raise_if (jn_pairs p = []) (ValueError ''pairs too_short'')) (
     thenE (raise_if (actual \<noteq> jn_expected p) (ValueError ''joined pairs do not exactly cover expected PairKeys'')) (
     thenE (raise_if (actual \<noteq> sort actual \<or> \<not> distinct actual) (ValueError ''joined PairKeys must be unique and canonical'')) (
     let computed = joined_panel_digest sha p in
     thenE (raise_if (jn_join_digest p \<noteq> [] \<and> jn_join_digest p \<noteq> computed)
       (ValueError ''join_digest does not match paired outcome panel''))
     (Inr (p\<lparr>jn_join_digest := computed\<rparr>)))))))"

fun is_refusal :: "exn \<Rightarrow> bool" where
  "is_refusal (PromotionRefusal m) = True"
| "is_refusal _ = False"

definition receipt_map :: "sha256 \<Rightarrow> research_epoch \<Rightarrow> outcome_receipt list \<Rightarrow> (string \<times> outcome_receipt) list res" where
  "receipt_map sha ep rs =
     key_items (\<lambda>r. catchE is_refusal (\<lambda>_. PairingError ''unhealthy or unauthorized outcome'')
         (assert_authoritative_outcome_receipt sha r ep))
       (\<lambda>r. pair_key_digest sha (or_pair_key r)) (PairingError ''duplicate outcome for PairKey'') [] rs"

definition expected_map :: "sha256 \<Rightarrow> research_epoch \<Rightarrow> pair_key list \<Rightarrow> (string \<times> pair_key) list res" where
  "expected_map sha ep ks =
     thenE (raise_if (ks = []) (PairingError ''an explicit nonempty expected PairKey panel is required''))
     (key_items (\<lambda>k. raise_if (pk_provider_config_digest k \<noteq> dep_provider_config_digest (deployment ep))
         (PairingError ''expected PairKey provider configuration crossed the epoch''))
       (pair_key_digest sha) (PairingError ''duplicate expected PairKey'') [] ks)"

definition pair_configuration :: "outcome_receipt \<Rightarrow> string list" where
  "pair_configuration r =
     [ri_contract_version r, ri_capability_epoch r, ri_data_state r, ri_epoch_id r, ri_epoch_manifest_digest r,
      ri_release_digest r, ri_release_manifest_digest r, ri_profile_digest r, ri_split_manifest_digest r,
      or_task_manifest_id r, ri_task_manifest_digest r, or_evaluation_contract_id r, or_evaluation_contract_digest r,
      or_evaluator_id r, or_evaluator_identity_digest r, or_evaluation_policy_digest r, ri_compiler_digest r,
      ri_kernel_digest r, ri_tool_manifest_digest r] @ identity_deployment r @ [or_evaluator_environment_digest r]"

definition assert_pair_configuration :: "outcome_receipt \<Rightarrow> outcome_receipt \<Rightarrow> unit res" where
  "assert_pair_configuration parent child =
     raise_if (pair_configuration parent \<noteq> pair_configuration child) (PairingError ''parent/child configuration mismatch'')"

definition join_pair :: "sha256 \<Rightarrow> (string \<times> pair_key) list \<Rightarrow> (string \<times> outcome_receipt) list \<Rightarrow>
    (string \<times> outcome_receipt) list \<Rightarrow> string \<Rightarrow> joined_pair res" where
  "join_pair sha expected parent child k =
     thenE (assert_pair_configuration (entry_at parent k) (entry_at child k))
     (validate_joined_pair sha \<lparr>jp_pair_key = entry_at expected k, jp_pair_key_digest = k,
       jp_parent_receipt = entry_at parent k, jp_child_receipt = entry_at child k\<rparr>)"

definition join_outcome_receipts :: "sha256 \<Rightarrow> research_epoch \<Rightarrow> pair_key list \<Rightarrow> outcome_receipt list \<Rightarrow>
    outcome_receipt list \<Rightarrow> joined_panel res" where
  "join_outcome_receipts sha ep keys parents children =
     bindE (expected_map sha ep keys) (\<lambda>expected.
     bindE (receipt_map sha ep parents) (\<lambda>parent.
     bindE (receipt_map sha ep children) (\<lambda>child.
     let protocols = (\<lambda>m. map (\<lambda>(k, r). ri_protocol_digest r) m); ks = sort (map fst expected);
         digests = (\<lambda>f pairs. PList (map (\<lambda>j. PStr (or_receipt_digest (f j))) pairs)) in
     thenE (raise_if (set (map fst parent) \<noteq> set (map fst expected)) (PairingError ''parent PairKey coverage mismatch'')) (
     thenE (raise_if (set (map fst child) \<noteq> set (map fst expected)) (PairingError ''child PairKey coverage mismatch'')) (
     thenE (raise_if (\<not> single (protocols parent) \<or> \<not> single (protocols child))
       (PairingError ''each outcome side must identify exactly one protocol'')) (
     bindE (mapE (join_pair sha expected parent child) ks) (\<lambda>pairs.
     validate_joined_panel sha \<lparr>
       jn_join_id = ''pair-join.'' @ take 24 (evidence_digest sha (obj
         [(''epoch'', PStr (ep_manifest_digest ep)), (''parent'', digests jp_parent_receipt pairs),
          (''child'', digests jp_child_receipt pairs)])),
       jn_join_digest = [], jn_epoch_id = ep_epoch_id ep, jn_epoch_manifest_digest = ep_manifest_digest ep,
       jn_parent_protocol_digest = hd (remdups (protocols parent)),
       jn_child_protocol_digest = hd (remdups (protocols child)), jn_expected = ks, jn_pairs = pairs\<rparr>)))))))"

end
