(* ===== verification/PromotionSound.thy ===== *)
theory PromotionSound
  imports Promotion
begin

text \<open>
  What an authorization means. It depends on the collections of proofs, not on their order; its gain
  is the difference between the complete repairs of the two sides.
\<close>

section \<open>Keyed items\<close>

lemma key_items_Inr:
  "key_items check key dup known xs = Inr m \<longleftrightarrow> (\<forall>x\<in>set xs. check x = Inr ()) \<and> distinct (map key xs) \<and>
     key ` set xs \<inter> fst ` set known = {} \<and> m = known @ map (\<lambda>x. (key x, x)) xs"
  by (induction xs arbitrary: known) (auto simp: res_simps map_of_eq_None_iff)

abbreviation keyed :: "('a \<Rightarrow> string) \<Rightarrow> 'a list \<Rightarrow> (string \<times> 'a) list" where
  "keyed key xs \<equiv> map (\<lambda>x. (key x, x)) xs"

lemma keyed_at: "distinct (map key xs) \<Longrightarrow> x \<in> set xs \<Longrightarrow> map_of (keyed key xs) (key x) = Some x"
  by (induction xs) (auto simp: image_iff)

lemma map_of_perm:
  assumes "mset xs = mset ys" and "distinct (map key xs)"
  shows "map_of (keyed key xs) = map_of (keyed key ys)"
proof
  fix k
  have d: "distinct (map key ys)" using assms by (metis mset_map mset_eq_imp_distinct_iff)
  have s: "set xs = set ys" using assms(1) by (rule mset_eq_setD)
  show "map_of (keyed key xs) k = map_of (keyed key ys) k"
  proof (cases "k \<in> key ` set xs")
    case True
    then obtain x where "x \<in> set xs" "k = key x" by blast
    then show ?thesis using keyed_at [OF assms(2), of x] keyed_at [OF d, of x] s by simp
  next
    case False
    have "map_of (keyed key zs) k = None" if "k \<notin> key ` set zs" for zs
      using that by (auto simp: map_of_eq_None_iff)
    then show ?thesis using False s by simp
  qed
qed

lemma single_set: "single xs \<longleftrightarrow> card (set xs) = 1"
  by (simp add: single_def length_remdups_card_conv)

lemma single_hd: "single xs \<Longrightarrow> x \<in> set xs \<Longrightarrow> hd (remdups xs) = x"
proof -
  assume s: "single xs" and x: "x \<in> set xs"
  then have "\<exists>y. set xs = {y}" by (simp add: single_set card_1_singleton_iff)
  then have "set xs = {x}" using x by auto
  moreover have "remdups xs \<noteq> []" using x by auto
  ultimately show ?thesis using hd_in_set [of "remdups xs"] by simp
qed

lemma single_perm:
  assumes "set xs = set ys"
  shows "single xs = single ys" and "single xs \<Longrightarrow> hd (remdups xs) = hd (remdups ys)"
proof -
  show s: "single xs = single ys" using assms by (simp add: single_set)
  show "hd (remdups xs) = hd (remdups ys)" if x: "single xs"
  proof -
    have "\<exists>z. z \<in> set xs" using x by (auto simp: single_set card_1_singleton_iff)
    then obtain z where "z \<in> set xs" by blast
    then show ?thesis using single_hd x s assms by metis
  qed
qed

lemma sort_perm: "mset xs = mset ys \<Longrightarrow> sort (map f xs) = sort (map f ys)"
  by (rule properties_for_sort) (simp_all add: mset_map [symmetric] del: mset_map, metis mset_map mset_sort)

section \<open>Proof panels\<close>

lemma proof_map_Inr:
  "proof_map sha ep profile bs = Inr m \<longleftrightarrow> bs \<noteq> [] \<and>
     (\<forall>b\<in>set bs. assert_authoritative_outcome_proof sha b ep profile = Inr ()) \<and>
     distinct (map (proof_key sha) bs) \<and> single (map release_identity bs) \<and> m = keyed (proof_key sha) bs"
  by (auto simp: proof_map_def refuse_if_def res_simps key_items_Inr comp_def)

lemma proof_map_perm:
  assumes "mset bs' = mset bs" and "proof_map sha ep profile bs = Inr m"
  shows "\<exists>m'. proof_map sha ep profile bs' = Inr m' \<and> mset m' = mset m \<and> map_of m' = map_of m"
proof -
  have s: "set bs' = set bs" using assms(1) by (rule mset_eq_setD)
  have d: "distinct (map (proof_key sha) bs')" using assms by (metis proof_map_Inr mset_map mset_eq_imp_distinct_iff)
  have "single (map release_identity bs') = single (map release_identity bs)" by (rule single_perm(1)) (simp add: s)
  then have "proof_map sha ep profile bs' = Inr (keyed (proof_key sha) bs')"
    using assms(2) d s by (auto simp: proof_map_Inr)
  moreover have "map_of (keyed (proof_key sha) bs') = map_of m"
    using map_of_perm [OF assms(1) d] assms(2) by (simp add: proof_map_Inr)
  moreover have "mset (keyed (proof_key sha) bs') = mset m"
    using assms by (simp add: proof_map_Inr)
  ultimately show ?thesis by blast
qed

section \<open>The order of the proofs does not matter\<close>

lemma retained_perm:
  assumes "mset p' = mset p" and "mset c' = mset c" and "map_of p' = map_of p" and "map_of c' = map_of c"
    and "single (map (\<lambda>(k, b). ri_protocol_digest (pb_outcome_receipt b)) p)"
    and "single (map (\<lambda>(k, b). ri_protocol_digest (pb_outcome_receipt b)) c)"
  shows "retained_authorization sha ep p' c' ks = retained_authorization sha ep p c ks"
proof -
  have sets: "set p' = set p" "set c' = set c" using assms(1,2) mset_eq_setD by blast+
  have "hd (remdups (map f p')) = hd (remdups (map f p))" if "single (map f p)" for f :: "string \<times> proof_binding \<Rightarrow> string"
    using single_perm(2) [of "map f p" "map f p'"] that sets by simp
  moreover have "hd (remdups (map f c')) = hd (remdups (map f c))" if "single (map f c)" for f :: "string \<times> proof_binding \<Rightarrow> string"
    using single_perm(2) [of "map f c" "map f c'"] that sets by simp
  ultimately show ?thesis using assms(3-6)
    by (simp add: retained_authorization_def pair_gains_def repaired_def list_all_iff sets)
qed

abbreviation protocols_of :: "(string \<times> proof_binding) list \<Rightarrow> string list" where
  "protocols_of m \<equiv> map (\<lambda>(k, b). ri_protocol_digest (pb_outcome_receipt b)) m"

lemma retention_Inr:
  "authorize_paired_search_retention sha ep parents children profile = Inr a \<longleftrightarrow> (\<exists>p c.
     proof_map sha ep profile parents = Inr p \<and> proof_map sha ep profile children = Inr c \<and>
     fst ` set p = fst ` set c \<and> minimum_paired_receipts (ep_promotion_margins ep) \<le> int (length p) \<and>
     single (protocols_of p) \<and> single (protocols_of c) \<and>
     hd (remdups (protocols_of p)) \<noteq> hd (remdups (protocols_of c)) \<and>
     (\<forall>k\<in>fst ` set p. paired_identity (pb_outcome_receipt (entry_at p k)) = paired_identity (pb_outcome_receipt (entry_at c k))) \<and>
     int (pair_gains c p (sort (map fst p))) \<le> maximum_pair_regressions (ep_promotion_margins ep) \<and>
     minimum_complete_repair_gain (ep_promotion_margins ep) \<le>
       int (pair_gains p c (sort (map fst p))) - int (pair_gains c p (sort (map fst p))) \<and>
     retained_authorization sha ep p c (sort (map fst p)) = Inr a)"
  unfolding authorize_paired_search_retention_def refuse_if_def Let_def bindE_Inr thenE_Inr raise_if_Inr forE_Inr
    not_less not_not set_map set_sort de_Morgan_disj by blast

text \<open>C38: the retention decision does not depend on the order in which the proofs of either side are
  given: reordering them gives the same authorization, with the same digests.\<close>

theorem retention_order_irrelevant:
  assumes "authorize_paired_search_retention sha ep parents children profile = Inr a"
    and "mset parents' = mset parents" and "mset children' = mset children"
  shows "authorize_paired_search_retention sha ep parents' children' profile = Inr a"
proof -
  obtain p c where m: "proof_map sha ep profile parents = Inr p" "proof_map sha ep profile children = Inr c"
    and ok: "fst ` set p = fst ` set c" "minimum_paired_receipts (ep_promotion_margins ep) \<le> int (length p)"
      "single (protocols_of p)" "single (protocols_of c)" "hd (remdups (protocols_of p)) \<noteq> hd (remdups (protocols_of c))"
      "\<forall>k\<in>fst ` set p. paired_identity (pb_outcome_receipt (entry_at p k)) = paired_identity (pb_outcome_receipt (entry_at c k))"
      "int (pair_gains c p (sort (map fst p))) \<le> maximum_pair_regressions (ep_promotion_margins ep)"
      "minimum_complete_repair_gain (ep_promotion_margins ep) \<le>
         int (pair_gains p c (sort (map fst p))) - int (pair_gains c p (sort (map fst p)))"
      "retained_authorization sha ep p c (sort (map fst p)) = Inr a"
    using assms(1) unfolding retention_Inr by blast
  obtain p' c' where m': "proof_map sha ep profile parents' = Inr p'" "mset p' = mset p" "map_of p' = map_of p"
    "proof_map sha ep profile children' = Inr c'" "mset c' = mset c" "map_of c' = map_of c"
    using proof_map_perm [OF assms(2) m(1)] proof_map_perm [OF assms(3) m(2)] by blast
  have sets: "set p' = set p" "set c' = set c" using m'(2,5) mset_eq_setD by blast+
  have ks: "sort (map fst p') = sort (map fst p)" by (rule sort_perm [OF m'(2)])
  have len: "length p' = length p" using m'(2) by (rule mset_eq_length)
  have single: "single (protocols_of p') = single (protocols_of p)" "single (protocols_of c') = single (protocols_of c)"
    by (rule single_perm(1), simp add: sets)+
  have heads: "hd (remdups (protocols_of p')) = hd (remdups (protocols_of p))"
    "hd (remdups (protocols_of c')) = hd (remdups (protocols_of c))"
    using single_perm(2) [of "protocols_of p" "protocols_of p'"] single_perm(2) [of "protocols_of c" "protocols_of c'"] sets ok(3,4)
    by simp_all
  have gains: "pair_gains p' c' = pair_gains p c" "pair_gains c' p' = pair_gains c p"
    by (simp_all add: pair_gains_def repaired_def m'(3,6) fun_eq_iff)
  have r: "retained_authorization sha ep p' c' (sort (map fst p)) = Inr a"
    using ok(9) retained_perm [OF m'(2,5,3,6) ok(3,4)] by simp
  show ?thesis unfolding retention_Inr
    by (rule exI [of _ p'], rule exI [of _ c'], unfold ks r)
      (unfold sets len single heads gains m'(3,6), intro conjI m'(1,4) ok refl)
qed

section \<open>What an authorization means\<close>

definition complete_repair :: "proof_binding \<Rightarrow> bool" where
  "complete_repair b = or_complete_repair (pb_outcome_receipt b)"

definition eligible_outcome :: "sha256 \<Rightarrow> research_epoch \<Rightarrow> proof_binding \<Rightarrow> bool" where
  "eligible_outcome sha ep b \<longleftrightarrow> (let r = pb_outcome_receipt b; e = pb_run_evidence b; l = per_run_ceilings ep in
     or_receipt_digest r = outcome_receipt_digest sha r \<and>
     pb_binding_digest b = evaluator_outcome_proof_binding_digest sha b \<and>
     ri_epoch_manifest_digest r = ep_manifest_digest ep \<and> ri_data_state r = ''development'' \<and>
     ri_split_manifest_digest r = development_split_digest ep \<and>
     or_evaluator_identity_digest r = ev_identity_digest (ep_evaluator_authority ep) \<and>
     identity_deployment r = deployment_digests (deployment ep) \<and> identity_deployment e = deployment_digests (deployment ep) \<and>
     passes_promotion_floor (or_health r) \<and> or_exclusions r = [] \<and> \<not> oc_unknown_dollars (or_cost r) \<and>
     list_all (\<lambda>(v, m). v \<le> m) (count_checks (or_cost r) l) \<and>
     \<not> float_lt (max_known_cost_usd l) (oc_known_cost_usd (or_cost r)) \<and>
     rp_arm e = IntactArm \<and> rp_intervention_digest e = None \<and> rp_healthy e)"

lemma not_exceeding: "(\<not> list_ex (\<lambda>(v, m). m < v) xs) = list_all (\<lambda>(v, m). v \<le> (m :: int)) xs"
  by (auto simp: list_ex_iff list_all_iff not_less)

lemma authoritative_receipt_Inr: "assert_authoritative_outcome_receipt sha r ep = Inr u \<Longrightarrow>
    or_receipt_digest r = outcome_receipt_digest sha r \<and> ri_epoch_manifest_digest r = ep_manifest_digest ep \<and>
    ri_data_state r = ''development'' \<and> ri_split_manifest_digest r = development_split_digest ep \<and>
    or_evaluator_identity_digest r = ev_identity_digest (ep_evaluator_authority ep) \<and>
    identity_deployment r = deployment_digests (deployment ep) \<and> passes_promotion_floor (or_health r) \<and>
    or_exclusions r = [] \<and> assert_cost_within_epoch r ep = Inr ()"
  unfolding assert_authoritative_outcome_receipt_def refuse_if_def Let_def thenE_Inr raise_if_Inr by simp

lemma cost_within_Inr: "assert_cost_within_epoch r ep = Inr u \<Longrightarrow>
    \<not> oc_unknown_dollars (or_cost r) \<and> list_all (\<lambda>(v, m). v \<le> m) (count_checks (or_cost r) (per_run_ceilings ep)) \<and>
    \<not> float_lt (max_known_cost_usd (per_run_ceilings ep)) (oc_known_cost_usd (or_cost r))"
  unfolding assert_cost_within_epoch_def refuse_if_def Let_def thenE_Inr raise_if_Inr de_Morgan_disj not_exceeding by simp

lemma authoritative_eligible:
  assumes "assert_authoritative_outcome_proof sha b ep profile = Inr ()"
  shows "eligible_outcome sha ep b"
proof -
  have p: "pb_binding_digest b = evaluator_outcome_proof_binding_digest sha b"
    "assert_authoritative_outcome_receipt sha (pb_outcome_receipt b) ep = Inr ()"
    "identity_deployment (pb_run_evidence b) = deployment_digests (deployment ep)"
    "rp_arm (pb_run_evidence b) = IntactArm" "rp_intervention_digest (pb_run_evidence b) = None" "rp_healthy (pb_run_evidence b)"
    using assms unfolding assert_authoritative_outcome_proof_def refuse_if_def Let_def thenE_Inr raise_if_Inr
    by (simp_all only: de_Morgan_disj not_not simp_thms)
  note r = authoritative_receipt_Inr [OF p(2)]
  from r have "assert_cost_within_epoch (pb_outcome_receipt b) ep = Inr ()" by blast
  note c = cost_within_Inr [OF this]
  show ?thesis unfolding eligible_outcome_def Let_def by (intro conjI; (rule p | simp only: p r c not_False_eq_True))
qed

lemma gains_difference:
  "int (pair_gains p c ks) - int (pair_gains c p ks) =
     int (length (filter (repaired c) ks)) - int (length (filter (repaired p) ks))"
  by (induction ks) (auto simp: pair_gains_def)

lemma repaired_count:
  assumes "distinct (map (proof_key sha) bs)" and "mset ks = mset (map (proof_key sha) bs)"
  shows "length (filter (repaired (keyed (proof_key sha) bs)) ks) = length (filter complete_repair bs)"
proof -
  let ?P = "repaired (keyed (proof_key sha) bs)"
  have "length (filter ?P ks) = size (filter_mset ?P (mset ks))" by (simp only: mset_filter [symmetric] size_mset)
  also have "\<dots> = length (filter ?P (map (proof_key sha) bs))" unfolding assms(2) by (simp only: mset_filter [symmetric] size_mset)
  also have "\<dots> = length (filter (?P \<circ> proof_key sha) bs)" by (simp add: filter_map)
  also have "filter (?P \<circ> proof_key sha) bs = filter complete_repair bs"
    by (rule filter_cong) (simp_all add: repaired_def complete_repair_def keyed_at [OF assms(1)])
  finally show ?thesis .
qed

lemma retained_fields:
  assumes "retained_authorization sha ep p c ks = Inr a"
  shows "pa_complete_repair_gain a = int (pair_gains p c ks) - int (pair_gains c p ks)" and "1 \<le> pa_complete_repair_gain a"
    and "pa_pair_regressions a = int (pair_gains c p ks)" and "pa_pair_key_digests a = ks"
    and "pa_capability_authorized a = list_all (\<lambda>(k, b). live_capability_proof b) (p @ c)"
    and "pa_parent_protocol_digest a = hd (remdups (protocols_of p))" and "pa_child_protocol_digest a = hd (remdups (protocols_of c))"
  using assms unfolding retained_authorization_def validate_authorization_def Let_def
  by (auto simp: res_simps)

text \<open>C5: a retained child has beaten its parent on evaluator-owned evidence. Every proof of both sides is
  eligible (digests recomputed, this epoch, development split, pinned evaluator and deployment,
  health floor, no exclusions, costs within the ceilings, an intact healthy run). The two sides
  are paired one to one by pair key, at least as often as the margin asks, with equal task,
  contract, compiler, kernel, tools and profile in each pair; each side has one protocol and they
  differ. The gain is the number of complete repairs of the child minus that of the parent, at
  least the margin and at least one, the regressions are within their margin, and capability
  promotion is authorized exactly if every proof is live.\<close>

theorem retention_authorized_sound:
  assumes "authorize_paired_search_retention sha ep parents children profile = Inr a"
  shows "list_all (eligible_outcome sha ep) (parents @ children) \<and>
    distinct (map (proof_key sha) parents) \<and> mset (map (proof_key sha) parents) = mset (map (proof_key sha) children) \<and>
    minimum_paired_receipts (ep_promotion_margins ep) \<le> int (length parents) \<and>
    list_all (\<lambda>p. list_all (\<lambda>c. proof_key sha p = proof_key sha c \<longrightarrow>
      paired_identity (pb_outcome_receipt p) = paired_identity (pb_outcome_receipt c)) children) parents \<and>
    list_all (\<lambda>p. ri_protocol_digest (pb_outcome_receipt p) = pa_parent_protocol_digest a) parents \<and>
    list_all (\<lambda>c. ri_protocol_digest (pb_outcome_receipt c) = pa_child_protocol_digest a) children \<and>
    pa_parent_protocol_digest a \<noteq> pa_child_protocol_digest a \<and>
    pa_complete_repair_gain a = int (length (filter complete_repair children)) - int (length (filter complete_repair parents)) \<and>
    minimum_complete_repair_gain (ep_promotion_margins ep) \<le> pa_complete_repair_gain a \<and> 1 \<le> pa_complete_repair_gain a \<and>
    pa_pair_regressions a \<le> maximum_pair_regressions (ep_promotion_margins ep) \<and>
    (pa_capability_authorized a \<longleftrightarrow> list_all live_capability_proof (parents @ children))"
proof -
  let ?key = "proof_key sha" and ?p = "keyed (proof_key sha) parents" and ?c = "keyed (proof_key sha) children"
  obtain p c where m: "proof_map sha ep profile parents = Inr p" "proof_map sha ep profile children = Inr c"
    and ok: "fst ` set p = fst ` set c" "minimum_paired_receipts (ep_promotion_margins ep) \<le> int (length p)"
      "single (protocols_of p)" "single (protocols_of c)" "hd (remdups (protocols_of p)) \<noteq> hd (remdups (protocols_of c))"
      "\<forall>k\<in>fst ` set p. paired_identity (pb_outcome_receipt (entry_at p k)) = paired_identity (pb_outcome_receipt (entry_at c k))"
      "int (pair_gains c p (sort (map fst p))) \<le> maximum_pair_regressions (ep_promotion_margins ep)"
      "minimum_complete_repair_gain (ep_promotion_margins ep) \<le>
         int (pair_gains p c (sort (map fst p))) - int (pair_gains c p (sort (map fst p)))"
      "retained_authorization sha ep p c (sort (map fst p)) = Inr a"
    using assms(1) unfolding retention_Inr by blast
  have p: "p = ?p" "distinct (map ?key parents)" and c: "c = ?c" "distinct (map ?key children)"
    and elig: "list_all (eligible_outcome sha ep) (parents @ children)"
    using m authoritative_eligible unfolding proof_map_Inr by (auto simp: list_all_iff)
  have fsts: "map fst ?p = map ?key parents" "map fst ?c = map ?key children" by (simp_all add: comp_def)
  have keys: "mset (map ?key parents) = mset (map ?key children)"
    using ok(1) p c set_eq_iff_mset_eq_distinct [OF p(2) c(2)] by (simp add: image_image)
  have ks: "mset (sort (map fst ?p)) = mset (map ?key parents)" "mset (sort (map fst ?p)) = mset (map ?key children)"
    using keys unfolding fsts by simp_all
  note f = retained_fields [OF ok(9)]
  have gain: "pa_complete_repair_gain a = int (length (filter complete_repair children)) - int (length (filter complete_repair parents))"
    using f(1) repaired_count [OF p(2) ks(1)] repaired_count [OF c(2) ks(2)] unfolding gains_difference p(1) c(1) by simp
  have pairs: "paired_identity (pb_outcome_receipt x) = paired_identity (pb_outcome_receipt y)"
    if "x \<in> set parents" "y \<in> set children" "?key x = ?key y" for x y
  proof -
    have "?key x \<in> fst ` set p" using that(1) by (force simp: p(1))
    with ok(6) have "paired_identity (pb_outcome_receipt (entry_at p (?key x))) = paired_identity (pb_outcome_receipt (entry_at c (?key x)))"
      by blast
    then show ?thesis using keyed_at [OF p(2) that(1)] keyed_at [OF c(2) that(2)] that(3) by (simp add: p(1) c(1))
  qed
  have protocols: "ri_protocol_digest (pb_outcome_receipt x) = hd (remdups (protocols_of (keyed ?key bs)))"
    if "single (protocols_of (keyed ?key bs))" "x \<in> set bs" for x bs
    using single_hd [OF that(1), of "ri_protocol_digest (pb_outcome_receipt x)"] that(2) by force
  show ?thesis
  proof (intro conjI)
    show "minimum_complete_repair_gain (ep_promotion_margins ep) \<le> pa_complete_repair_gain a" using ok(8) f(1) by simp
    show "pa_pair_regressions a \<le> maximum_pair_regressions (ep_promotion_margins ep)" using ok(7) f(3) by simp
    show "pa_capability_authorized a \<longleftrightarrow> list_all live_capability_proof (parents @ children)"
      unfolding f(5) list_all_append p(1) c(1) by (simp add: list.pred_map comp_def)
    show "minimum_paired_receipts (ep_promotion_margins ep) \<le> int (length parents)" using ok(2) by (simp add: p(1))
    show "pa_parent_protocol_digest a \<noteq> pa_child_protocol_digest a" using ok(5) f(6,7) by simp
  qed (use elig p(2) keys gain f(2) pairs protocols ok(3,4) in \<open>auto simp: list_all_iff f(6,7) p(1) c(1)\<close>)
qed


text \<open>The ceilings do not see a cost that is not a number: the comparisons with NaN are false, and the
  contract's \<open>ge\<close> bound on the field is passed by NaN too.\<close>

lemma nan_cost_within_ceilings:
  "is_nan f \<Longrightarrow> require_float_ge0 f n = Inr ()"
  "is_nan (oc_known_cost_usd (or_cost r)) \<Longrightarrow> \<not> oc_unknown_dollars (or_cost r) \<Longrightarrow> oc_within_epoch_envelope (or_cost r) \<Longrightarrow>
   list_all (\<lambda>(v, m). v \<le> m) (count_checks (or_cost r) (per_run_ceilings ep)) \<Longrightarrow> assert_cost_within_epoch r ep = Inr ()"
  subgoal by (simp add: require_float_ge0_def res_simps float_lt_def)
  subgoal unfolding assert_cost_within_epoch_def refuse_if_def Let_def thenE_Inr raise_if_Inr de_Morgan_disj not_exceeding
    by (simp add: float_lt_def float_add_def, simp add: is_nan_def float_nan_def)
  done

section \<open>Sample panels\<close>

text \<open>The parity of the length in the place of SHA-256: it tells the two sample keys apart.\<close>

definition parity_sha :: sha256 where
  "parity_sha s = (if even (length s) then 0 else 1)"

definition sample_pair_key :: "string \<Rightarrow> pair_key" where
  "sample_pair_key t = \<lparr>pk_task_manifest_id = t, pk_environment_id = ''linux'', pk_sampling_replicate = 0,
     pk_provider_config_digest = sample_digest\<rparr>"

definition sample_receipt :: "string \<Rightarrow> string \<Rightarrow> bool \<Rightarrow> outcome_receipt" where
  "sample_receipt t protocol repair =
     (let r = \<lparr>ri_contract_version = ''0.1.0'', ri_mode = DeterministicReplay, ri_status = InferenceNotRun,
       ri_requests_sent = 0, ri_capability_epoch = ''repo-repair-v1'', ri_data_state = ''development'',
       ri_epoch_id = ''epoch-1'', ri_epoch_manifest_digest = ep_manifest_digest sample_epoch_validated,
       ri_release_digest = sample_digest, ri_release_manifest_digest = sample_digest, ri_profile_digest = sample_digest,
       ri_split_manifest_digest = sample_digest, ri_task_manifest_digest = sample_digest, ri_protocol_digest = protocol,
       ri_compiler_digest = sample_digest, ri_kernel_digest = sample_digest, ri_tool_manifest_digest = sample_digest,
       ri_provider_config_digest = sample_digest, ri_decoding_policy_digest = sample_digest,
       ri_price_schedule_digest = sample_digest, ri_command_container_policy_digest = sample_digest,
       ri_patch_digest = sample_digest, or_receipt_id = ''receipt'', or_receipt_digest = [],
       or_task_manifest_id = t, or_evaluation_contract_id = ''contract'', or_evaluation_contract_digest = sample_digest,
       or_evaluator_id = ''e'', or_evaluator_identity_digest = sample_digest, or_evaluation_policy_digest = sample_digest,
       or_pair_key = sample_pair_key t, or_evaluator_environment_digest = sample_digest, or_complete_repair = repair,
       or_health = \<lparr>oh_process_integrity = True, oh_no_leakage = True, oh_environment_integrity = True,
         oh_evaluator_integrity = True, oh_accounting_complete = True\<rparr>,
       or_exclusions = [],
       or_cost = \<lparr>oc_model_calls = 0, oc_input_tokens = 0, oc_output_tokens = 0, oc_cached_tokens = 0,
         oc_cache_write_tokens = 0, oc_tool_calls = 0, oc_tool_output_bytes = 0, oc_artifact_bytes = 0,
         oc_patch_bytes = 0, oc_retries = 0, oc_wall_time_ms = 0, oc_known_cost_usd = float_zero,
         oc_estimated_cost_usd = float_zero, oc_unknown_dollars = False, oc_within_epoch_envelope = True\<rparr>,
       or_diagnostics = [], or_issued_at_ms = 0\<rparr>
      in r\<lparr>or_receipt_digest := outcome_receipt_digest parity_sha r\<rparr>)"

definition sample_run :: "string \<Rightarrow> string \<Rightarrow> run_projection" where
  "sample_run t protocol = run_identity.extend (run_identity.truncate (sample_receipt t protocol False))
     \<lparr>rp_evidence_id = ''evidence'', rp_evidence_digest = sample_digest, rp_run_id = ''run'', rp_arm = IntactArm,
      rp_intervention_digest = None, rp_pair_key = sample_pair_key t, rp_compiled_semantic_digest = sample_digest,
      rp_dependency_manifest_digest = sample_digest, rp_deployment_id = ''d'', rp_provider = ''p'', rp_model = ''m'',
      rp_cost_ledger_digest = sample_digest, rp_runtime_environment_digest = sample_digest, rp_healthy = True\<rparr>"

definition sample_proof :: "string \<Rightarrow> string \<Rightarrow> bool \<Rightarrow> proof_binding" where
  "sample_proof t protocol repair =
     (let b = \<lparr>pb_contract_version = ''0.1.0'', pb_binding_digest = [], pb_outcome_receipt = sample_receipt t protocol repair,
       pb_proof_record_id = ''record'', pb_proof_record_digest = sample_digest, pb_public_proof_digest = [],
       pb_run_evidence = sample_run t protocol, pb_run_evidence_digest = sample_digest,
       pb_store_manifest_ref = ''store_manifest.json'', pb_proof_record_ref = ''runs/record.json'',
       pb_outcome_link_ref = ''outcome_links/link.json''\<rparr>;
       b = b\<lparr>pb_public_proof_digest := public_promotion_proof_digest parity_sha b\<rparr>
      in b\<lparr>pb_binding_digest := evaluator_outcome_proof_binding_digest parity_sha b\<rparr>)"

abbreviation "sample_parents \<equiv> [sample_proof ''task'' ''parent'' False, sample_proof ''task2'' ''parent'' False]"

abbreviation "sample_children \<equiv> [sample_proof ''task'' ''child'' False, sample_proof ''task2'' ''child'' True]"

lemma sample_costs_within:
  "list_ex (\<lambda>(v, m). m < v) (count_checks (or_cost (sample_receipt t p c)) (per_run_ceilings sample_epoch_validated)) = False"
  "float_lt (max_known_cost_usd (per_run_ceilings sample_epoch_validated)) float_zero = False"
  "float_lt (max_estimated_cost_usd (per_run_ceilings sample_epoch_validated)) (float_add float_zero float_zero) = False"
  subgoal by (simp add: sample_receipt_def count_checks_def sample_epoch_validated_def sample_epoch_def sample_ceilings_def)
  subgoal by code_simp
  subgoal by code_simp
  done

lemma sample_receipt_ok: "assert_authoritative_outcome_receipt parity_sha (sample_receipt t p c) sample_epoch_validated = Inr ()"
proof -
  have "assert_cost_within_epoch (sample_receipt t p c) sample_epoch_validated = Inr ()"
    unfolding assert_cost_within_epoch_def Let_def sample_costs_within
    by (simp add: sample_receipt_def sample_costs_within refuse_if_def)
  moreover have "or_receipt_digest (sample_receipt t p c) = outcome_receipt_digest parity_sha (sample_receipt t p c)"
  proof -
    have d: "outcome_receipt_digest parity_sha (r\<lparr>or_receipt_digest := x\<rparr>) = outcome_receipt_digest parity_sha r" for r x
      by (simp add: outcome_receipt_digest_def outcome_receipt_identity_payload_def identity_fields_def)
    show ?thesis unfolding sample_receipt_def Let_def d by simp
  qed
  ultimately show ?thesis
    unfolding assert_authoritative_outcome_receipt_def Let_def refuse_if_def thenE_Inr raise_if_Inr
    by (intro conjI; assumption?)
      (simp_all add: sample_receipt_def sample_pair_key_def sample_epoch_validated_def sample_epoch_def identity_deployment_def
        deployment_digests_def passes_promotion_floor_def)
qed

lemma sample_fields [simp]:
  "pb_outcome_receipt (sample_proof t p c) = sample_receipt t p c" "pb_run_evidence (sample_proof t p c) = sample_run t p"
  "or_complete_repair (sample_receipt t p c) = c" "ri_protocol_digest (sample_receipt t p c) = p"
  "or_pair_key (sample_receipt t p c) = sample_pair_key t"
  unfolding sample_proof_def sample_receipt_def Let_def by simp_all

lemma extended_run [simp]:
  "ri_release_digest (run_identity.extend (run_identity.truncate r) m) = ri_release_digest r"
  "ri_release_manifest_digest (run_identity.extend (run_identity.truncate r) m) = ri_release_manifest_digest r"
  "ri_profile_digest (run_identity.extend (run_identity.truncate r) m) = ri_profile_digest r"
  "identity_deployment (run_identity.extend (run_identity.truncate r) m) = identity_deployment r"
  "ri_mode (run_identity.extend (run_identity.truncate r) m) = ri_mode r"
  by (simp_all add: run_identity.defs identity_deployment_def)

lemma sample_identities [simp]:
  "release_identity (sample_proof t p c) = (let d = sample_digest in [d, d, d, ''d'', ''p'', ''m'', d, d, d, d])"
  "paired_identity (sample_receipt t p c) =
     (let d = sample_digest in [t, d, ''contract'', d, d, d, d, d, d, d, d, d, d])"
  subgoal unfolding release_identity_def sample_fields sample_run_def Let_def extended_run identity_deployment_def
    by (simp add: run_identity.defs) (simp add: sample_receipt_def)
  subgoal unfolding paired_identity_def identity_deployment_def sample_receipt_def Let_def by simp
  done

lemma sample_proof_ok: "assert_authoritative_outcome_proof parity_sha (sample_proof t p c) sample_epoch_validated None = Inr ()"
proof -
  have d: "public_promotion_proof_digest parity_sha (b\<lparr>pb_public_proof_digest := x\<rparr>) = public_promotion_proof_digest parity_sha b"
    "public_promotion_proof_digest parity_sha (b\<lparr>pb_binding_digest := x\<rparr>) = public_promotion_proof_digest parity_sha b"
    "evaluator_outcome_proof_binding_digest parity_sha (b\<lparr>pb_binding_digest := x\<rparr>) = evaluator_outcome_proof_binding_digest parity_sha b"
    for b x by (simp_all add: public_promotion_proof_digest_def evaluator_outcome_proof_binding_digest_def)
  have "pb_public_proof_digest (sample_proof t p c) = public_promotion_proof_digest parity_sha (sample_proof t p c)"
    "pb_binding_digest (sample_proof t p c) = evaluator_outcome_proof_binding_digest parity_sha (sample_proof t p c)"
    unfolding sample_proof_def Let_def d by simp_all
  moreover have "rp_deployment_id (sample_run t p) = ''d''" "rp_provider (sample_run t p) = ''p''" "rp_model (sample_run t p) = ''m''"
    "identity_deployment (sample_run t p) = deployment_digests (deployment sample_epoch_validated)" "rp_arm (sample_run t p) = IntactArm"
    "rp_intervention_digest (sample_run t p) = None" "rp_healthy (sample_run t p)"
    by (simp_all add: sample_run_def sample_receipt_def run_identity.defs identity_deployment_def deployment_digests_def
        sample_epoch_validated_def sample_epoch_def)
  moreover have "deployment_id (deployment sample_epoch_validated) = ''d''" "dep_provider (deployment sample_epoch_validated) = ''p''"
    "dep_model (deployment sample_epoch_validated) = ''m''" by (simp_all add: sample_epoch_validated_def sample_epoch_def)
  ultimately show ?thesis
    unfolding assert_authoritative_outcome_proof_def Let_def refuse_if_def thenE_Inr raise_if_Inr
    by (simp add: sample_receipt_ok)
qed

lemma length_encode_obj:
  "length (encode (obj fs)) = 17 + sum_list (map (\<lambda>(k, v). 9 + length k + length (encode v)) fs)"
proof -
  have perm: "sum_list (map f (sort xs)) = sum_list (map f xs)" for f :: "string \<times> string \<Rightarrow> nat" and xs
  proof -
    have "sum_mset (image_mset f (mset (sort xs))) = sum_mset (image_mset f (mset xs))" by simp
    then show ?thesis by (simp only: mset_map [symmetric] sum_mset_sum_list)
  qed
  have "length (encode (obj fs)) = 17 + sum_list (map (\<lambda>kv. length (fst kv @ snd kv))
      (sort (map (\<lambda>(k, v). (encode (PStr k), encode v)) fs)))"
    by (simp add: obj_def encode_sequence_def length_frame be_bytes_def length_concat comp_def split_def)
  then show ?thesis unfolding perm by (simp add: length_frame comp_def split_def)
qed

lemma sample_keys: "proof_key parity_sha (sample_proof ''task'' p c) \<noteq> proof_key parity_sha (sample_proof ''task2'' q d)"
proof -
  let ?payload = "\<lambda>t. domain_payload ''evidence'' (obj ((''kind'', PStr ''pair-key'') # pair_key_payload (sample_pair_key t)))"
  have "length (?payload ''task2'') = Suc (length (?payload ''task''))"
    by (simp add: domain_payload_def length_encode_obj pair_key_payload_def sample_pair_key_def length_frame)
  then have "even (length (?payload ''task2'')) \<noteq> even (length (?payload ''task''))" by (simp only: even_Suc) blast
  then show ?thesis
    by (auto simp: proof_key_def pair_key_digest_def evidence_digest_def identity_digest_def parity_sha_def)
qed

lemma retained_possible: "int (pair_gains c p ks) < int (pair_gains p c ks) \<Longrightarrow> \<exists>a. retained_authorization sha ep p c ks = Inr a"
  unfolding retained_authorization_def validate_authorization_def Let_def by (auto simp: res_simps require_ge0_def)

lemma sample_panel:
  "proof_map parity_sha sample_epoch_validated None [sample_proof ''task'' p c, sample_proof ''task2'' p d] =
     Inr (keyed (proof_key parity_sha) [sample_proof ''task'' p c, sample_proof ''task2'' p d])"
  using sample_keys by (simp add: proof_map_Inr sample_proof_ok single_def)

lemma sample_retained: "\<exists>a. authorize_paired_search_retention parity_sha sample_epoch_validated sample_parents sample_children None = Inr a"
proof -
  let ?key = "proof_key parity_sha" and ?ps = sample_parents and ?cs = sample_children
  let ?p = "keyed ?key ?ps" and ?c = "keyed ?key ?cs"
  have same: "?key (sample_proof t p c) = ?key (sample_proof t ''child'' False)" for t p c by (simp add: proof_key_def)
  have k: "?key (sample_proof ''task'' ''child'' False) \<noteq> ?key (sample_proof ''task2'' ''child'' False)" by (rule sample_keys)
  have ks: "mset (sort (map fst ?p)) = mset (map ?key ?ps)" "mset (sort (map fst ?p)) = mset (map ?key ?cs)"
    and d: "distinct (map ?key ?ps)" "distinct (map ?key ?cs)"
    using k by (simp_all add: same [of _ "''parent''"] same [of _ _ True])
  have none: "\<not> repaired ?p x" if "x \<in> set (sort (map fst ?p))" for x
  proof -
    have "x \<in> {?key (sample_proof ''task'' ''parent'' False), ?key (sample_proof ''task2'' ''parent'' False)}"
      using that unfolding set_sort by simp
    then show ?thesis by (auto simp: repaired_def)
  qed
  have r: "pair_gains ?c ?p (sort (map fst ?p)) = 0"
    unfolding pair_gains_def using none by (simp add: filter_empty_conv)
  have g: "int (pair_gains ?p ?c (sort (map fst ?p))) = 1"
    using gains_difference [of ?p ?c "sort (map fst ?p)"] r repaired_count [OF d(1) ks(1)] repaired_count [OF d(2) ks(2)]
    by (simp add: complete_repair_def)
  obtain a where "retained_authorization parity_sha sample_epoch_validated ?p ?c (sort (map fst ?p)) = Inr a"
    using retained_possible r g by fastforce
  moreover have "maximum_pair_regressions (ep_promotion_margins sample_epoch_validated) = 0"
    "minimum_complete_repair_gain (ep_promotion_margins sample_epoch_validated) = 1"
    "minimum_paired_receipts (ep_promotion_margins sample_epoch_validated) = 1"
    by (simp_all add: sample_epoch_validated_def sample_epoch_def)
  ultimately have "authorize_paired_search_retention parity_sha sample_epoch_validated ?ps ?cs None = Inr a"
    unfolding retention_Inr using r g k
    by (intro exI [of _ ?p] exI [of _ ?c])
       (simp add: sample_panel single_def same [of _ "''parent''"] same [of _ _ True])
  then show ?thesis by blast
qed

lemma retention_authorized_sound_witness:
  "\<exists>a. authorize_paired_search_retention parity_sha sample_epoch_validated sample_parents sample_children None = Inr a \<and>
     pa_complete_repair_gain a = 1 \<and> \<not> pa_capability_authorized a"
proof -
  obtain a where a: "authorize_paired_search_retention parity_sha sample_epoch_validated sample_parents sample_children None = Inr a"
    using sample_retained by blast
  have "\<not> live_capability_proof (sample_proof t p c)" for t p c
    unfolding live_capability_proof_def sample_fields Let_def by (simp add: sample_run_def sample_receipt_def run_identity.defs)
  with retention_authorized_sound [OF a] a show ?thesis by (auto simp: complete_repair_def)
qed

lemma retention_order_irrelevant_witness:
  "\<exists>a. authorize_paired_search_retention parity_sha sample_epoch_validated sample_parents sample_children None = Inr a \<and>
     authorize_paired_search_retention parity_sha sample_epoch_validated (rev sample_parents) (rev sample_children) None = Inr a"
  using sample_retained retention_order_irrelevant [of parity_sha sample_epoch_validated sample_parents sample_children None _
      "rev sample_parents" "rev sample_children"] by fastforce

end
