(* ===== verification/PairingSound.thy ===== *)
theory PairingSound
  imports PromotionSound
begin

text \<open>
  What a joined panel is (\<open>evaluation/pairing.py\<close>): the expected keys, each with one receipt of the
  parent and one of the child, nothing dropped and nothing added.
\<close>

abbreviation receipt_key :: "sha256 \<Rightarrow> outcome_receipt \<Rightarrow> string" where
  "receipt_key sha r \<equiv> pair_key_digest sha (or_pair_key r)"

lemma receipt_map_Inr:
  "receipt_map sha ep rs = Inr m \<longleftrightarrow> (\<forall>r\<in>set rs. assert_authoritative_outcome_receipt sha r ep = Inr ()) \<and>
     distinct (map (receipt_key sha) rs) \<and> m = keyed (receipt_key sha) rs"
  by (auto simp: receipt_map_def key_items_Inr catchE_Inr)

lemma expected_map_Inr:
  "expected_map sha ep ks = Inr m \<longleftrightarrow> ks \<noteq> [] \<and>
     (\<forall>k\<in>set ks. pk_provider_config_digest k = dep_provider_config_digest (deployment ep)) \<and>
     distinct (map (pair_key_digest sha) ks) \<and> m = keyed (pair_key_digest sha) ks"
  by (auto simp: expected_map_def key_items_Inr res_simps)

lemma entries_mset:
  assumes "distinct (map key xs)" and "mset ks = mset (map key xs)"
  shows "mset (map (entry_at (keyed key xs)) ks) = mset xs"
proof -
  have "mset (map (entry_at (keyed key xs)) ks) = mset (map (entry_at (keyed key xs)) (map key xs))"
    by (simp only: mset_map assms(2))
  also have "map (entry_at (keyed key xs)) (map key xs) = xs"
    by (simp only: map_map, rule map_idI) (simp add: keyed_at [OF assms(1)])
  finally show ?thesis .
qed

lemma mapE_possible: "(\<And>x. x \<in> set xs \<Longrightarrow> \<exists>y. f x = Inr y) \<Longrightarrow> \<exists>ys. mapE f xs = Inr ys"
  by (induction xs) (fastforce simp: res_simps)+

lemma join_pair_Inr: "join_pair sha e p c k = Inr j \<longleftrightarrow>
    j = \<lparr>jp_pair_key = entry_at e k, jp_pair_key_digest = k, jp_parent_receipt = entry_at p k, jp_child_receipt = entry_at c k\<rparr> \<and>
    pair_key_digest sha (entry_at e k) = k \<and> or_pair_key (entry_at p k) = entry_at e k \<and>
    or_pair_key (entry_at c k) = entry_at e k \<and> pair_configuration (entry_at p k) = pair_configuration (entry_at c k)"
  by (auto simp: join_pair_def assert_pair_configuration_def validate_joined_pair_def res_simps)

lemma joined_fields: "validate_joined_panel sha p = Inr q \<Longrightarrow> jn_pairs q = jn_pairs p \<and> jn_expected q = jn_expected p"
  by (auto simp: validate_joined_panel_def Let_def res_simps)

lemma join_Inr: "join_outcome_receipts sha ep keys ps cs = Inr panel \<Longrightarrow> \<exists>e p c.
    expected_map sha ep keys = Inr e \<and> receipt_map sha ep ps = Inr p \<and> receipt_map sha ep cs = Inr c \<and>
    fst ` set p = fst ` set e \<and> fst ` set c = fst ` set e \<and>
    mapE (join_pair sha e p c) (sort (map fst e)) = Inr (jn_pairs panel) \<and> jn_expected panel = sort (map fst e)"
  unfolding join_outcome_receipts_def Let_def bindE_Inr thenE_Inr raise_if_Inr set_map
  by (elim exE conjE, drule joined_fields) auto

lemma joined_pairs:
  assumes "mapE (join_pair sha e p c) ks = Inr pairs"
  shows "map jp_pair_key pairs = map (entry_at e) ks" and "map jp_parent_receipt pairs = map (entry_at p) ks"
    and "map jp_child_receipt pairs = map (entry_at c) ks" and "map jp_pair_key_digest pairs = ks"
    and "list_all (\<lambda>j. or_pair_key (jp_parent_receipt j) = jp_pair_key j \<and> or_pair_key (jp_child_receipt j) = jp_pair_key j \<and>
      pair_configuration (jp_parent_receipt j) = pair_configuration (jp_child_receipt j)) pairs"
proof -
  let ?ok = "\<lambda>j. or_pair_key (jp_parent_receipt j) = jp_pair_key j \<and> or_pair_key (jp_child_receipt j) = jp_pair_key j \<and>
      pair_configuration (jp_parent_receipt j) = pair_configuration (jp_child_receipt j)"
  have one: "jp_pair_key j = entry_at e k \<and> jp_parent_receipt j = entry_at p k \<and> jp_child_receipt j = entry_at c k \<and>
      jp_pair_key_digest j = k \<and> ?ok j" if "join_pair sha e p c k = Inr j" for k j
    using that unfolding join_pair_Inr by simp
  have "list_all2 (\<lambda>k j. jp_pair_key j = entry_at e k \<and> jp_parent_receipt j = entry_at p k \<and> jp_child_receipt j = entry_at c k \<and>
      jp_pair_key_digest j = k \<and> ?ok j) ks pairs"
    using assms unfolding mapE_Inr by (rule list_all2_mono) (rule one)
  then show "map jp_pair_key pairs = map (entry_at e) ks" "map jp_parent_receipt pairs = map (entry_at p) ks"
    "map jp_child_receipt pairs = map (entry_at c) ks" "map jp_pair_key_digest pairs = ks" "list_all ?ok pairs"
    by (induction rule: list_all2_induct) auto
qed

text \<open>C39: a joined panel covers exactly the expected keys. Its keys are the expected ones, each once, in
  the order of their digests; its parent and child receipts are the given ones, each once, so no
  outcome is dropped, invented or counted twice; and the receipts of a pair carry its key and agree
  on every field of the configuration.\<close>

theorem joined_panel_exact:
  assumes "join_outcome_receipts sha ep keys parents children = Inr panel"
  shows "jn_expected panel = sort (map (pair_key_digest sha) keys) \<and> distinct (jn_expected panel) \<and>
    map jp_pair_key_digest (jn_pairs panel) = jn_expected panel \<and>
    mset (map jp_pair_key (jn_pairs panel)) = mset keys \<and>
    mset (map jp_parent_receipt (jn_pairs panel)) = mset parents \<and>
    mset (map jp_child_receipt (jn_pairs panel)) = mset children \<and>
    list_all (\<lambda>j. or_pair_key (jp_parent_receipt j) = jp_pair_key j \<and> or_pair_key (jp_child_receipt j) = jp_pair_key j \<and>
      pair_configuration (jp_parent_receipt j) = pair_configuration (jp_child_receipt j)) (jn_pairs panel)"
proof -
  let ?k = "pair_key_digest sha" and ?r = "receipt_key sha"
  obtain e p c where m: "expected_map sha ep keys = Inr e" "receipt_map sha ep parents = Inr p"
      "receipt_map sha ep children = Inr c" "fst ` set p = fst ` set e" "fst ` set c = fst ` set e"
    and pairs: "mapE (join_pair sha e p c) (sort (map fst e)) = Inr (jn_pairs panel)" "jn_expected panel = sort (map fst e)"
    using join_Inr [OF assms] by (elim exE conjE) (rule that)
  have e: "distinct (map ?k keys)" "e = keyed ?k keys" using m(1) by (simp_all add: expected_map_Inr)
  have p: "distinct (map ?r parents)" "p = keyed ?r parents" and c: "distinct (map ?r children)" "c = keyed ?r children"
    using m(2,3) by (simp_all add: receipt_map_Inr)
  have fsts: "map fst e = map ?k keys" by (simp add: e(2) comp_def)
  have sorted: "mset (sort (map fst e)) = mset (map ?k keys)" unfolding fsts by simp
  have "mset (map ?r parents) = mset (map ?k keys)"
    using m(4) set_eq_iff_mset_eq_distinct [OF p(1) e(1)] unfolding p(2) e(2) by (simp add: image_image)
  then have ps: "mset (sort (map fst e)) = mset (map ?r parents)" using sorted by simp
  have "mset (map ?r children) = mset (map ?k keys)"
    using m(5) set_eq_iff_mset_eq_distinct [OF c(1) e(1)] unfolding c(2) e(2) by (simp add: image_image)
  then have cs: "mset (sort (map fst e)) = mset (map ?r children)" using sorted by simp
  note j = joined_pairs [OF pairs(1)]
  show ?thesis unfolding j pairs(2)
    using entries_mset [OF e(1) sorted] entries_mset [OF p(1) ps] entries_mset [OF c(1) cs] j(5) e(1) fsts
    unfolding e(2) [symmetric] p(2) [symmetric] c(2) [symmetric] by simp
qed

lemma joined_panel_exact_witness:
  "\<exists>panel. join_outcome_receipts parity_sha sample_epoch_validated [sample_pair_key ''task'', sample_pair_key ''task2'']
      [sample_receipt ''task2'' ''parent'' False, sample_receipt ''task'' ''parent'' False]
      [sample_receipt ''task'' ''child'' False, sample_receipt ''task2'' ''child'' True] = Inr panel \<and>
    mset (map jp_pair_key (jn_pairs panel)) = {#sample_pair_key ''task'', sample_pair_key ''task2''#}"
proof -
  let ?keys = "[sample_pair_key ''task'', sample_pair_key ''task2'']"
  let ?ps = "[sample_receipt ''task2'' ''parent'' False, sample_receipt ''task'' ''parent'' False]"
  let ?cs = "[sample_receipt ''task'' ''child'' False, sample_receipt ''task2'' ''child'' True]"
  let ?k = "pair_key_digest parity_sha" and ?r = "receipt_key parity_sha"
  let ?e = "keyed ?k ?keys" and ?p = "keyed ?r ?ps" and ?c = "keyed ?r ?cs"
  have k: "?k (sample_pair_key ''task'') \<noteq> ?k (sample_pair_key ''task2'')"
    using sample_keys by (simp add: proof_key_def)
  have cfg: "pk_provider_config_digest (sample_pair_key t) = dep_provider_config_digest (deployment sample_epoch_validated)" for t
    by (simp add: sample_pair_key_def sample_epoch_validated_def sample_epoch_def)
  have same: "pair_configuration (sample_receipt t ''parent'' False) = pair_configuration (sample_receipt t ''child'' b)" for t b
    unfolding pair_configuration_def identity_deployment_def sample_receipt_def Let_def by simp
  have maps: "expected_map parity_sha sample_epoch_validated ?keys = Inr ?e"
    "receipt_map parity_sha sample_epoch_validated ?ps = Inr ?p" "receipt_map parity_sha sample_epoch_validated ?cs = Inr ?c"
    using k by (simp_all add: expected_map_Inr receipt_map_Inr sample_receipt_ok cfg)
  have "\<exists>j. join_pair parity_sha ?e ?p ?c k = Inr j" if "k \<in> set (sort (map fst ?e))" for k
  proof -
    have "k = ?k (sample_pair_key ''task'') \<or> k = ?k (sample_pair_key ''task2'')" using that unfolding set_sort by simp
    then show ?thesis using k by (elim disjE) (simp_all add: join_pair_Inr same)
  qed
  then obtain pairs where pairs: "mapE (join_pair parity_sha ?e ?p ?c) (sort (map fst ?e)) = Inr pairs"
    using mapE_possible by blast
  note d = joined_pairs(4) [OF pairs]
  have "\<exists>panel. join_outcome_receipts parity_sha sample_epoch_validated ?keys ?ps ?cs = Inr panel"
    unfolding join_outcome_receipts_def Let_def maps bindE_simps pairs validate_joined_panel_def
    using k d by (auto simp: res_simps single_def)
  then obtain panel where "join_outcome_receipts parity_sha sample_epoch_validated ?keys ?ps ?cs = Inr panel" by blast
  with joined_panel_exact [OF this] show ?thesis by simp
qed

end
