(* ===== verification/Patches.thy ===== *)
theory Patches
  imports Epochs
begin

text \<open>
  SEARCH/REPLACE patches (\<open>core/patches.py\<close>): their text, their parser and their application to a
  source text. A parsed block is the pair of the searched and the replacing text.
\<close>

section \<open>Patch texts\<close>

abbreviation newline :: char where
  "newline \<equiv> CHR 0x0A"

definition search_marker :: string where
  "search_marker = ''<<<<<<< SEARCH'' @ [newline]"

definition divider :: string where
  "divider = [newline] @ ''======='' @ [newline]"

definition replace_marker :: string where
  "replace_marker = [newline] @ ''>>>>>>> REPLACE''"

definition build_patch :: "string \<Rightarrow> string \<Rightarrow> string" where
  "build_patch search replace = search_marker @ search @ divider @ replace @ replace_marker"

text \<open>The texts before and after the first occurrence: \<open>str.find\<close>, and a lazy group of the pattern.\<close>

fun split_first :: "string \<Rightarrow> string \<Rightarrow> (string \<times> string) option" where
  "split_first p [] = (if p = [] then Some ([], []) else None)"
| "split_first p (x # xs) =
     (if starts_with (x # xs) p then Some ([], drop (length p) (x # xs))
      else map_option (\<lambda>(before, after). (x # before, after)) (split_first p xs))"

lemma split_first_parts: "split_first p s = Some (a, b) \<Longrightarrow> s = a @ p @ b"
  by (induction p s arbitrary: a b rule: split_first.induct)
    (auto simp: starts_with_def split: if_splits, metis append_take_drop_id length_Cons)

text \<open>One match of the pattern and the text after it. A lazy group that fails at its first end
  fails at every later one, so there is no backtracking.\<close>

definition match_block :: "string \<Rightarrow> ((string \<times> string) \<times> string) option" where
  "match_block text =
     (case split_first search_marker text of None \<Rightarrow> None
      | Some (_, body) \<Rightarrow>
        (case split_first divider body of None \<Rightarrow> None
         | Some (search, rest) \<Rightarrow>
           (case split_first replace_marker rest of None \<Rightarrow> None
            | Some (replace, after) \<Rightarrow> Some ((search, replace), after))))"

lemma match_block_shorter: "match_block text = Some (b, after) \<Longrightarrow> length after < length text"
  by (auto simp: match_block_def search_marker_def split: option.splits dest!: split_first_parts)

function match_blocks :: "string \<Rightarrow> (string \<times> string) list" where
  "match_blocks text = (case match_block text of None \<Rightarrow> [] | Some (b, after) \<Rightarrow> b # match_blocks after)"
  by auto
termination by (relation "measure length") (auto simp: match_block_shorter)

declare match_blocks.simps [simp del]

definition parse_patch :: "string \<Rightarrow> (string \<times> string) list res" where
  "parse_patch text =
     (let blocks = match_blocks text
      in thenE (raise_if (blocks = []) (PatchApplyError ''patch contained no SEARCH/REPLACE blocks'')) (Inr blocks))"

section \<open>Application\<close>

definition py_find :: "string \<Rightarrow> string \<Rightarrow> nat \<Rightarrow> int" where
  "py_find source needle start =
     (if length source < start then -1
      else case split_first needle (drop start source) of None \<Rightarrow> -1 | Some (before, _) \<Rightarrow> int (start + length before))"

definition unique_search_match :: "string \<Rightarrow> string \<Rightarrow> int" where
  "unique_search_match source needle =
     (let first = py_find source needle 0
      in if first < 0 then -1
         else if py_find source needle (nat first + 1) \<ge> 0 then -2
         else first)"

definition replace_once :: "string \<Rightarrow> string \<Rightarrow> string \<Rightarrow> string" where
  "replace_once s search replace =
     (case split_first search s of None \<Rightarrow> s | Some (before, after) \<Rightarrow> before @ replace @ after)"

fun apply_blocks :: "string \<Rightarrow> (string \<times> string) list \<Rightarrow> string res" where
  "apply_blocks s [] = Inr s"
| "apply_blocks s ((search, replace) # bs) =
     (let status = unique_search_match s search in
     thenE (raise_if (status = -1) (PatchApplyError ''SEARCH block not found'')) (
     thenE (raise_if (status = -2) (PatchApplyError ''SEARCH block matched multiple locations''))
     (apply_blocks (replace_once s search replace) bs)))"

definition apply_patch_to_text :: "string \<Rightarrow> string \<Rightarrow> string res" where
  "apply_patch_to_text source patch_text = bindE (parse_patch patch_text) (apply_blocks source)"

section \<open>Parsing what was built\<close>

text \<open>A text is clean for a marker if the marker cannot begin inside it.\<close>

definition clean :: "string \<Rightarrow> string \<Rightarrow> bool" where
  "clean p s \<longleftrightarrow> split_first p (s @ butlast p) = None"

lemma starts_with_append: "length p \<le> length s \<Longrightarrow> starts_with (s @ t) p = starts_with s p"
  by (simp add: starts_with_def)

lemma split_first_clean: "clean p s \<Longrightarrow> p \<noteq> [] \<Longrightarrow> split_first p (s @ p @ r) = Some (s, r)"
proof (induction s)
  case Nil
  then show ?case by (cases p) (simp_all add: starts_with_def)
next
  case (Cons x s)
  have c: "clean p s" and n: "\<not> starts_with (x # s @ butlast p) p"
    using Cons.prems(1) by (auto simp: clean_def split: if_splits)
  have "p = butlast p @ [last p]" using Cons.prems(2) by simp
  then have e: "x # s @ p @ r = (x # s @ butlast p) @ (last p # r)" by (metis append.assoc append_Cons append_Nil)
  have "length p \<le> length (x # s @ butlast p)" by simp
  then have "\<not> starts_with (x # s @ p @ r) p" using n unfolding e by (simp only: starts_with_append not_False_eq_True)
  then show ?case using Cons.IH [OF c Cons.prems(2)] by simp
qed

lemma match_built:
  assumes "clean divider s" and "clean replace_marker r"
  shows "match_block (build_patch s r @ rest) = Some ((s, r), rest)"
proof -
  have "clean search_marker []" by code_simp
  then have "split_first search_marker (search_marker @ t) = Some ([], t)" for t
    using split_first_clean [of search_marker "[]"] by (simp add: search_marker_def)
  moreover have "divider \<noteq> []" "replace_marker \<noteq> []" by (simp_all add: divider_def replace_marker_def)
  ultimately show ?thesis
    using split_first_clean [OF assms(1)] split_first_clean [OF assms(2)] by (simp add: match_block_def build_patch_def)
qed

lemma match_after_newline: "match_blocks (newline # text) = match_blocks text"
  by (simp add: match_blocks.simps [of "newline # text"] match_blocks.simps [of "text"] match_block_def starts_with_def
      search_marker_def split: option.splits prod.splits)

definition buildable :: "string \<times> string \<Rightarrow> bool" where
  "buildable b \<longleftrightarrow> clean divider (fst b) \<and> clean replace_marker (snd b)"

lemma match_blocks_built:
  "list_all buildable bs \<Longrightarrow> match_blocks (join_with [newline] (map (\<lambda>(s, r). build_patch s r) bs)) = bs"
proof (induction bs)
  case Nil
  show ?case by (simp add: match_blocks.simps match_block_def search_marker_def)
next
  case (Cons b bs)
  obtain s r where b: "b = (s, r)" by (cases b)
  have m: "match_blocks (build_patch s r @ rest) = (s, r) # match_blocks rest" for rest
    using Cons.prems match_built [of s r rest] by (simp add: b buildable_def match_blocks.simps [of "build_patch s r @ rest"])
  have e: "match_blocks [] = []" by (simp add: match_blocks.simps match_block_def search_marker_def)
  show ?case
  proof (cases bs)
    case Nil
    then show ?thesis using m [of "[]"] e by (simp add: b)
  next
    case (Cons c cs)
    then show ?thesis using m Cons.IH Cons.prems by (simp add: b match_after_newline)
  qed
qed

section \<open>What a patch does\<close>

text \<open>The positions at which a text occurs.\<close>

definition occurrences :: "string \<Rightarrow> string \<Rightarrow> nat list" where
  "occurrences p s = filter (\<lambda>i. starts_with (drop i s) p) [0..<Suc (length s)]"

lemma occurrences_Cons:
  "occurrences p (x # s) = (if starts_with (x # s) p then [0] else []) @ map Suc (occurrences p s)"
proof -
  have "[0..<Suc (length (x # s))] = 0 # map Suc [0..<Suc (length s)]" by (simp add: upt_conv_Cons map_Suc_upt del: upt_Suc)
  then show ?thesis unfolding occurrences_def by (simp add: filter_map comp_def del: upt_Suc)
qed

lemma split_first_occurrence:
  "split_first p s = (case occurrences p s of [] \<Rightarrow> None | i # ks \<Rightarrow> Some (take i s, drop (i + length p) s))"
proof (induction s)
  case Nil
  show ?case by (simp add: occurrences_def starts_with_def)
next
  case (Cons x s)
  then show ?case by (cases "occurrences p s") (simp_all add: occurrences_Cons)
qed

lemma occurrences_drop: "occurrences p (drop k s) = map (\<lambda>i. i - k) (filter (\<lambda>i. k \<le> i) (occurrences p s))" if "k \<le> length s"
  using that
proof (induction k arbitrary: s)
  case 0
  show ?case by (simp add: filter_True)
next
  case (Suc k)
  then obtain x t where s: "s = x # t" by (cases s) auto
  show ?case using Suc by (simp add: s occurrences_Cons filter_map comp_def)
qed

lemma occurrences_bound: "i \<in> set (occurrences p s) \<Longrightarrow> i \<le> length s"
  unfolding occurrences_def set_filter set_upt by simp

lemma occurrences_sorted: "sorted_wrt (<) (occurrences p s)"
  unfolding occurrences_def by (intro sorted_wrt_filter sorted_wrt_upt)

lemma unique_search_match_decides:
  "unique_search_match s p = (case occurrences p s of [] \<Rightarrow> -1 | [i] \<Rightarrow> int i | i # j # ks \<Rightarrow> -2)"
proof (cases "occurrences p s")
  case Nil
  then show ?thesis by (simp add: unique_search_match_def py_find_def split_first_occurrence)
next
  case (Cons i ks)
  have i: "i \<le> length s" using occurrences_bound [of i p s] Cons by simp
  have later: "\<forall>j\<in>set ks. i < j \<and> j \<le> length s"
    using occurrences_sorted [of p s] occurrences_bound [of _ p s] by (auto simp: Cons)
  have first: "py_find s p 0 = int i" using i by (simp add: py_find_def split_first_occurrence Cons)
  have "py_find s p (Suc i) < 0" if "ks = []"
    using occurrences_drop [of "Suc i" s p] that by (simp add: py_find_def split_first_occurrence Cons)
  moreover have "0 \<le> py_find s p (Suc i)" if c: "ks = j # js" for j js
    using occurrences_drop [of "Suc i" s p] later by (simp add: py_find_def split_first_occurrence Cons c)
  ultimately show ?thesis unfolding unique_search_match_def Let_def first by (cases "ks") (auto simp: Cons)
qed

text \<open>C40: a patch does what its blocks say. Blocks whose texts do not contain the markers that end them are
  parsed back in order from their joined patch texts. A patch built from one block replaces the
  only occurrence of its search text and nothing else; no occurrence and several occurrences
  (overlapping ones included) are errors.\<close>

theorem built_patch_applies:
  assumes "list_all buildable blocks" and "blocks \<noteq> []" and "buildable (search, replace)"
  shows "parse_patch (join_with [newline] (map (\<lambda>(s, r). build_patch s r) blocks)) = Inr blocks \<and>
    apply_patch_to_text source (build_patch search replace) =
      (case occurrences search source of
         [] \<Rightarrow> Inl (PatchApplyError ''SEARCH block not found'')
       | [i] \<Rightarrow> Inr (take i source @ replace @ drop (i + length search) source)
       | i # j # ks \<Rightarrow> Inl (PatchApplyError ''SEARCH block matched multiple locations''))"
proof
  show "parse_patch (join_with [newline] (map (\<lambda>(s, r). build_patch s r) blocks)) = Inr blocks"
    using match_blocks_built [OF assms(1)] assms(2) by (simp add: parse_patch_def)
  have "parse_patch (build_patch search replace) = Inr [(search, replace)]"
    using match_blocks_built [of "[(search, replace)]"] assms(3) by (simp add: parse_patch_def)
  then show "apply_patch_to_text source (build_patch search replace) =
      (case occurrences search source of
         [] \<Rightarrow> Inl (PatchApplyError ''SEARCH block not found'')
       | [i] \<Rightarrow> Inr (take i source @ replace @ drop (i + length search) source)
       | i # j # ks \<Rightarrow> Inl (PatchApplyError ''SEARCH block matched multiple locations''))"
    by (auto simp: apply_patch_to_text_def unique_search_match_decides replace_once_def split_first_occurrence split: list.splits)
qed

theorem built_patch_applies_witness:
  "parse_patch (join_with [newline] (map (\<lambda>(s, r). build_patch s r) [(''a'', ''b''), (''c'', ''d'')])) = Inr [(''a'', ''b''), (''c'', ''d'')] \<and>
   apply_patch_to_text ''x = 1'' (build_patch ''1'' ''2'') = Inr ''x = 2'' \<and>
   apply_patch_to_text ''aaa'' (build_patch ''aa'' ''b'') = Inl (PatchApplyError ''SEARCH block matched multiple locations'')"
proof -
  have b: "list_all buildable [(''a'', ''b''), (''c'', ''d'')]" "buildable (''1'', ''2'')" "buildable (''aa'', ''b'')" by code_simp+
  have o: "occurrences ''1'' ''x = 1'' = [4]" "occurrences ''aa'' ''aaa'' = [0, 1]" by code_simp+
  show ?thesis using built_patch_applies [OF b(1) _ b(2), of "''x = 1''"] built_patch_applies [OF b(1) _ b(3), of "''aaa''"]
    by (simp add: o)
qed

end
