(* ===== verification/Spec2Isabelle.thy ===== *)
theory Spec2Isabelle
  imports Prelude Identity Epochs Harness Topology Compiler HarnessActions HarnessMutator Floats BudgetLedger ArtifactStore Programs Provider RuntimeRuns PairingSound Patches
begin

text \<open>
  \<^bold>\<open>Verification library of agintor\<close>, a system that compiles multi-agent harness protocols for
  repository repair into run plans, runs them under an aggregate budget, and searches for better
  protocols by typed semantic mutations. Paths below are relative to \<open>src/agintor\<close>.

  \<^bold>\<open>Parts of the program and theories\<close>

  \<^item> Prelude: exceptions and results, Python string helpers, generic lemmas, and the locale
    \<open>validator\<close> (a validator accepts only well-formed values and is the identity on them) that
    the contract theories interpret.
  \<^item> Identity (\<open>core/identity.py\<close>): the framed canonical encoding of values and the digests over
    it. The encoding is injective up to the order of dict entries and set elements, and a digest
    determines its domain and value unless SHA-256, a parameter, collides.
  \<^item> Epochs (\<open>contracts/epochs.py\<close>): ceilings, task envelopes and research epochs with every
    validator and manifest digest. A task digest binds every field; a task bound to an epoch
    keeps the split of its data state.
  \<^item> Harness (\<open>contracts/harness.py\<close>): protocols, dependency manifests and run plans.
  \<^item> Topology and Compiler (\<open>runtime/api/composite_compiler.py\<close>): feedback edge and levels of
    the channel graph, then calls, deliveries, stages, verification, budget plan and the liveness
    manifest. The compiler decides exactly the documented errors; a compiled plan runs producers
    before consumers, emits one final patch last, gives every call exactly its declared context,
    conserves the budget and covers every mutable field.
  \<^item> HarnessActions and HarnessMutator (\<open>contracts/harness_actions.py\<close>,
    \<open>search/harness_mutator.py\<close>): typed patches, proposals, transactions, their application to a
    parent protocol and their reversion. An applied child differs from its parent only in the
    touched paths; the newest transaction reverts to the parent; the retained transactions are a
    lineage, an inductive relation on which the reversion order is decided.
  \<^item> Floats: the double arithmetic of Python numbers, used by the ledger and the runtime.
  \<^item> BudgetLedger (\<open>runtime/kernel/composite_budget.py\<close>): reservations and settlement. The
    contract is the escrow account; the locale \<open>escrow_implementation\<close> states the refinement once
    and is interpreted on the ledger.
  \<^item> ArtifactStore (\<open>runtime/kernel/composite_artifacts.py\<close>): the run-local store. The locale
    \<open>write_once\<close> states the contract and is interpreted on the store; a compiled plan always has
    a store.
  \<^item> Programs: programs that change state, raise and need not return, with a weakest precondition
    calculus for partial and total correctness.
  \<^item> Provider (\<open>runtime/kernel/composite_provider.py\<close>): credentials, provenance, requests,
    results, the wait for a reply and the whole of a call. A call that returns leaves no
    reservation behind and moves the totals exactly by the reported usage; it returns if the wait
    ends. ErrorKinds: what ledger and controller raise.
  \<^item> JsonText and PublicSession (\<open>contracts/harness.py\<close>): the JSON texts of requests and the
    public session context with its validators and text scan.
  \<^item> RuntimePlan, RuntimeCalls and Runtime (\<open>runtime/kernel/composite_runtime.py\<close>): the input
    checks, the requests and outputs, and the executor. Each operation of \<open>CompositeRuntime\<close> is a
    program over the state \<open>run_state\<close> (ledger, store, outputs, contexts, evidence, stages), which
    extends the state of a provider call.
  \<^item> RunnablePlan, RuntimeReads, RuntimeTurns, RuntimeSound, RuntimeRuns: the contract between
    compiler and executor. \<open>runnable\<close> says what a run needs of a plan; every compiled plan has it;
    the invariant \<open>run_inv\<close> over calls and stages is preserved by every call of a runnable plan. So
    a run of a compiled plan raises no internal error, returns only checked results whose budget
    is the sum of the usage in the evidence, and returns if the provider does.
  \<^item> Outcomes (\<open>contracts/outcomes.py\<close>, \<open>contracts/promotion_proof.py\<close>): pair keys, evaluator
    receipts and public proof bindings with their validators and digests. Promotion
    (\<open>search/promotion.py\<close>, \<open>evaluation/pairing.py\<close>): the decision to retain a child protocol and
    the join of two panels by pair key.
  \<^item> PromotionSound and PairingSound: an authorization rests on eligible proofs paired one to one,
    its gain is the difference in complete repairs, and the order of the proofs does not matter; a
    joined panel has every expected key and every receipt exactly once.
  \<^item> Patches (\<open>core/patches.py\<close>): SEARCH/REPLACE patches. What is built parses back, and a built
    patch replaces the only occurrence of its search text or is refused.

  \<^bold>\<open>How the parts interact\<close>

  A validated task envelope, protocol and dependency manifest (Epochs, Harness) are compiled
  (Topology, Compiler) into a run plan whose digests are those of Identity. The mutator compiles
  parent and child and compares their semantic digests. The runtime executes a plan over one
  budget ledger, one artifact store and the provider controller. Evaluators issue receipts on the
  runs of parent and child; the promotion gate compares the two sides and authorizes the child.

  \<^bold>\<open>Conventions\<close>

  A Pydantic model is a \<open>record\<close>, its validators are functions into \<open>exn + 'a\<close> that return the
  validated value, in the order the fields and model validators run. Strings are their UTF-8
  bytes. Python ints are \<open>int\<close>, floats are doubles bit by bit. Values that enter from outside
  (SHA-256, the clock, JSON resources, providers, tools) are parameters. No fuel is used: every
  loop is structural or has a termination proof, except the wait for a reply, which is a partial
  function whose end is proved from the progress of the clock.

  The repair tools are an injected interface, a record of operations over the ledger and the
  world; \<open>tools_contract\<close> says what the theorems ask of them: they use the ledger through its own
  operations, charge only tool metrics and raise their own errors.

  \<^bold>\<open>Not modelled\<close>

  The file operations of the repair tools, provider adapters, evaluation services, storage,
  isolation, factory services, the earlier graph runtime and the command line are effects on
  files, processes, containers and the network, and are not modelled. \<open>ceilings_usage_within\<close> of
  \<open>contracts/epochs.py\<close> and the construction of a proof binding from a stored proof record are left
  out. Messages that list the offending fields are modelled without the list.
\<close>

end
